theory Spec2Isabelle
  imports Main "HOL-Library.Word"
begin

section \<open>Errors and the error catcher\<close>

text \<open>
  Go errors are values; \<open>nil\<close> is \<open>None\<close>.  The constructors follow the library calls
  the collector uses: \<open>errors.New\<close>, \<open>errors.Wrap\<close>/\<open>errors.Wrapf\<close>, the error that
  \<open>recovery.HandlePanicWithError\<close> builds from a recovered panic value, and the combined
  error that \<open>Catcher.Resolve\<close> returns.
\<close>

datatype error =
    New string
  | Wrap error string
  | PanicError string string
  | Multi "error list"

text \<open>\<open>errors.Wrap(err, msg)\<close> and \<open>errors.Wrapf\<close> return \<open>nil\<close> when \<open>err\<close> is \<open>nil\<close>.\<close>

definition wrap :: "error option \<Rightarrow> string \<Rightarrow> error option" where
  "wrap err msg = (case err of None \<Rightarrow> None | Some e \<Rightarrow> Some (Wrap e msg))"

text \<open>
  \<open>grip.Catcher\<close>: the errors added so far, in order.  \<open>Add(nil)\<close> is a no-op,
  \<open>HasErrors\<close> tells whether anything was added, \<open>Resolve\<close> is \<open>nil\<close> on an empty
  catcher and the combined error otherwise.
\<close>

type_synonym catcher_t = "error list"

definition Add :: "error option \<Rightarrow> catcher_t \<Rightarrow> catcher_t" where
  "Add err c = (case err of None \<Rightarrow> c | Some e \<Rightarrow> c @ [e])"

definition HasErrors :: "catcher_t \<Rightarrow> bool" where
  "HasErrors c = (c \<noteq> [])"

definition Resolve :: "catcher_t \<Rightarrow> error option" where
  "Resolve c = (if c = [] then None else Some (Multi c))"

text \<open>
  \<open>recovery.HandlePanicWithError(p, err, msg)\<close>: collects \<open>err\<close> and, when the
  recovered value \<open>p\<close> is not \<open>nil\<close>, the panic turned into an error; resolves the lot.
\<close>

definition HandlePanicWithError :: "string option \<Rightarrow> error option \<Rightarrow> string \<Rightarrow> error option" where
  "HandlePanicWithError p err msg =
     Resolve (Add (case p of None \<Rightarrow> None | Some v \<Rightarrow> Some (PanicError v msg)) (Add err []))"

section \<open>Data formats and metric collectors\<close>

type_synonym dataFormat = "32 word"

definition dataFormatText :: dataFormat where "dataFormatText = 0"
definition dataFormatFTDC :: dataFormat where "dataFormatFTDC = 1"
definition dataFormatBSON :: dataFormat where "dataFormatBSON = 2"
definition dataFormatJSON :: dataFormat where "dataFormatJSON = 3"
definition dataFormatCSV :: dataFormat where "dataFormatCSV = 4"

definition dataFormat_validate :: "dataFormat \<Rightarrow> error option" where
  "dataFormat_validate f =
     (if f = dataFormatText \<or> f = dataFormatFTDC \<or> f = dataFormatBSON
         \<or> f = dataFormatJSON \<or> f = dataFormatCSV
      then None
      else Some (New ''invalid schema type specified''))"

type_synonym payload = "8 word list"

text \<open>
  \<open>metricCollector\<close> is an interface.  \<open>Collect\<close> is an arbitrary effectful method: the
  model takes, for every collector, the outcome of its \<open>n\<close>-th call (data, an error, or a
  panic with its value).
\<close>

datatype collect_result = Data payload | CollectErr error | CollectPanic string

record metricCollector =
  Name :: string
  Format :: dataFormat
  Collect :: "nat \<Rightarrow> collect_result"

section \<open>Options and their validation\<close>

text \<open>
  \<open>time.Duration\<close> is a count of nanoseconds; the code only compares durations with zero
  and hands them on, so they are integers here.  \<open>PatchRequest\<close> stands for the result of
  \<open>t.IsPatchRequest()\<close>, which lives in the task package.
\<close>

type_synonym duration = int

definition Minute :: duration where
  "Minute = 60 * 1000000000"

record task =
  Project :: string
  Version :: string
  BuildVariant :: string
  DisplayName :: string
  Id :: string
  Execution :: int
  PatchRequest :: bool

record buildlogger_info =
  BaseURL :: string
  RPCPort :: string
  Username :: string
  Password :: string
  APIKey :: string

text \<open>
  A communicator is what its one method used here, \<open>GetBuildloggerInfo\<close>, answers; an
  existing gRPC connection is a handle.
\<close>

datatype communicator = Communicator "error + buildlogger_info"

datatype client_conn = ClientConn nat

record systemMetricsCollectorOptions =
  Task :: "task option"
  Interval :: duration
  Collectors :: "metricCollector list"
  Comm :: "communicator option"
  Conn :: "client_conn option"
  MaxBufferSize :: int
  NoBufferTimedFlush :: bool
  BufferTimedFlushInterval :: duration

text \<open>
  \<open>validate\<close> has a pointer receiver and writes the default interval into the options
  before the remaining checks: the result is the error and the options as left behind.
\<close>

definition options_validate ::
  "systemMetricsCollectorOptions \<Rightarrow> error option \<times> systemMetricsCollectorOptions" where
  "options_validate s =
     (if Task s = None then (Some (New ''must provide a valid task''), s)
      else if Interval s < 0 then (Some (New ''interval cannot be negative''), s)
      else
        let s1 = (if Interval s = 0 then s\<lparr>Interval := Minute\<rparr> else s) in
        if length (Collectors s1) = 0
          then (Some (New ''must provide at least one metricCollector''), s1)
        else if (Comm s1 = None \<and> Conn s1 = None) \<or> (Comm s1 \<noteq> None \<and> Conn s1 \<noteq> None)
          then (Some (New ''must provide either a communicator or an existing client connection''), s1)
        else if BufferTimedFlushInterval s1 < 0
          then (Some (New ''flush interval must not be negative''), s1)
        else if MaxBufferSize s1 < 0
          then (Some (New ''buffer size must not be negative''), s1)
        else (None, s1))"

section \<open>The remote client, as seen by the collector\<close>

record SystemMetricsOptions =
  smo_Project :: string
  smo_Version :: string
  smo_Variant :: string
  smo_TaskName :: string
  smo_TaskId :: string
  smo_Execution :: "32 word"
  smo_Mainline :: bool

record StreamOpts =
  FlushInterval :: duration
  NoTimedFlush :: bool
  so_MaxBufferSize :: int

record DialCedarOptions =
  dial_BaseAddress :: string
  dial_RPCPort :: string
  dial_Username :: string
  dial_Password :: string
  dial_APIKey :: string
  dial_Retries :: int

definition getSystemMetricsInfo :: "task \<Rightarrow> SystemMetricsOptions" where
  "getSystemMetricsInfo t =
     \<lparr>smo_Project = Project t, smo_Version = Version t, smo_Variant = BuildVariant t,
      smo_TaskName = DisplayName t, smo_TaskId = Id t,
      smo_Execution = word_of_int (Execution t), smo_Mainline = (\<not> PatchRequest t)\<rparr>"

text \<open>
  Every call that leaves the process is recorded, in order, in a list of events; so is
  every error the catcher takes, every value handed back to the caller, and an
  unrecovered panic.  Claims about what the remote side sees are claims about this list.
\<close>

datatype event =
    EvGetBuildloggerInfo
  | EvNewClient DialCedarOptions
  | EvNewClientWithExistingConnection "client_conn option"
  | EvCreateRecord SystemMetricsOptions
  | EvOpenStream string string dataFormat
  | EvCollect nat int
  | EvWrite nat payload
  | EvStreamClose nat
  | EvCloseSession string bool
  | EvCloseClient
  | EvCatch error
  | EvLog "error option"
  | EvStartReturn "error option"
  | EvCloseReturn "error option"
  | EvPanic string

text \<open>
  \<open>setupCedarClient\<close>: asks the communicator for the dial options and creates a client
  from them; \<open>new_client\<close> is the answer of \<open>metrics.NewSystemMetricsClient\<close>.  The result
  is the error, if any, and the calls made.
\<close>

definition setupCedarClient :: "error option \<Rightarrow> communicator \<Rightarrow> error option \<times> event list" where
  "setupCedarClient new_client c =
     (case c of Communicator r \<Rightarrow>
        (case r of
           Inl err \<Rightarrow> (Some (Wrap err ''error getting cedar dial options''), [EvGetBuildloggerInfo])
         | Inr bi \<Rightarrow>
             let dialOpts = \<lparr>dial_BaseAddress = BaseURL bi, dial_RPCPort = RPCPort bi,
                             dial_Username = Username bi, dial_Password = Password bi,
                             dial_APIKey = APIKey bi, dial_Retries = 10\<rparr>
             in (wrap new_client ''problem creating new system metrics client'',
                 [EvGetBuildloggerInfo, EvNewClient dialOpts])))"


section \<open>The collector and the tasks that run it\<close>

text \<open>
  The caller's task runs \<open>Start\<close> and \<open>Close\<close>; \<open>Start\<close> launches one supervisor task
  (\<open>timedCollect\<close>) for every collector and one watcher task (\<open>closeOnCancel\<close>).  Each
  task is a program counter; a step of the system is one task doing one statement (or
  one blocking call) of its code.
\<close>

datatype main_pc =
    MIdle                \<comment> \<open>outside \<open>Start\<close> and \<open>Close\<close>\<close>
  | MStart nat           \<comment> \<open>in the loop of \<open>Start\<close>, at the collector with this index\<close>
  | MCloseCancel         \<comment> \<open>in \<open>Close\<close>, before \<open>s.streamingCancel()\<close>\<close>
  | MCloseWait           \<comment> \<open>in \<open>Close\<close>, at \<open>s.close.Wait()\<close>\<close>

datatype sup_pc =
    SInit                \<comment> \<open>launched, before \<open>time.NewTimer(0)\<close>\<close>
  | SSelect              \<comment> \<open>at the \<open>select\<close>\<close>
  | SWrite payload       \<comment> \<open>collected, before \<open>stream.Write(data)\<close>\<close>
  | SDefer "string option" \<comment> \<open>entering the deferred function, with the panic value if panicking\<close>
  | SStreamClose         \<comment> \<open>before \<open>stream.Close()\<close>\<close>
  | SStreamDone          \<comment> \<open>before \<open>s.stream.Done()\<close>\<close>
  | SExit                \<comment> \<open>returned\<close>

record sup =
  mc :: metricCollector
  pc :: sup_pc
  deadline :: int        \<comment> \<open>when the timer fires\<close>
  ncalls :: nat          \<comment> \<open>calls of \<open>mc.Collect\<close> made so far\<close>

datatype watcher_pc =
    WNone                \<comment> \<open>not launched\<close>
  | WSelect              \<comment> \<open>at the \<open>select\<close>\<close>
  | WCancel              \<comment> \<open>case \<open>outerCtx.Done()\<close>, before \<open>s.streamingCancel()\<close>\<close>
  | WWait bool           \<comment> \<open>in \<open>cleanup\<close>, at \<open>s.stream.Wait()\<close>; the flag: came by the outer case\<close>
  | WLock bool           \<comment> \<open>at \<open>s.mu.Lock()\<close>\<close>
  | WSession bool        \<comment> \<open>holding the lock, before the session is closed\<close>
  | WClient bool         \<comment> \<open>before \<open>s.client.CloseClient()\<close>\<close>
  | WMark bool           \<comment> \<open>before \<open>s.closed = true\<close> and the unlock\<close>
  | WLog                 \<comment> \<open>outer case, before \<open>grip.Error(s.catcher.Resolve())\<close>\<close>
  | WExit bool           \<comment> \<open>before the deferred \<open>s.close.Done()\<close>\<close>
  | WDone bool           \<comment> \<open>returned\<close>

text \<open>
  The fields of \<open>systemMetricsCollector\<close> (a function value and a pointer are kept as
  "is not nil"; the mutex as "is held"; a wait group as its counter), the two contexts,
  the tasks, the clock and the events.
\<close>

record state =
  streamingCancel :: bool
  taskOpts :: SystemMetricsOptions
  streamOpts :: StreamOpts
  interval :: duration
  collectors :: "metricCollector list"
  client :: bool
  catcher :: catcher_t
  id_s :: string
  closed :: bool
  mu :: bool
  stream_wg :: int
  close_wg :: int
  outer_done :: bool
  streaming_cancelled :: bool
  main :: main_pc
  start_called :: bool
  sups :: "sup list"
  watcher :: watcher_pc
  now :: int
  events :: "event list"
  crashed :: bool

text \<open>
  \<open>newSystemMetricsCollector\<close>: validation first, then the struct, then the client.
  \<open>new_client\<close> is the answer of the client constructor that is reached.  The result is
  the error or the collector (with the run-time part of the state at its beginning), and
  the calls made.  \<open>getSystemMetricsInfo\<close> dereferences the task: on a nil task it would
  panic, which validation excludes.
\<close>

definition newSystemMetricsCollector ::
  "error option \<Rightarrow> systemMetricsCollectorOptions \<Rightarrow> (error + state) \<times> event list" where
  "newSystemMetricsCollector new_client opts0 =
     (case options_validate opts0 of
        (Some err, _) \<Rightarrow> (Inl (Wrap err ''invalid options''), [])
      | (None, opts) \<Rightarrow>
         (case Task opts of
            None \<Rightarrow> (Inl (PanicError ''nil pointer dereference'' ''getSystemMetricsInfo''), [])
          | Some t \<Rightarrow>
              let s = \<lparr>streamingCancel = False,
                       taskOpts = getSystemMetricsInfo t,
                       streamOpts = \<lparr>FlushInterval = BufferTimedFlushInterval opts,
                                     NoTimedFlush = NoBufferTimedFlush opts,
                                     so_MaxBufferSize = MaxBufferSize opts\<rparr>,
                       interval = Interval opts,
                       collectors = Collectors opts,
                       client = True,
                       catcher = [],
                       id_s = [],
                       closed = False,
                       mu = False,
                       stream_wg = 0,
                       close_wg = 0,
                       outer_done = False,
                       streaming_cancelled = False,
                       main = MIdle,
                       start_called = False,
                       sups = [],
                       watcher = WNone,
                       now = 0,
                       events = [],
                       crashed = False\<rparr>;
                  (err, evs) =
                    (case Comm opts of
                       Some c \<Rightarrow> setupCedarClient new_client c
                     | None \<Rightarrow> (new_client, [EvNewClientWithExistingConnection (Conn opts)]))
              in (case err of
                    Some e \<Rightarrow> (Inl (Wrap e ''problem creating new system metrics client''), evs)
                  | None \<Rightarrow> (Inr s, evs))))"

subsection \<open>Shared helpers\<close>

definition emit :: "event \<Rightarrow> state \<Rightarrow> state" where
  "emit e s = s\<lparr>events := events s @ [e]\<rparr>"

text \<open>\<open>s.catcher.Add(err)\<close>; an error that is taken is also recorded as an event.\<close>

definition catch :: "error option \<Rightarrow> state \<Rightarrow> state" where
  "catch err s =
     s\<lparr>catcher := Add err (catcher s),
       events := events s @ (case err of None \<Rightarrow> [] | Some e \<Rightarrow> [EvCatch e])\<rparr>"

text \<open>An unrecovered panic ends the process: no task steps any more.\<close>

definition crash :: "string \<Rightarrow> state \<Rightarrow> state" where
  "crash msg s = s\<lparr>crashed := True, events := events s @ [EvPanic msg]\<rparr>"

text \<open>
  The streaming context is a child of the caller's: it is done when its own cancel
  function was called or when the caller's context is done.
\<close>

definition streamingCtx_done :: "state \<Rightarrow> bool" where
  "streamingCtx_done s = (outer_done s \<or> streaming_cancelled s)"

definition upd_sup :: "nat \<Rightarrow> (sup \<Rightarrow> sup) \<Rightarrow> state \<Rightarrow> state" where
  "upd_sup i f s = s\<lparr>sups := (sups s)[i := f (sups s ! i)]\<rparr>"

definition at_sup :: "nat \<Rightarrow> state \<Rightarrow> sup_pc option" where
  "at_sup i s = (if i < length (sups s) then Some (pc (sups s ! i)) else None)"

definition stream_msg :: "string \<Rightarrow> state \<Rightarrow> metricCollector \<Rightarrow> string" where
  "stream_msg what s c = what @ '' for id '' @ id_s s @ '' and metricType '' @ Name c"


subsection \<open>The caller's task: \<open>Start\<close> and \<open>Close\<close>\<close>

text \<open>
  The caller uses one collector once: it calls \<open>Start\<close> at most one time, and \<open>Close\<close>
  whenever it is not inside a call.  The first statement of \<open>Start\<close>:
  \<open>CreateSystemMetricsRecord\<close> answers with an id and an error, both are assigned; on
  success the streaming context and its cancel function are made.
\<close>

definition Start_create :: "string \<Rightarrow> error option \<Rightarrow> state \<Rightarrow> state option" where
  "Start_create rid err s =
     (if main s = MIdle \<and> \<not> start_called s then
        let s1 = emit (EvCreateRecord (taskOpts s)) (s\<lparr>start_called := True, id_s := rid\<rparr>) in
        (case err of
           Some e \<Rightarrow>
             Some (emit (EvStartReturn
                     (Some (Wrap e ''problem creating cedar system metrics metadata object''))) s1)
         | None \<Rightarrow> Some (s1\<lparr>streamingCancel := True, main := MStart 0\<rparr>))
      else None)"

text \<open>
  One round of the loop over the collectors: open the stream; on an error cancel, forget
  the cancel function and return; otherwise add one to the wait group and launch the
  supervisor with the collector and the stream (the stream is known by its index).
\<close>

definition Start_open :: "error option \<Rightarrow> state \<Rightarrow> state option" where
  "Start_open err s =
     (case main s of
        MStart k \<Rightarrow>
          if k < length (collectors s) then
            let c = collectors s ! k;
                s1 = emit (EvOpenStream (id_s s) (Name c) (Format c)) s
            in (case err of
                  Some e \<Rightarrow>
                    Some (emit (EvStartReturn
                            (Some (Wrap e (stream_msg ''problem creating system metrics stream'' s c))))
                          (s1\<lparr>streaming_cancelled := True, streamingCancel := False, main := MIdle\<rparr>))
                | None \<Rightarrow>
                    Some (s1\<lparr>stream_wg := stream_wg s1 + 1,
                             sups := sups s1 @ [\<lparr>mc = c, pc = SInit, deadline = 0, ncalls = 0\<rparr>],
                             main := MStart (k + 1)\<rparr>))
          else None
      | _ \<Rightarrow> None)"

text \<open>After the loop: add one to the close wait group, launch the watcher, return nil.\<close>

definition Start_watch :: "state \<Rightarrow> state option" where
  "Start_watch s =
     (case main s of
        MStart k \<Rightarrow>
          if k < length (collectors s) then None
          else Some (emit (EvStartReturn None)
                       (s\<lparr>close_wg := close_wg s + 1, watcher := WSelect, main := MIdle\<rparr>))
      | _ \<Rightarrow> None)"

text \<open>
  \<open>Close\<close>: under the lock, give up when already closed; then cancel (calling a nil
  function value panics, and nothing here recovers it), wait for the watcher, resolve.
\<close>

definition Close_check :: "state \<Rightarrow> state option" where
  "Close_check s =
     (if main s = MIdle \<and> \<not> mu s then
        if closed s
          then Some (emit (EvCloseReturn
                       (Some (New ''system metrics collector already cancelled or closed''))) s)
          else Some (s\<lparr>main := MCloseCancel\<rparr>)
      else None)"

definition Close_cancel :: "state \<Rightarrow> state option" where
  "Close_cancel s =
     (if main s = MCloseCancel then
        if streamingCancel s
          then Some (s\<lparr>streaming_cancelled := True, main := MCloseWait\<rparr>)
          else Some (crash ''invalid memory address or nil pointer dereference'' s)
      else None)"

definition Close_wait :: "state \<Rightarrow> state option" where
  "Close_wait s =
     (if main s = MCloseWait \<and> close_wg s = 0
      then Some (emit (EvCloseReturn (Resolve (catcher s))) (s\<lparr>main := MIdle\<rparr>))
      else None)"

subsection \<open>A supervisor: \<open>timedCollect\<close>\<close>

definition Sup_init :: "nat \<Rightarrow> state \<Rightarrow> state option" where
  "Sup_init i s =
     (case at_sup i s of
        Some SInit \<Rightarrow> Some (upd_sup i (\<lambda>p. p\<lparr>pc := SSelect, deadline := now s + 0\<rparr>) s)
      | _ \<Rightarrow> None)"

text \<open>The case \<open>ctx.Done()\<close> of the \<open>select\<close>: return, with no error.\<close>

definition Sup_ctx_done :: "nat \<Rightarrow> state \<Rightarrow> state option" where
  "Sup_ctx_done i s =
     (case at_sup i s of
        Some SSelect \<Rightarrow>
          if streamingCtx_done s then Some (upd_sup i (\<lambda>p. p\<lparr>pc := SDefer None\<rparr>) s) else None
      | _ \<Rightarrow> None)"

text \<open>The case \<open>timer.C\<close>, once the timer has fired: call \<open>mc.Collect()\<close>.\<close>

definition Sup_collect :: "nat \<Rightarrow> state \<Rightarrow> state option" where
  "Sup_collect i s =
     (case at_sup i s of
        Some SSelect \<Rightarrow>
          let p = sups s ! i in
          if deadline p \<le> now s then
            let s1 = emit (EvCollect i (now s)) (upd_sup i (\<lambda>p. p\<lparr>ncalls := ncalls p + 1\<rparr>) s) in
            (case Collect (mc p) (ncalls p) of
               Data d \<Rightarrow> Some (upd_sup i (\<lambda>p. p\<lparr>pc := SWrite d\<rparr>) s1)
             | CollectErr e \<Rightarrow>
                 Some (upd_sup i (\<lambda>p. p\<lparr>pc := SDefer None\<rparr>)
                        (catch (wrap (Some e)
                           (stream_msg ''problem collecting system metrics data'' s (mc p))) s1))
             | CollectPanic v \<Rightarrow> Some (upd_sup i (\<lambda>p. p\<lparr>pc := SDefer (Some v)\<rparr>) s1))
          else None
      | _ \<Rightarrow> None)"

text \<open>\<open>stream.Write(data)\<close>, with the stream's answer; on success the timer is reset.\<close>

datatype write_result = WriteOk | WriteErr error | WritePanic string

definition Sup_write :: "nat \<Rightarrow> write_result \<Rightarrow> state \<Rightarrow> state option" where
  "Sup_write i r s =
     (case at_sup i s of
        Some (SWrite d) \<Rightarrow>
          (case r of
             WriteOk \<Rightarrow>
               Some (upd_sup i (\<lambda>p. p\<lparr>pc := SSelect, deadline := now s + interval s\<rparr>)
                      (emit (EvWrite i d) s))
           | WriteErr e \<Rightarrow>
               Some (upd_sup i (\<lambda>p. p\<lparr>pc := SDefer None\<rparr>)
                      (catch (wrap (Some e)
                         (stream_msg ''problem writing system metrics data to stream'' s
                            (mc (sups s ! i)))) s))
           | WritePanic v \<Rightarrow> Some (upd_sup i (\<lambda>p. p\<lparr>pc := SDefer (Some v)\<rparr>) s))
      | _ \<Rightarrow> None)"

text \<open>
  The deferred function, statement by statement: the recovered panic (if any) goes to
  the catcher; the stream is closed and its error goes to the catcher; the timer is
  stopped; the wait group is told.  A wait group counter below zero panics.
\<close>

definition Sup_recover :: "nat \<Rightarrow> state \<Rightarrow> state option" where
  "Sup_recover i s =
     (case at_sup i s of
        Some (SDefer r) \<Rightarrow>
          Some (upd_sup i (\<lambda>p. p\<lparr>pc := SStreamClose\<rparr>)
                 (catch (wrap (HandlePanicWithError r None
                                 (stream_msg ''panic in system metrics stream'' s (mc (sups s ! i))))
                           []) s))
      | _ \<Rightarrow> None)"

definition Sup_close :: "nat \<Rightarrow> error option \<Rightarrow> state \<Rightarrow> state option" where
  "Sup_close i err s =
     (case at_sup i s of
        Some SStreamClose \<Rightarrow>
          Some (upd_sup i (\<lambda>p. p\<lparr>pc := SStreamDone\<rparr>)
                 (catch (wrap err (stream_msg ''problem closing system metrics stream'' s
                                     (mc (sups s ! i))))
                    (emit (EvStreamClose i) s)))
      | _ \<Rightarrow> None)"

definition Sup_finish :: "nat \<Rightarrow> state \<Rightarrow> state option" where
  "Sup_finish i s =
     (case at_sup i s of
        Some SStreamDone \<Rightarrow>
          if stream_wg s - 1 < 0 then Some (crash ''sync: negative WaitGroup counter'' s)
          else Some (upd_sup i (\<lambda>p. p\<lparr>pc := SExit\<rparr>) (s\<lparr>stream_wg := stream_wg s - 1\<rparr>))
      | _ \<Rightarrow> None)"


subsection \<open>The watcher: \<open>closeOnCancel\<close> and \<open>cleanup\<close>\<close>

text \<open>
  The \<open>select\<close> takes a case whose channel is ready; when both are, either.  After the
  caller's context is cancelled both are ready.
\<close>

definition Watch_outer :: "state \<Rightarrow> state option" where
  "Watch_outer s =
     (if watcher s = WSelect \<and> outer_done s then Some (s\<lparr>watcher := WCancel\<rparr>) else None)"

definition Watch_streaming :: "state \<Rightarrow> state option" where
  "Watch_streaming s =
     (if watcher s = WSelect \<and> streamingCtx_done s then Some (s\<lparr>watcher := WWait False\<rparr>)
      else None)"

definition Watch_cancel :: "state \<Rightarrow> state option" where
  "Watch_cancel s =
     (if watcher s = WCancel then
        if streamingCancel s
          then Some (s\<lparr>streaming_cancelled := True, watcher := WWait True\<rparr>)
          else Some (crash ''invalid memory address or nil pointer dereference'' s)
      else None)"

text \<open>\<open>cleanup\<close>: \<open>s.stream.Wait()\<close> returns when the counter is zero; then the lock.\<close>

definition Watch_wait :: "state \<Rightarrow> state option" where
  "Watch_wait s =
     (case watcher s of
        WWait b \<Rightarrow> if stream_wg s = 0 then Some (s\<lparr>watcher := WLock b\<rparr>) else None
      | _ \<Rightarrow> None)"

definition Watch_lock :: "state \<Rightarrow> state option" where
  "Watch_lock s =
     (case watcher s of
        WLock b \<Rightarrow> if mu s then None else Some (s\<lparr>mu := True, watcher := WSession b\<rparr>)
      | _ \<Rightarrow> None)"

text \<open>
  With a client: close the session when the id is not empty, with the flag
  \<open>s.catcher.HasErrors()\<close> read at the call, and add the call's error; then the client.
\<close>

definition Watch_session :: "error option \<Rightarrow> state \<Rightarrow> state option" where
  "Watch_session err s =
     (case watcher s of
        WSession b \<Rightarrow>
          if client s then
            if id_s s \<noteq> [] then
              Some ((catch (wrap err (''error closing out system metrics object for id '' @ id_s s))
                      (emit (EvCloseSession (id_s s) (HasErrors (catcher s))) s))
                    \<lparr>watcher := WClient b\<rparr>)
            else Some (s\<lparr>watcher := WClient b\<rparr>)
          else Some (s\<lparr>watcher := WMark b\<rparr>)
      | _ \<Rightarrow> None)"

definition Watch_client :: "error option \<Rightarrow> state \<Rightarrow> state option" where
  "Watch_client err s =
     (case watcher s of
        WClient b \<Rightarrow>
          Some ((catch (wrap err (''error closing system metrics client for id '' @ id_s s))
                  (emit EvCloseClient s))
                \<lparr>watcher := WMark b\<rparr>)
      | _ \<Rightarrow> None)"

definition Watch_mark :: "state \<Rightarrow> state option" where
  "Watch_mark s =
     (case watcher s of
        WMark b \<Rightarrow>
          Some (s\<lparr>closed := True, mu := False, watcher := (if b then WLog else WExit False)\<rparr>)
      | _ \<Rightarrow> None)"

text \<open>Only the outer case logs: \<open>grip.Error(s.catcher.Resolve())\<close>.\<close>

definition Watch_log :: "state \<Rightarrow> state option" where
  "Watch_log s =
     (if watcher s = WLog
      then Some (emit (EvLog (Resolve (catcher s))) (s\<lparr>watcher := WExit True\<rparr>))
      else None)"

definition Watch_finish :: "state \<Rightarrow> state option" where
  "Watch_finish s =
     (case watcher s of
        WExit b \<Rightarrow>
          if close_wg s - 1 < 0 then Some (crash ''sync: negative WaitGroup counter'' s)
          else Some (s\<lparr>close_wg := close_wg s - 1, watcher := WDone b\<rparr>)
      | _ \<Rightarrow> None)"

subsection \<open>Steps and runs\<close>

text \<open>
  An action is one task taking its next step, together with what the outside answers
  where the step is a call that leaves the process; or the clock advancing (never
  backwards); or the caller's context being cancelled.  \<open>step\<close> is \<open>None\<close> where the action cannot happen
  in the state (the task is elsewhere, or blocked).
\<close>

datatype action =
    Advance int
  | CancelOuter
  | StartCreate string "error option"
  | StartOpen "error option"
  | StartWatch
  | CloseCheck
  | CloseCancel
  | CloseWait
  | SupInit nat
  | SupCtxDone nat
  | SupCollect nat
  | SupWrite nat write_result
  | SupRecover nat
  | SupClose nat "error option"
  | SupFinish nat
  | WatchOuter
  | WatchStreaming
  | WatchCancel
  | WatchWait
  | WatchLock
  | WatchSession "error option"
  | WatchClient "error option"
  | WatchMark
  | WatchLog
  | WatchFinish

fun act :: "action \<Rightarrow> state \<Rightarrow> state option" where
  "act (Advance d) s = (if d < 0 then None else Some (s\<lparr>now := now s + d\<rparr>))"
| "act CancelOuter s = Some (s\<lparr>outer_done := True\<rparr>)"
| "act (StartCreate rid err) s = Start_create rid err s"
| "act (StartOpen err) s = Start_open err s"
| "act StartWatch s = Start_watch s"
| "act CloseCheck s = Close_check s"
| "act CloseCancel s = Close_cancel s"
| "act CloseWait s = Close_wait s"
| "act (SupInit i) s = Sup_init i s"
| "act (SupCtxDone i) s = Sup_ctx_done i s"
| "act (SupCollect i) s = Sup_collect i s"
| "act (SupWrite i r) s = Sup_write i r s"
| "act (SupRecover i) s = Sup_recover i s"
| "act (SupClose i err) s = Sup_close i err s"
| "act (SupFinish i) s = Sup_finish i s"
| "act WatchOuter s = Watch_outer s"
| "act WatchStreaming s = Watch_streaming s"
| "act WatchCancel s = Watch_cancel s"
| "act WatchWait s = Watch_wait s"
| "act WatchLock s = Watch_lock s"
| "act (WatchSession err) s = Watch_session err s"
| "act (WatchClient err) s = Watch_client err s"
| "act WatchMark s = Watch_mark s"
| "act WatchLog s = Watch_log s"
| "act WatchFinish s = Watch_finish s"

definition step :: "action \<Rightarrow> state \<Rightarrow> state option" where
  "step a s = (if crashed s then None else act a s)"

fun run :: "action list \<Rightarrow> state \<Rightarrow> state option" where
  "run [] s = Some s"
| "run (a # as) s = (case step a s of None \<Rightarrow> None | Some s' \<Rightarrow> run as s')"

section \<open>Example inputs\<close>

text \<open>Concrete options, used where a result is evaluated on an input.\<close>

definition ex_task :: task where
  "ex_task = \<lparr>Project = ''evergreen'', Version = ''v1'', BuildVariant = ''ubuntu'',
              DisplayName = ''compile'', Id = ''t1'', Execution = 0, PatchRequest = False\<rparr>"

definition ex_uptime :: metricCollector where
  "ex_uptime = \<lparr>Name = ''uptime'', Format = dataFormatText, Collect = (\<lambda>n. Data [of_nat n + 1])\<rparr>"

definition ex_opts :: systemMetricsCollectorOptions where
  "ex_opts = \<lparr>Task = Some ex_task, Interval = 0, Collectors = [ex_uptime], Comm = None,
              Conn = Some (ClientConn 1), MaxBufferSize = 0, NoBufferTimedFlush = False,
              BufferTimedFlushInterval = 0\<rparr>"


section \<open>Invariants of the running collector\<close>

text \<open>
  Facts that hold in every state the collector can reach.  Each is kept small; \<open>inv\<close>
  collects them.  \<open>wrank\<close> orders the watcher's program counters along its code,
  \<open>live\<close> counts the supervisors that have not told the wait group yet.
\<close>

fun wrank :: "watcher_pc \<Rightarrow> nat" where
  "wrank WNone = 0"
| "wrank WSelect = 1"
| "wrank WCancel = 2"
| "wrank (WWait b) = 3"
| "wrank (WLock b) = 4"
| "wrank (WSession b) = 5"
| "wrank (WClient b) = 6"
| "wrank (WMark b) = 7"
| "wrank WLog = 8"
| "wrank (WExit b) = 9"
| "wrank (WDone b) = 10"

definition inv_idx :: "state \<Rightarrow> bool" where
  "inv_idx s \<longleftrightarrow>
     (\<forall>k. main s = MStart k \<longrightarrow> k = length (sups s) \<and> watcher s = WNone \<and> streamingCancel s)"

definition inv_fresh :: "state \<Rightarrow> bool" where
  "inv_fresh s \<longleftrightarrow>
     (\<not> start_called s \<longrightarrow> sups s = [] \<and> watcher s = WNone \<and> (\<forall>k. main s \<noteq> MStart k)
         \<and> \<not> streamingCancel s \<and> \<not> streaming_cancelled s)"

definition inv_launched :: "state \<Rightarrow> bool" where
  "inv_launched s \<longleftrightarrow>
     (watcher s \<noteq> WNone \<longrightarrow> length (sups s) = length (collectors s) \<and> streamingCancel s)"

definition inv_len :: "state \<Rightarrow> bool" where
  "inv_len s \<longleftrightarrow> length (sups s) \<le> length (collectors s)"

definition inv_cancel :: "state \<Rightarrow> bool" where
  "inv_cancel s \<longleftrightarrow> (streamingCancel s \<and> (\<forall>k. main s \<noteq> MStart k) \<longrightarrow> watcher s \<noteq> WNone)"

definition inv_client :: "state \<Rightarrow> bool" where
  "inv_client s \<longleftrightarrow> client s"

definition inv_mc :: "state \<Rightarrow> bool" where
  "inv_mc s \<longleftrightarrow> map mc (sups s) = take (length (sups s)) (collectors s)"

definition live :: "sup list \<Rightarrow> nat" where
  "live ps = length (filter (\<lambda>p. pc p \<noteq> SExit) ps)"

definition inv_swg :: "state \<Rightarrow> bool" where
  "inv_swg s \<longleftrightarrow> stream_wg s = int (live (sups s))"

definition inv_cwg :: "state \<Rightarrow> bool" where
  "inv_cwg s \<longleftrightarrow>
     close_wg s = (if wrank (watcher s) = 0 \<or> wrank (watcher s) = 10 then 0 else 1)"

definition inv_exit :: "state \<Rightarrow> bool" where
  "inv_exit s \<longleftrightarrow> (4 \<le> wrank (watcher s) \<longrightarrow> live (sups s) = 0)"

definition inv_mu :: "state \<Rightarrow> bool" where
  "inv_mu s \<longleftrightarrow> (mu s \<longleftrightarrow> 5 \<le> wrank (watcher s) \<and> wrank (watcher s) \<le> 7)"

definition inv_closed :: "state \<Rightarrow> bool" where
  "inv_closed s \<longleftrightarrow> (closed s \<longleftrightarrow> 8 \<le> wrank (watcher s))"

definition inv_ctx :: "state \<Rightarrow> bool" where
  "inv_ctx s \<longleftrightarrow> (3 \<le> wrank (watcher s) \<longrightarrow> streamingCtx_done s)"

definition inv_cwait :: "state \<Rightarrow> bool" where
  "inv_cwait s \<longleftrightarrow> (main s = MCloseWait \<longrightarrow> streaming_cancelled s \<and> watcher s \<noteq> WNone)"


subsection \<open>What the events say about the state\<close>

fun is_session :: "event \<Rightarrow> bool" where
  "is_session (EvCloseSession x f) = True"
| "is_session _ = False"

fun errs_of :: "event list \<Rightarrow> error list" where
  "errs_of [] = []"
| "errs_of (EvCatch e # es) = e # errs_of es"
| "errs_of (_ # es) = errs_of es"

definition inv_sess :: "state \<Rightarrow> bool" where
  "inv_sess s \<longleftrightarrow>
     length (filter is_session (events s))
       = (if 6 \<le> wrank (watcher s) \<and> id_s s \<noteq> [] then 1 else 0)"

definition inv_cli :: "state \<Rightarrow> bool" where
  "inv_cli s \<longleftrightarrow>
     length (filter (\<lambda>e. e = EvCloseClient) (events s)) = (if 7 \<le> wrank (watcher s) then 1 else 0)"

definition inv_catch :: "state \<Rightarrow> bool" where
  "inv_catch s \<longleftrightarrow> catcher s = errs_of (events s)"

fun sdone :: "sup_pc \<Rightarrow> bool" where
  "sdone SStreamDone = True"
| "sdone SExit = True"
| "sdone _ = False"

definition closed_idx :: "sup list \<Rightarrow> nat set" where
  "closed_idx ps = {i. i < length ps \<and> sdone (pc (ps ! i))}"

fun sclosed :: "event list \<Rightarrow> nat set" where
  "sclosed [] = {}"
| "sclosed (EvStreamClose i # es) = insert i (sclosed es)"
| "sclosed (_ # es) = sclosed es"

definition inv_sclose :: "state \<Rightarrow> bool" where
  "inv_sclose s \<longleftrightarrow> sclosed (events s) = closed_idx (sups s)"


subsection \<open>Returns, logs and panics\<close>

definition already_closed :: error where
  "already_closed = New ''system metrics collector already cancelled or closed''"

fun is_ret :: "event \<Rightarrow> bool" where
  "is_ret (EvCloseReturn r) = True"
| "is_ret _ = False"

fun is_log :: "event \<Rightarrow> bool" where
  "is_log (EvLog r) = True"
| "is_log _ = False"

definition has_ret :: "event list \<Rightarrow> bool" where
  "has_ret es = (\<exists>e \<in> set es. is_ret e)"

text \<open>Which case of its \<open>select\<close> the watcher took.\<close>

fun via_outer :: "watcher_pc \<Rightarrow> bool" where
  "via_outer WNone = False"
| "via_outer WSelect = False"
| "via_outer WCancel = True"
| "via_outer (WWait b) = b"
| "via_outer (WLock b) = b"
| "via_outer (WSession b) = b"
| "via_outer (WClient b) = b"
| "via_outer (WMark b) = b"
| "via_outer WLog = True"
| "via_outer (WExit b) = b"
| "via_outer (WDone b) = b"

definition inv_crash :: "state \<Rightarrow> bool" where
  "inv_crash s \<longleftrightarrow> (crashed s \<longrightarrow> main s = MCloseCancel \<and> \<not> streamingCancel s)"

definition inv_ret :: "state \<Rightarrow> bool" where
  "inv_ret s \<longleftrightarrow> (has_ret (events s) \<longrightarrow> closed s \<and> main s = MIdle)"

text \<open>
  Over the events, newest first: a \<open>Close\<close> that returns after another one has returned
  returns the already-closed error.
\<close>

fun ret_ok :: "event list \<Rightarrow> bool" where
  "ret_ok [] = True"
| "ret_ok (EvCloseReturn r # older) = (ret_ok older \<and> (has_ret older \<longrightarrow> r = Some already_closed))"
| "ret_ok (_ # older) = ret_ok older"

definition inv_retok :: "state \<Rightarrow> bool" where
  "inv_retok s \<longleftrightarrow> ret_ok (rev (events s))"

definition inv_log :: "state \<Rightarrow> bool" where
  "inv_log s \<longleftrightarrow>
     filter is_log (events s)
       = (if 9 \<le> wrank (watcher s) \<and> via_outer (watcher s) then [EvLog (Resolve (catcher s))] else [])"

definition inv_outer :: "state \<Rightarrow> bool" where
  "inv_outer s \<longleftrightarrow> (via_outer (watcher s) \<longrightarrow> outer_done s)"


subsection \<open>The order of events\<close>

fun is_stream_ev :: "event \<Rightarrow> bool" where
  "is_stream_ev (EvOpenStream x n f) = True"
| "is_stream_ev (EvCollect i t) = True"
| "is_stream_ev (EvWrite i d) = True"
| "is_stream_ev (EvStreamClose i) = True"
| "is_stream_ev _ = False"

definition no_session :: "event list \<Rightarrow> bool" where
  "no_session es = (\<forall>e \<in> set es. \<not> is_session e)"

text \<open>
  Over the events, newest first, with \<open>n\<close> collectors: when the session is closed, every
  stream \<open>0, \<dots>, n - 1\<close> has been closed before; and an event on a stream (open, collect,
  write, close) never comes after the session was closed.
\<close>

fun ord_ok :: "nat \<Rightarrow> event list \<Rightarrow> bool" where
  "ord_ok n [] = True"
| "ord_ok n (e # older) =
     (ord_ok n older \<and> (is_session e \<longrightarrow> {..<n} \<subseteq> sclosed older)
        \<and> (is_stream_ev e \<longrightarrow> no_session older))"

definition inv_ord :: "state \<Rightarrow> bool" where
  "inv_ord s \<longleftrightarrow> ord_ok (length (collectors s)) (rev (events s))"

text \<open>
  Over the events, newest first: the flag of a session close tells whether the catcher had
  taken an error before.
\<close>

fun flag_ok :: "event list \<Rightarrow> bool" where
  "flag_ok [] = True"
| "flag_ok (EvCloseSession x f # older) = (flag_ok older \<and> (f \<longleftrightarrow> (\<exists>err. EvCatch err \<in> set older)))"
| "flag_ok (_ # older) = flag_ok older"

definition inv_flag :: "state \<Rightarrow> bool" where
  "inv_flag s \<longleftrightarrow> flag_ok (rev (events s))"

fun sids :: "event list \<Rightarrow> string list" where
  "sids [] = []"
| "sids (EvCloseSession x f # es) = x # sids es"
| "sids (_ # es) = sids es"

definition inv_sid :: "state \<Rightarrow> bool" where
  "inv_sid s \<longleftrightarrow> (\<forall>x \<in> set (sids (events s)). x = id_s s)"


subsection \<open>Collections in time, payloads in order\<close>

definition inv_time :: "state \<Rightarrow> bool" where
  "inv_time s \<longleftrightarrow>
     (\<forall>i t. EvCollect i t \<in> set (events s) \<longrightarrow>
        t \<le> now s \<and> i < length (sups s) \<and> pc (sups s ! i) \<noteq> SInit
        \<and> (pc (sups s ! i) = SSelect \<longrightarrow> t + interval s \<le> deadline (sups s ! i)))"

text \<open>
  Over the events, newest first: a collection by a supervisor comes at least \<open>d\<close> after
  each of its earlier collections.
\<close>

fun spaced :: "int \<Rightarrow> event list \<Rightarrow> bool" where
  "spaced d [] = True"
| "spaced d (EvCollect i t # older) =
     (spaced d older \<and> (\<forall>t'. EvCollect i t' \<in> set older \<longrightarrow> t' + d \<le> t))"
| "spaced d (_ # older) = spaced d older"

definition inv_spaced :: "state \<Rightarrow> bool" where
  "inv_spaced s \<longleftrightarrow> spaced (interval s) (rev (events s))"

text \<open>What stream \<open>i\<close> has received, in order.\<close>

fun writes :: "nat \<Rightarrow> event list \<Rightarrow> payload list" where
  "writes i [] = []"
| "writes i (EvWrite j d # es) = (if i = j then d # writes i es else writes i es)"
| "writes i (_ # es) = writes i es"

text \<open>
  A supervisor and what its stream has received: the payloads are the results of the
  collector's calls, one after the other from the first; at the \<open>select\<close> every collected
  payload has been written, and before the write exactly the collected one is missing.
\<close>

definition wr_ok :: "sup \<Rightarrow> payload list \<Rightarrow> bool" where
  "wr_ok p w \<longleftrightarrow>
     map Data w = map (Collect (mc p)) [0..<length w]
     \<and> (pc p = SInit \<or> pc p = SSelect \<longrightarrow> ncalls p = length w)
     \<and> (\<forall>d. pc p = SWrite d \<longrightarrow> ncalls p = Suc (length w) \<and> Collect (mc p) (length w) = Data d)"

definition inv_writes :: "state \<Rightarrow> bool" where
  "inv_writes s \<longleftrightarrow>
     (\<forall>i. if i < length (sups s) then wr_ok (sups s ! i) (writes i (events s))
          else writes i (events s) = [])"



subsection \<open>All of them\<close>

definition inv :: "state \<Rightarrow> bool" where
  "inv s \<longleftrightarrow>
     inv_fresh s
     \<and> inv_idx s
     \<and> inv_client s
     \<and> inv_len s
     \<and> inv_launched s
     \<and> inv_cancel s
     \<and> inv_mu s
     \<and> inv_closed s
     \<and> inv_ctx s
     \<and> inv_cwait s
     \<and> inv_cwg s
     \<and> inv_swg s
     \<and> inv_mc s
     \<and> inv_exit s
     \<and> inv_sess s
     \<and> inv_cli s
     \<and> inv_catch s
     \<and> inv_sclose s
     \<and> inv_crash s
     \<and> inv_ret s
     \<and> inv_retok s
     \<and> inv_outer s
     \<and> inv_log s
     \<and> inv_ord s
     \<and> inv_flag s
     \<and> inv_sid s
     \<and> inv_time s
     \<and> inv_spaced s
     \<and> inv_writes s"

text \<open>A second collector, which fails from its second call on; options with both.\<close>

definition ex_disk :: metricCollector where
  "ex_disk = \<lparr>Name = ''disk'', Format = dataFormatJSON,
              Collect = (\<lambda>n. if n = 0 then Data [9] else CollectErr (New ''no disk''))\<rparr>"

definition ex_opts2 :: systemMetricsCollectorOptions where
  "ex_opts2 = ex_opts\<lparr>Collectors := [ex_uptime, ex_disk]\<rparr>"

text \<open>Options whose only collector has a format outside the five known ones.\<close>

definition ex_opts_format7 :: systemMetricsCollectorOptions where
  "ex_opts_format7 = ex_opts\<lparr>Collectors := [ex_uptime\<lparr>Format := 7\<rparr>]\<rparr>"


section \<open>Observing a run\<close>

text \<open>
  What a run of actions leaves behind, for statements about concrete runs: the events, the
  catcher, whether the process has crashed, where the watcher is.  A run that cannot
  happen leaves nothing.  The \<open>from_new\<close> variants start from the collector that the
  constructor returns for the options.
\<close>

definition events_after :: "action list \<Rightarrow> state \<Rightarrow> event list" where
  "events_after as s = (case run as s of None \<Rightarrow> [] | Some s' \<Rightarrow> events s')"

definition catcher_after :: "action list \<Rightarrow> state \<Rightarrow> catcher_t" where
  "catcher_after as s = (case run as s of None \<Rightarrow> [] | Some s' \<Rightarrow> catcher s')"

definition crashed_after :: "action list \<Rightarrow> state \<Rightarrow> bool" where
  "crashed_after as s = (case run as s of None \<Rightarrow> False | Some s' \<Rightarrow> crashed s')"

definition watcher_after :: "action list \<Rightarrow> state \<Rightarrow> watcher_pc" where
  "watcher_after as s = (case run as s of None \<Rightarrow> WNone | Some s' \<Rightarrow> watcher s')"

definition events_from_new ::
  "error option \<Rightarrow> systemMetricsCollectorOptions \<Rightarrow> action list \<Rightarrow> event list" where
  "events_from_new new_client opts as =
     (case fst (newSystemMetricsCollector new_client opts) of
        Inl e \<Rightarrow> [] | Inr s \<Rightarrow> events_after as s)"

definition crashed_from_new ::
  "error option \<Rightarrow> systemMetricsCollectorOptions \<Rightarrow> action list \<Rightarrow> bool" where
  "crashed_from_new new_client opts as =
     (case fst (newSystemMetricsCollector new_client opts) of
        Inl e \<Rightarrow> False | Inr s \<Rightarrow> crashed_after as s)"

definition catcher_from_new ::
  "error option \<Rightarrow> systemMetricsCollectorOptions \<Rightarrow> action list \<Rightarrow> catcher_t" where
  "catcher_from_new new_client opts as =
     (case fst (newSystemMetricsCollector new_client opts) of
        Inl e \<Rightarrow> [] | Inr s \<Rightarrow> catcher_after as s)"

definition watcher_from_new ::
  "error option \<Rightarrow> systemMetricsCollectorOptions \<Rightarrow> action list \<Rightarrow> watcher_pc" where
  "watcher_from_new new_client opts as =
     (case fst (newSystemMetricsCollector new_client opts) of
        Inl e \<Rightarrow> WNone | Inr s \<Rightarrow> watcher_after as s)"


subsection \<open>Who cancelled, and what a successful \<open>Start\<close> leaves\<close>

definition inv_sc :: "state \<Rightarrow> bool" where
  "inv_sc s \<longleftrightarrow>
     (streaming_cancelled s \<and> streamingCancel s \<longrightarrow>
        outer_done s \<or> main s = MCloseWait \<or> has_ret (events s))"

definition inv_started :: "state \<Rightarrow> bool" where
  "inv_started s \<longleftrightarrow> (EvStartReturn None \<in> set (events s) \<longleftrightarrow> watcher s \<noteq> WNone)"

definition quiet :: "event list \<Rightarrow> bool" where
  "quiet es = (\<forall>e \<in> set es. \<not> is_stream_ev e \<and> \<not> is_session e \<and> e \<noteq> EvCloseClient)"

definition inv_quiet :: "state \<Rightarrow> bool" where
  "inv_quiet s \<longleftrightarrow> (\<not> start_called s \<longrightarrow> quiet (events s))"

definition inv2 :: "state \<Rightarrow> bool" where
  "inv2 s \<longleftrightarrow> inv s \<and> inv_sc s \<and> inv_started s \<and> inv_quiet s"

text \<open>The collector that the constructor gives for \<open>ex_opts\<close> and for \<open>ex_opts2\<close>.\<close>

definition ex_state1 :: state where
  "ex_state1 =
     \<lparr>streamingCancel = False,
      taskOpts = getSystemMetricsInfo ex_task,
      streamOpts = \<lparr>FlushInterval = 0, NoTimedFlush = False, so_MaxBufferSize = 0\<rparr>,
      interval = Minute,
      collectors = [ex_uptime],
      client = True, catcher = [], id_s = [], closed = False, mu = False,
      stream_wg = 0, close_wg = 0, outer_done = False, streaming_cancelled = False,
      main = MIdle, start_called = False, sups = [], watcher = WNone, now = 0,
      events = [], crashed = False\<rparr>"

definition ex_state2 :: state where
  "ex_state2 = ex_state1\<lparr>collectors := [ex_uptime, ex_disk]\<rparr>"



text \<open>The actions of the caller's task.\<close>

fun caller_act :: "action \<Rightarrow> bool" where
  "caller_act (StartCreate rid err) = True"
| "caller_act (StartOpen err) = True"
| "caller_act StartWatch = True"
| "caller_act CloseCheck = True"
| "caller_act CloseCancel = True"
| "caller_act CloseWait = True"
| "caller_act _ = False"


text \<open>
  Runs of the collector with one collector.  In all of them \<open>Start\<close> succeeds and the
  supervisor collects and writes once.  \<open>ex_run_close\<close>: the caller calls \<open>Close\<close>.
  \<open>ex_run_cancel\<close>: the caller's context is cancelled, the watcher takes the case of the
  caller's context, and closing the stream fails.  \<open>ex_run_cancel_streaming\<close>: the same,
  but the watcher's \<open>select\<close> takes the case of the streaming context, which is ready too.
\<close>

definition ex_run_close :: "action list" where
  "ex_run_close =
     [StartCreate ''id1'' None, StartOpen None, StartWatch,
      SupInit 0, SupCollect 0, SupWrite 0 WriteOk,
      CloseCheck, CloseCancel,
      SupCtxDone 0, SupRecover 0, SupClose 0 None, SupFinish 0,
      WatchStreaming, WatchWait, WatchLock, WatchSession None, WatchClient None, WatchMark,
      WatchFinish, CloseWait]"

definition ex_run_cancel :: "action list" where
  "ex_run_cancel =
     [StartCreate ''id1'' None, StartOpen None, StartWatch,
      SupInit 0, SupCollect 0, SupWrite 0 WriteOk,
      CancelOuter, WatchOuter, WatchCancel,
      SupCtxDone 0, SupRecover 0, SupClose 0 (Some (New ''broken pipe'')), SupFinish 0,
      WatchWait, WatchLock, WatchSession None, WatchClient None, WatchMark, WatchLog,
      WatchFinish]"

definition ex_run_cancel_streaming :: "action list" where
  "ex_run_cancel_streaming =
     [StartCreate ''id1'' None, StartOpen None, StartWatch,
      SupInit 0, SupCollect 0, SupWrite 0 WriteOk,
      CancelOuter, WatchStreaming,
      SupCtxDone 0, SupRecover 0, SupClose 0 (Some (New ''broken pipe'')), SupFinish 0,
      WatchWait, WatchLock, WatchSession None, WatchClient None, WatchMark,
      WatchFinish]"


section \<open>Validation of the options\<close>

text \<open>
  C6.  Validation fails exactly when the task is missing, the interval is negative, there
  is no collector, both or neither of communicator and connection are given, the flush
  interval is negative or the buffer size is negative; otherwise it succeeds and leaves
  the options as they were, with a zero interval replaced by one minute.  The failure
  describes its cause: the checks are made in this order, the first one that fails
  decides the message, and each message is returned only when its own rule is broken.
  When validation fails, \<open>newSystemMetricsCollector\<close> returns the wrapped error and has
  made no call to the outside: no client was created.
\<close>

theorem validate_rejects_exactly:
  "(fst (options_validate opts) \<noteq> None \<longleftrightarrow>
      (Task opts = None \<or> Interval opts < 0 \<or> Collectors opts = []
       \<or> (Comm opts = None \<and> Conn opts = None) \<or> (Comm opts \<noteq> None \<and> Conn opts \<noteq> None)
       \<or> BufferTimedFlushInterval opts < 0 \<or> MaxBufferSize opts < 0))
   \<and> (fst (options_validate opts) = None \<longrightarrow>
        snd (options_validate opts)
          = opts\<lparr>Interval := (if Interval opts = 0 then Minute else Interval opts)\<rparr>)
   \<and> (\<forall>e. fst (options_validate opts) = Some e \<longrightarrow>
          e \<in> New ` {''must provide a valid task'', ''interval cannot be negative'',
                     ''must provide at least one metricCollector'',
                     ''must provide either a communicator or an existing client connection'',
                     ''flush interval must not be negative'',
                     ''buffer size must not be negative''}
          \<and> newSystemMetricsCollector new_client opts = (Inl (Wrap e ''invalid options''), []))
   \<and> (Task opts = None \<longrightarrow>
        fst (options_validate opts) = Some (New ''must provide a valid task''))
   \<and> (Task opts \<noteq> None \<and> Interval opts < 0 \<longrightarrow>
        fst (options_validate opts) = Some (New ''interval cannot be negative''))
   \<and> (Task opts \<noteq> None \<and> 0 \<le> Interval opts \<and> Collectors opts = [] \<longrightarrow>
        fst (options_validate opts) = Some (New ''must provide at least one metricCollector''))
   \<and> (Task opts \<noteq> None \<and> 0 \<le> Interval opts \<and> Collectors opts \<noteq> []
        \<and> ((Comm opts = None \<and> Conn opts = None) \<or> (Comm opts \<noteq> None \<and> Conn opts \<noteq> None)) \<longrightarrow>
        fst (options_validate opts)
          = Some (New ''must provide either a communicator or an existing client connection''))
   \<and> (Task opts \<noteq> None \<and> 0 \<le> Interval opts \<and> Collectors opts \<noteq> []
        \<and> (Comm opts = None \<longleftrightarrow> Conn opts \<noteq> None)
        \<and> BufferTimedFlushInterval opts < 0 \<longrightarrow>
        fst (options_validate opts) = Some (New ''flush interval must not be negative''))
   \<and> (Task opts \<noteq> None \<and> 0 \<le> Interval opts \<and> Collectors opts \<noteq> []
        \<and> (Comm opts = None \<longleftrightarrow> Conn opts \<noteq> None)
        \<and> 0 \<le> BufferTimedFlushInterval opts \<and> MaxBufferSize opts < 0 \<longrightarrow>
        fst (options_validate opts) = Some (New ''buffer size must not be negative''))
   \<and> (fst (options_validate opts) = Some (New ''must provide a valid task'') \<longrightarrow>
        Task opts = None)
   \<and> (fst (options_validate opts) = Some (New ''interval cannot be negative'') \<longrightarrow>
        Interval opts < 0)
   \<and> (fst (options_validate opts) = Some (New ''must provide at least one metricCollector'') \<longrightarrow>
        Collectors opts = [])
   \<and> (fst (options_validate opts)
          = Some (New ''must provide either a communicator or an existing client connection'') \<longrightarrow>
        (Comm opts = None \<and> Conn opts = None) \<or> (Comm opts \<noteq> None \<and> Conn opts \<noteq> None))
   \<and> (fst (options_validate opts) = Some (New ''flush interval must not be negative'') \<longrightarrow>
        BufferTimedFlushInterval opts < 0)
   \<and> (fst (options_validate opts) = Some (New ''buffer size must not be negative'') \<longrightarrow>
        MaxBufferSize opts < 0)"
proof -
  have iff: "fst (options_validate opts) \<noteq> None \<longleftrightarrow>
      (Task opts = None \<or> Interval opts < 0 \<or> Collectors opts = []
       \<or> (Comm opts = None \<and> Conn opts = None) \<or> (Comm opts \<noteq> None \<and> Conn opts \<noteq> None)
       \<or> BufferTimedFlushInterval opts < 0 \<or> MaxBufferSize opts < 0)"
    by (auto simp: options_validate_def Let_def)
  have norm: "fst (options_validate opts) = None \<longrightarrow>
        snd (options_validate opts)
          = opts\<lparr>Interval := (if Interval opts = 0 then Minute else Interval opts)\<rparr>"
    by (simp add: options_validate_def Let_def)
  have msg: "\<forall>e. fst (options_validate opts) = Some e \<longrightarrow>
          e \<in> New ` {''must provide a valid task'', ''interval cannot be negative'',
                     ''must provide at least one metricCollector'',
                     ''must provide either a communicator or an existing client connection'',
                     ''flush interval must not be negative'',
                     ''buffer size must not be negative''}"
    by (simp add: options_validate_def Let_def)
  have rej: "\<forall>e. fst (options_validate opts) = Some e \<longrightarrow>
          newSystemMetricsCollector new_client opts = (Inl (Wrap e ''invalid options''), [])"
    by (cases "options_validate opts") (auto simp: newSystemMetricsCollector_def)
  have c1: "Task opts = None \<longrightarrow>
        fst (options_validate opts) = Some (New ''must provide a valid task'')"
    by (simp add: options_validate_def)
  have c2: "Task opts \<noteq> None \<and> Interval opts < 0 \<longrightarrow>
        fst (options_validate opts) = Some (New ''interval cannot be negative'')"
    by (simp add: options_validate_def)
  have c3: "Task opts \<noteq> None \<and> 0 \<le> Interval opts \<and> Collectors opts = [] \<longrightarrow>
        fst (options_validate opts) = Some (New ''must provide at least one metricCollector'')"
    by (auto simp: options_validate_def Let_def)
  have c4: "Task opts \<noteq> None \<and> 0 \<le> Interval opts \<and> Collectors opts \<noteq> []
        \<and> ((Comm opts = None \<and> Conn opts = None) \<or> (Comm opts \<noteq> None \<and> Conn opts \<noteq> None)) \<longrightarrow>
        fst (options_validate opts)
          = Some (New ''must provide either a communicator or an existing client connection'')"
    by (auto simp: options_validate_def Let_def)
  have c5: "Task opts \<noteq> None \<and> 0 \<le> Interval opts \<and> Collectors opts \<noteq> []
        \<and> (Comm opts = None \<longleftrightarrow> Conn opts \<noteq> None)
        \<and> BufferTimedFlushInterval opts < 0 \<longrightarrow>
        fst (options_validate opts) = Some (New ''flush interval must not be negative'')"
    by (auto simp: options_validate_def Let_def)
  have c6: "Task opts \<noteq> None \<and> 0 \<le> Interval opts \<and> Collectors opts \<noteq> []
        \<and> (Comm opts = None \<longleftrightarrow> Conn opts \<noteq> None)
        \<and> 0 \<le> BufferTimedFlushInterval opts \<and> MaxBufferSize opts < 0 \<longrightarrow>
        fst (options_validate opts) = Some (New ''buffer size must not be negative'')"
    by (auto simp: options_validate_def Let_def)
  have d1: "fst (options_validate opts) = Some (New ''must provide a valid task'') \<longrightarrow>
        Task opts = None"
    by (auto simp: options_validate_def Let_def split: if_splits)
  have d2: "fst (options_validate opts) = Some (New ''interval cannot be negative'') \<longrightarrow>
        Interval opts < 0"
    by (auto simp: options_validate_def Let_def split: if_splits)
  have d3: "fst (options_validate opts) = Some (New ''must provide at least one metricCollector'') \<longrightarrow>
        Collectors opts = []"
    by (auto simp: options_validate_def Let_def split: if_splits)
  have d4: "fst (options_validate opts)
          = Some (New ''must provide either a communicator or an existing client connection'') \<longrightarrow>
        (Comm opts = None \<and> Conn opts = None) \<or> (Comm opts \<noteq> None \<and> Conn opts \<noteq> None)"
    by (auto simp: options_validate_def Let_def split: if_splits)
  have d5: "fst (options_validate opts) = Some (New ''flush interval must not be negative'') \<longrightarrow>
        BufferTimedFlushInterval opts < 0"
    by (auto simp: options_validate_def Let_def split: if_splits)
  have d6: "fst (options_validate opts) = Some (New ''buffer size must not be negative'') \<longrightarrow>
        MaxBufferSize opts < 0"
    by (auto simp: options_validate_def Let_def split: if_splits)
  have mr: "\<forall>e. fst (options_validate opts) = Some e \<longrightarrow>
          e \<in> New ` {''must provide a valid task'', ''interval cannot be negative'',
                     ''must provide at least one metricCollector'',
                     ''must provide either a communicator or an existing client connection'',
                     ''flush interval must not be negative'',
                     ''buffer size must not be negative''}
          \<and> newSystemMetricsCollector new_client opts = (Inl (Wrap e ''invalid options''), [])"
    using msg rej by blast
  show ?thesis
    by (rule conjI[OF iff conjI[OF norm conjI[OF mr conjI[OF c1 conjI[OF c2 conjI[OF c3
          conjI[OF c4 conjI[OF c5 conjI[OF c6 conjI[OF d1 conjI[OF d2 conjI[OF d3
          conjI[OF d4 conjI[OF d5 d6]]]]]]]]]]]]]])
qed

theorem validate_rejects_exactly_witness:
  "fst (options_validate (ex_opts\<lparr>Task := None\<rparr>)) = Some (New ''must provide a valid task'')
   \<and> fst (options_validate (ex_opts\<lparr>Interval := - 5\<rparr>)) = Some (New ''interval cannot be negative'')
   \<and> fst (options_validate (ex_opts\<lparr>Collectors := []\<rparr>))
       = Some (New ''must provide at least one metricCollector'')
   \<and> fst (options_validate (ex_opts\<lparr>Conn := None\<rparr>))
       = Some (New ''must provide either a communicator or an existing client connection'')
   \<and> fst (options_validate (ex_opts\<lparr>BufferTimedFlushInterval := - 1\<rparr>))
       = Some (New ''flush interval must not be negative'')
   \<and> fst (options_validate (ex_opts\<lparr>MaxBufferSize := - 1\<rparr>))
       = Some (New ''buffer size must not be negative'')
   \<and> newSystemMetricsCollector None (ex_opts\<lparr>MaxBufferSize := - 1\<rparr>)
       = (Inl (Wrap (New ''buffer size must not be negative'') ''invalid options''), [])
   \<and> newSystemMetricsCollector None (ex_opts\<lparr>Task := None\<rparr>)
       = (Inl (Wrap (New ''must provide a valid task'') ''invalid options''), [])
   \<and> fst (options_validate ex_opts) = None
   \<and> Interval (snd (options_validate ex_opts)) = 60000000000"
  using validate_rejects_exactly [of "ex_opts\<lparr>Task := None\<rparr>" None]
        validate_rejects_exactly [of "ex_opts\<lparr>MaxBufferSize := - 1\<rparr>" None]
        validate_rejects_exactly [of ex_opts None]
  by (simp add: ex_opts_def Minute_def options_validate_def newSystemMetricsCollector_def Let_def)


section \<open>The invariants hold\<close>

lemmas aux_defs = emit_def catch_def crash_def upd_sup_def at_sup_def

lemma live_append: "live (ps @ [p]) = live ps + (if pc p = SExit then 0 else 1)"
  by (simp add: live_def)

lemma live_update_same:
  "i < length ps \<Longrightarrow> (pc (ps ! i) = SExit \<longleftrightarrow> pc q = SExit) \<Longrightarrow> live (ps[i := q]) = live ps"
  unfolding live_def
proof (induction ps arbitrary: i)
  case Nil
  then show ?case by simp
next
  case (Cons p ps)
  then show ?case by (cases i) auto
qed

lemma live_update_exit:
  "i < length ps \<Longrightarrow> pc (ps ! i) \<noteq> SExit \<Longrightarrow> pc q = SExit \<Longrightarrow> live ps = Suc (live (ps[i := q]))"
  unfolding live_def
proof (induction ps arbitrary: i)
  case Nil
  then show ?case by simp
next
  case (Cons p ps)
  then show ?case by (cases i) auto
qed

lemma live_zero: "live ps = 0 \<longleftrightarrow> (\<forall>p \<in> set ps. pc p = SExit)"
  by (auto simp: live_def filter_empty_conv)


lemma live_exit_nth: "live ps = 0 \<Longrightarrow> i < length ps \<Longrightarrow> pc (ps ! i) = SExit"
  by (simp add: live_zero)

lemma map_mc_update: "mc q = mc (ps ! i) \<Longrightarrow> map mc (ps[i := q]) = map mc ps"
proof (induction ps arbitrary: i)
  case Nil
  then show ?case by simp
next
  case (Cons p ps)
  then show ?case by (cases i) auto
qed


lemma inv_fresh_step:
  assumes "inv_fresh s" "step a s = Some s'"
  shows "inv_fresh s'"
proof (cases a)
  case (Advance d)
  then show ?thesis using assms
    by (auto simp: step_def aux_defs inv_fresh_def Let_def split: if_splits main_pc.splits option.splits sup_pc.splits collect_result.splits write_result.splits watcher_pc.splits)
next
  case CancelOuter
  then show ?thesis using assms
    by (auto simp: step_def aux_defs inv_fresh_def Let_def split: if_splits main_pc.splits option.splits sup_pc.splits collect_result.splits write_result.splits watcher_pc.splits)
next
  case (StartCreate rid err)
  then show ?thesis using assms
    by (auto simp: step_def Start_create_def aux_defs inv_fresh_def Let_def split: if_splits main_pc.splits option.splits sup_pc.splits collect_result.splits write_result.splits watcher_pc.splits)
next
  case (StartOpen err)
  then show ?thesis using assms
    by (auto simp: step_def Start_open_def aux_defs inv_fresh_def Let_def split: if_splits main_pc.splits option.splits sup_pc.splits collect_result.splits write_result.splits watcher_pc.splits)
next
  case StartWatch
  then show ?thesis using assms
    by (auto simp: step_def Start_watch_def aux_defs inv_fresh_def Let_def split: if_splits main_pc.splits option.splits sup_pc.splits collect_result.splits write_result.splits watcher_pc.splits)
next
  case CloseCheck
  then show ?thesis using assms
    by (auto simp: step_def Close_check_def aux_defs inv_fresh_def Let_def split: if_splits main_pc.splits option.splits sup_pc.splits collect_result.splits write_result.splits watcher_pc.splits)
next
  case CloseCancel
  then show ?thesis using assms
    by (auto simp: step_def Close_cancel_def aux_defs inv_fresh_def Let_def split: if_splits main_pc.splits option.splits sup_pc.splits collect_result.splits write_result.splits watcher_pc.splits)
next
  case CloseWait
  then show ?thesis using assms
    by (auto simp: step_def Close_wait_def aux_defs inv_fresh_def Let_def split: if_splits main_pc.splits option.splits sup_pc.splits collect_result.splits write_result.splits watcher_pc.splits)
next
  case (SupInit i)
  then show ?thesis using assms
    by (auto simp: step_def Sup_init_def aux_defs inv_fresh_def Let_def split: if_splits main_pc.splits option.splits sup_pc.splits collect_result.splits write_result.splits watcher_pc.splits)
next
  case (SupCtxDone i)
  then show ?thesis using assms
    by (auto simp: step_def Sup_ctx_done_def aux_defs inv_fresh_def Let_def split: if_splits main_pc.splits option.splits sup_pc.splits collect_result.splits write_result.splits watcher_pc.splits)
next
  case (SupCollect i)
  then show ?thesis using assms
    by (auto simp: step_def Sup_collect_def aux_defs inv_fresh_def Let_def split: if_splits main_pc.splits option.splits sup_pc.splits collect_result.splits write_result.splits watcher_pc.splits)
next
  case (SupWrite i r)
  then show ?thesis using assms
    by (auto simp: step_def Sup_write_def aux_defs inv_fresh_def Let_def split: if_splits main_pc.splits option.splits sup_pc.splits collect_result.splits write_result.splits watcher_pc.splits)
next
  case (SupRecover i)
  then show ?thesis using assms
    by (auto simp: step_def Sup_recover_def aux_defs inv_fresh_def Let_def split: if_splits main_pc.splits option.splits sup_pc.splits collect_result.splits write_result.splits watcher_pc.splits)
next
  case (SupClose i err)
  then show ?thesis using assms
    by (auto simp: step_def Sup_close_def aux_defs inv_fresh_def Let_def split: if_splits main_pc.splits option.splits sup_pc.splits collect_result.splits write_result.splits watcher_pc.splits)
next
  case (SupFinish i)
  then show ?thesis using assms
    by (auto simp: step_def Sup_finish_def aux_defs inv_fresh_def Let_def split: if_splits main_pc.splits option.splits sup_pc.splits collect_result.splits write_result.splits watcher_pc.splits)
next
  case WatchOuter
  then show ?thesis using assms
    by (auto simp: step_def Watch_outer_def aux_defs inv_fresh_def Let_def split: if_splits main_pc.splits option.splits sup_pc.splits collect_result.splits write_result.splits watcher_pc.splits)
next
  case WatchStreaming
  then show ?thesis using assms
    by (auto simp: step_def Watch_streaming_def aux_defs inv_fresh_def Let_def split: if_splits main_pc.splits option.splits sup_pc.splits collect_result.splits write_result.splits watcher_pc.splits)
next
  case WatchCancel
  then show ?thesis using assms
    by (auto simp: step_def Watch_cancel_def aux_defs inv_fresh_def Let_def split: if_splits main_pc.splits option.splits sup_pc.splits collect_result.splits write_result.splits watcher_pc.splits)
next
  case WatchWait
  then show ?thesis using assms
    by (auto simp: step_def Watch_wait_def aux_defs inv_fresh_def Let_def split: if_splits main_pc.splits option.splits sup_pc.splits collect_result.splits write_result.splits watcher_pc.splits)
next
  case WatchLock
  then show ?thesis using assms
    by (auto simp: step_def Watch_lock_def aux_defs inv_fresh_def Let_def split: if_splits main_pc.splits option.splits sup_pc.splits collect_result.splits write_result.splits watcher_pc.splits)
next
  case (WatchSession err)
  then show ?thesis using assms
    by (auto simp: step_def Watch_session_def aux_defs inv_fresh_def Let_def split: if_splits main_pc.splits option.splits sup_pc.splits collect_result.splits write_result.splits watcher_pc.splits)
next
  case (WatchClient err)
  then show ?thesis using assms
    by (auto simp: step_def Watch_client_def aux_defs inv_fresh_def Let_def split: if_splits main_pc.splits option.splits sup_pc.splits collect_result.splits write_result.splits watcher_pc.splits)
next
  case WatchMark
  then show ?thesis using assms
    by (auto simp: step_def Watch_mark_def aux_defs inv_fresh_def Let_def split: if_splits main_pc.splits option.splits sup_pc.splits collect_result.splits write_result.splits watcher_pc.splits)
next
  case WatchLog
  then show ?thesis using assms
    by (auto simp: step_def Watch_log_def aux_defs inv_fresh_def Let_def split: if_splits main_pc.splits option.splits sup_pc.splits collect_result.splits write_result.splits watcher_pc.splits)
next
  case WatchFinish
  then show ?thesis using assms
    by (auto simp: step_def Watch_finish_def aux_defs inv_fresh_def Let_def split: if_splits main_pc.splits option.splits sup_pc.splits collect_result.splits write_result.splits watcher_pc.splits)
qed

lemma inv_idx_step:
  assumes "inv_idx s" "inv_fresh s" "step a s = Some s'"
  shows "inv_idx s'"
proof (cases a)
  case (Advance d)
  then show ?thesis using assms(1,3)
    by (auto simp: step_def aux_defs inv_idx_def Let_def split: if_splits main_pc.splits option.splits sup_pc.splits collect_result.splits write_result.splits watcher_pc.splits)
next
  case CancelOuter
  then show ?thesis using assms(1,3)
    by (auto simp: step_def aux_defs inv_idx_def Let_def split: if_splits main_pc.splits option.splits sup_pc.splits collect_result.splits write_result.splits watcher_pc.splits)
next
  case (StartCreate rid err)
  then show ?thesis using assms
    by (auto simp: step_def Start_create_def aux_defs inv_idx_def inv_fresh_def Let_def split: if_splits main_pc.splits option.splits sup_pc.splits collect_result.splits write_result.splits watcher_pc.splits)
next
  case (StartOpen err)
  then show ?thesis using assms(1,3)
    by (auto simp: step_def Start_open_def aux_defs inv_idx_def Let_def split: if_splits main_pc.splits option.splits sup_pc.splits collect_result.splits write_result.splits watcher_pc.splits)
next
  case StartWatch
  then show ?thesis using assms(1,3)
    by (auto simp: step_def Start_watch_def aux_defs inv_idx_def Let_def split: if_splits main_pc.splits option.splits sup_pc.splits collect_result.splits write_result.splits watcher_pc.splits)
next
  case CloseCheck
  then show ?thesis using assms(1,3)
    by (auto simp: step_def Close_check_def aux_defs inv_idx_def Let_def split: if_splits main_pc.splits option.splits sup_pc.splits collect_result.splits write_result.splits watcher_pc.splits)
next
  case CloseCancel
  then show ?thesis using assms(1,3)
    by (auto simp: step_def Close_cancel_def aux_defs inv_idx_def Let_def split: if_splits main_pc.splits option.splits sup_pc.splits collect_result.splits write_result.splits watcher_pc.splits)
next
  case CloseWait
  then show ?thesis using assms(1,3)
    by (auto simp: step_def Close_wait_def aux_defs inv_idx_def Let_def split: if_splits main_pc.splits option.splits sup_pc.splits collect_result.splits write_result.splits watcher_pc.splits)
next
  case (SupInit i)
  then show ?thesis using assms(1,3)
    by (auto simp: step_def Sup_init_def aux_defs inv_idx_def Let_def split: if_splits main_pc.splits option.splits sup_pc.splits collect_result.splits write_result.splits watcher_pc.splits)
next
  case (SupCtxDone i)
  then show ?thesis using assms(1,3)
    by (auto simp: step_def Sup_ctx_done_def aux_defs inv_idx_def Let_def split: if_splits main_pc.splits option.splits sup_pc.splits collect_result.splits write_result.splits watcher_pc.splits)
next
  case (SupCollect i)
  then show ?thesis using assms(1,3)
    by (auto simp: step_def Sup_collect_def aux_defs inv_idx_def Let_def split: if_splits main_pc.splits option.splits sup_pc.splits collect_result.splits write_result.splits watcher_pc.splits)
next
  case (SupWrite i r)
  then show ?thesis using assms(1,3)
    by (auto simp: step_def Sup_write_def aux_defs inv_idx_def Let_def split: if_splits main_pc.splits option.splits sup_pc.splits collect_result.splits write_result.splits watcher_pc.splits)
next
  case (SupRecover i)
  then show ?thesis using assms(1,3)
    by (auto simp: step_def Sup_recover_def aux_defs inv_idx_def Let_def split: if_splits main_pc.splits option.splits sup_pc.splits collect_result.splits write_result.splits watcher_pc.splits)
next
  case (SupClose i err)
  then show ?thesis using assms(1,3)
    by (auto simp: step_def Sup_close_def aux_defs inv_idx_def Let_def split: if_splits main_pc.splits option.splits sup_pc.splits collect_result.splits write_result.splits watcher_pc.splits)
next
  case (SupFinish i)
  then show ?thesis using assms(1,3)
    by (auto simp: step_def Sup_finish_def aux_defs inv_idx_def Let_def split: if_splits main_pc.splits option.splits sup_pc.splits collect_result.splits write_result.splits watcher_pc.splits)
next
  case WatchOuter
  then show ?thesis using assms(1,3)
    by (auto simp: step_def Watch_outer_def aux_defs inv_idx_def Let_def split: if_splits main_pc.splits option.splits sup_pc.splits collect_result.splits write_result.splits watcher_pc.splits)
next
  case WatchStreaming
  then show ?thesis using assms(1,3)
    by (auto simp: step_def Watch_streaming_def aux_defs inv_idx_def Let_def split: if_splits main_pc.splits option.splits sup_pc.splits collect_result.splits write_result.splits watcher_pc.splits)
next
  case WatchCancel
  then show ?thesis using assms(1,3)
    by (auto simp: step_def Watch_cancel_def aux_defs inv_idx_def Let_def split: if_splits main_pc.splits option.splits sup_pc.splits collect_result.splits write_result.splits watcher_pc.splits)
next
  case WatchWait
  then show ?thesis using assms(1,3)
    by (auto simp: step_def Watch_wait_def aux_defs inv_idx_def Let_def split: if_splits main_pc.splits option.splits sup_pc.splits collect_result.splits write_result.splits watcher_pc.splits)
next
  case WatchLock
  then show ?thesis using assms(1,3)
    by (auto simp: step_def Watch_lock_def aux_defs inv_idx_def Let_def split: if_splits main_pc.splits option.splits sup_pc.splits collect_result.splits write_result.splits watcher_pc.splits)
next
  case (WatchSession err)
  then show ?thesis using assms(1,3)
    by (auto simp: step_def Watch_session_def aux_defs inv_idx_def Let_def split: if_splits main_pc.splits option.splits sup_pc.splits collect_result.splits write_result.splits watcher_pc.splits)
next
  case (WatchClient err)
  then show ?thesis using assms(1,3)
    by (auto simp: step_def Watch_client_def aux_defs inv_idx_def Let_def split: if_splits main_pc.splits option.splits sup_pc.splits collect_result.splits write_result.splits watcher_pc.splits)
next
  case WatchMark
  then show ?thesis using assms(1,3)
    by (auto simp: step_def Watch_mark_def aux_defs inv_idx_def Let_def split: if_splits main_pc.splits option.splits sup_pc.splits collect_result.splits write_result.splits watcher_pc.splits)
next
  case WatchLog
  then show ?thesis using assms(1,3)
    by (auto simp: step_def Watch_log_def aux_defs inv_idx_def Let_def split: if_splits main_pc.splits option.splits sup_pc.splits collect_result.splits write_result.splits watcher_pc.splits)
next
  case WatchFinish
  then show ?thesis using assms(1,3)
    by (auto simp: step_def Watch_finish_def aux_defs inv_idx_def Let_def split: if_splits main_pc.splits option.splits sup_pc.splits collect_result.splits write_result.splits watcher_pc.splits)
qed

lemma inv_client_step:
  assumes "inv_client s" "step a s = Some s'"
  shows "inv_client s'"
proof (cases a)
  case (Advance d)
  then show ?thesis using assms
    by (auto simp: step_def aux_defs inv_client_def Let_def split: if_splits main_pc.splits option.splits sup_pc.splits collect_result.splits write_result.splits watcher_pc.splits)
next
  case CancelOuter
  then show ?thesis using assms
    by (auto simp: step_def aux_defs inv_client_def Let_def split: if_splits main_pc.splits option.splits sup_pc.splits collect_result.splits write_result.splits watcher_pc.splits)
next
  case (StartCreate rid err)
  then show ?thesis using assms
    by (auto simp: step_def Start_create_def aux_defs inv_client_def Let_def split: if_splits main_pc.splits option.splits sup_pc.splits collect_result.splits write_result.splits watcher_pc.splits)
next
  case (StartOpen err)
  then show ?thesis using assms
    by (auto simp: step_def Start_open_def aux_defs inv_client_def Let_def split: if_splits main_pc.splits option.splits sup_pc.splits collect_result.splits write_result.splits watcher_pc.splits)
next
  case StartWatch
  then show ?thesis using assms
    by (auto simp: step_def Start_watch_def aux_defs inv_client_def Let_def split: if_splits main_pc.splits option.splits sup_pc.splits collect_result.splits write_result.splits watcher_pc.splits)
next
  case CloseCheck
  then show ?thesis using assms
    by (auto simp: step_def Close_check_def aux_defs inv_client_def Let_def split: if_splits main_pc.splits option.splits sup_pc.splits collect_result.splits write_result.splits watcher_pc.splits)
next
  case CloseCancel
  then show ?thesis using assms
    by (auto simp: step_def Close_cancel_def aux_defs inv_client_def Let_def split: if_splits main_pc.splits option.splits sup_pc.splits collect_result.splits write_result.splits watcher_pc.splits)
next
  case CloseWait
  then show ?thesis using assms
    by (auto simp: step_def Close_wait_def aux_defs inv_client_def Let_def split: if_splits main_pc.splits option.splits sup_pc.splits collect_result.splits write_result.splits watcher_pc.splits)
next
  case (SupInit i)
  then show ?thesis using assms
    by (auto simp: step_def Sup_init_def aux_defs inv_client_def Let_def split: if_splits main_pc.splits option.splits sup_pc.splits collect_result.splits write_result.splits watcher_pc.splits)
next
  case (SupCtxDone i)
  then show ?thesis using assms
    by (auto simp: step_def Sup_ctx_done_def aux_defs inv_client_def Let_def split: if_splits main_pc.splits option.splits sup_pc.splits collect_result.splits write_result.splits watcher_pc.splits)
next
  case (SupCollect i)
  then show ?thesis using assms
    by (auto simp: step_def Sup_collect_def aux_defs inv_client_def Let_def split: if_splits main_pc.splits option.splits sup_pc.splits collect_result.splits write_result.splits watcher_pc.splits)
next
  case (SupWrite i r)
  then show ?thesis using assms
    by (auto simp: step_def Sup_write_def aux_defs inv_client_def Let_def split: if_splits main_pc.splits option.splits sup_pc.splits collect_result.splits write_result.splits watcher_pc.splits)
next
  case (SupRecover i)
  then show ?thesis using assms
    by (auto simp: step_def Sup_recover_def aux_defs inv_client_def Let_def split: if_splits main_pc.splits option.splits sup_pc.splits collect_result.splits write_result.splits watcher_pc.splits)
next
  case (SupClose i err)
  then show ?thesis using assms
    by (auto simp: step_def Sup_close_def aux_defs inv_client_def Let_def split: if_splits main_pc.splits option.splits sup_pc.splits collect_result.splits write_result.splits watcher_pc.splits)
next
  case (SupFinish i)
  then show ?thesis using assms
    by (auto simp: step_def Sup_finish_def aux_defs inv_client_def Let_def split: if_splits main_pc.splits option.splits sup_pc.splits collect_result.splits write_result.splits watcher_pc.splits)
next
  case WatchOuter
  then show ?thesis using assms
    by (auto simp: step_def Watch_outer_def aux_defs inv_client_def Let_def split: if_splits main_pc.splits option.splits sup_pc.splits collect_result.splits write_result.splits watcher_pc.splits)
next
  case WatchStreaming
  then show ?thesis using assms
    by (auto simp: step_def Watch_streaming_def aux_defs inv_client_def Let_def split: if_splits main_pc.splits option.splits sup_pc.splits collect_result.splits write_result.splits watcher_pc.splits)
next
  case WatchCancel
  then show ?thesis using assms
    by (auto simp: step_def Watch_cancel_def aux_defs inv_client_def Let_def split: if_splits main_pc.splits option.splits sup_pc.splits collect_result.splits write_result.splits watcher_pc.splits)
next
  case WatchWait
  then show ?thesis using assms
    by (auto simp: step_def Watch_wait_def aux_defs inv_client_def Let_def split: if_splits main_pc.splits option.splits sup_pc.splits collect_result.splits write_result.splits watcher_pc.splits)
next
  case WatchLock
  then show ?thesis using assms
    by (auto simp: step_def Watch_lock_def aux_defs inv_client_def Let_def split: if_splits main_pc.splits option.splits sup_pc.splits collect_result.splits write_result.splits watcher_pc.splits)
next
  case (WatchSession err)
  then show ?thesis using assms
    by (auto simp: step_def Watch_session_def aux_defs inv_client_def Let_def split: if_splits main_pc.splits option.splits sup_pc.splits collect_result.splits write_result.splits watcher_pc.splits)
next
  case (WatchClient err)
  then show ?thesis using assms
    by (auto simp: step_def Watch_client_def aux_defs inv_client_def Let_def split: if_splits main_pc.splits option.splits sup_pc.splits collect_result.splits write_result.splits watcher_pc.splits)
next
  case WatchMark
  then show ?thesis using assms
    by (auto simp: step_def Watch_mark_def aux_defs inv_client_def Let_def split: if_splits main_pc.splits option.splits sup_pc.splits collect_result.splits write_result.splits watcher_pc.splits)
next
  case WatchLog
  then show ?thesis using assms
    by (auto simp: step_def Watch_log_def aux_defs inv_client_def Let_def split: if_splits main_pc.splits option.splits sup_pc.splits collect_result.splits write_result.splits watcher_pc.splits)
next
  case WatchFinish
  then show ?thesis using assms
    by (auto simp: step_def Watch_finish_def aux_defs inv_client_def Let_def split: if_splits main_pc.splits option.splits sup_pc.splits collect_result.splits write_result.splits watcher_pc.splits)
qed

lemma inv_len_step:
  assumes "inv_len s" "inv_idx s" "step a s = Some s'"
  shows "inv_len s'"
proof (cases a)
  case (Advance d)
  then show ?thesis using assms(1,3)
    by (auto simp: step_def aux_defs inv_len_def Let_def split: if_splits main_pc.splits option.splits sup_pc.splits collect_result.splits write_result.splits watcher_pc.splits)
next
  case CancelOuter
  then show ?thesis using assms(1,3)
    by (auto simp: step_def aux_defs inv_len_def Let_def split: if_splits main_pc.splits option.splits sup_pc.splits collect_result.splits write_result.splits watcher_pc.splits)
next
  case (StartCreate rid err)
  then show ?thesis using assms(1,3)
    by (auto simp: step_def Start_create_def aux_defs inv_len_def Let_def split: if_splits main_pc.splits option.splits sup_pc.splits collect_result.splits write_result.splits watcher_pc.splits)
next
  case (StartOpen err)
  then show ?thesis using assms
    by (auto simp: step_def Start_open_def aux_defs inv_len_def inv_idx_def Let_def split: if_splits main_pc.splits option.splits sup_pc.splits collect_result.splits write_result.splits watcher_pc.splits)
next
  case StartWatch
  then show ?thesis using assms(1,3)
    by (auto simp: step_def Start_watch_def aux_defs inv_len_def Let_def split: if_splits main_pc.splits option.splits sup_pc.splits collect_result.splits write_result.splits watcher_pc.splits)
next
  case CloseCheck
  then show ?thesis using assms(1,3)
    by (auto simp: step_def Close_check_def aux_defs inv_len_def Let_def split: if_splits main_pc.splits option.splits sup_pc.splits collect_result.splits write_result.splits watcher_pc.splits)
next
  case CloseCancel
  then show ?thesis using assms(1,3)
    by (auto simp: step_def Close_cancel_def aux_defs inv_len_def Let_def split: if_splits main_pc.splits option.splits sup_pc.splits collect_result.splits write_result.splits watcher_pc.splits)
next
  case CloseWait
  then show ?thesis using assms(1,3)
    by (auto simp: step_def Close_wait_def aux_defs inv_len_def Let_def split: if_splits main_pc.splits option.splits sup_pc.splits collect_result.splits write_result.splits watcher_pc.splits)
next
  case (SupInit i)
  then show ?thesis using assms(1,3)
    by (auto simp: step_def Sup_init_def aux_defs inv_len_def Let_def split: if_splits main_pc.splits option.splits sup_pc.splits collect_result.splits write_result.splits watcher_pc.splits)
next
  case (SupCtxDone i)
  then show ?thesis using assms(1,3)
    by (auto simp: step_def Sup_ctx_done_def aux_defs inv_len_def Let_def split: if_splits main_pc.splits option.splits sup_pc.splits collect_result.splits write_result.splits watcher_pc.splits)
next
  case (SupCollect i)
  then show ?thesis using assms(1,3)
    by (auto simp: step_def Sup_collect_def aux_defs inv_len_def Let_def split: if_splits main_pc.splits option.splits sup_pc.splits collect_result.splits write_result.splits watcher_pc.splits)
next
  case (SupWrite i r)
  then show ?thesis using assms(1,3)
    by (auto simp: step_def Sup_write_def aux_defs inv_len_def Let_def split: if_splits main_pc.splits option.splits sup_pc.splits collect_result.splits write_result.splits watcher_pc.splits)
next
  case (SupRecover i)
  then show ?thesis using assms(1,3)
    by (auto simp: step_def Sup_recover_def aux_defs inv_len_def Let_def split: if_splits main_pc.splits option.splits sup_pc.splits collect_result.splits write_result.splits watcher_pc.splits)
next
  case (SupClose i err)
  then show ?thesis using assms(1,3)
    by (auto simp: step_def Sup_close_def aux_defs inv_len_def Let_def split: if_splits main_pc.splits option.splits sup_pc.splits collect_result.splits write_result.splits watcher_pc.splits)
next
  case (SupFinish i)
  then show ?thesis using assms(1,3)
    by (auto simp: step_def Sup_finish_def aux_defs inv_len_def Let_def split: if_splits main_pc.splits option.splits sup_pc.splits collect_result.splits write_result.splits watcher_pc.splits)
next
  case WatchOuter
  then show ?thesis using assms(1,3)
    by (auto simp: step_def Watch_outer_def aux_defs inv_len_def Let_def split: if_splits main_pc.splits option.splits sup_pc.splits collect_result.splits write_result.splits watcher_pc.splits)
next
  case WatchStreaming
  then show ?thesis using assms(1,3)
    by (auto simp: step_def Watch_streaming_def aux_defs inv_len_def Let_def split: if_splits main_pc.splits option.splits sup_pc.splits collect_result.splits write_result.splits watcher_pc.splits)
next
  case WatchCancel
  then show ?thesis using assms(1,3)
    by (auto simp: step_def Watch_cancel_def aux_defs inv_len_def Let_def split: if_splits main_pc.splits option.splits sup_pc.splits collect_result.splits write_result.splits watcher_pc.splits)
next
  case WatchWait
  then show ?thesis using assms(1,3)
    by (auto simp: step_def Watch_wait_def aux_defs inv_len_def Let_def split: if_splits main_pc.splits option.splits sup_pc.splits collect_result.splits write_result.splits watcher_pc.splits)
next
  case WatchLock
  then show ?thesis using assms(1,3)
    by (auto simp: step_def Watch_lock_def aux_defs inv_len_def Let_def split: if_splits main_pc.splits option.splits sup_pc.splits collect_result.splits write_result.splits watcher_pc.splits)
next
  case (WatchSession err)
  then show ?thesis using assms(1,3)
    by (auto simp: step_def Watch_session_def aux_defs inv_len_def Let_def split: if_splits main_pc.splits option.splits sup_pc.splits collect_result.splits write_result.splits watcher_pc.splits)
next
  case (WatchClient err)
  then show ?thesis using assms(1,3)
    by (auto simp: step_def Watch_client_def aux_defs inv_len_def Let_def split: if_splits main_pc.splits option.splits sup_pc.splits collect_result.splits write_result.splits watcher_pc.splits)
next
  case WatchMark
  then show ?thesis using assms(1,3)
    by (auto simp: step_def Watch_mark_def aux_defs inv_len_def Let_def split: if_splits main_pc.splits option.splits sup_pc.splits collect_result.splits write_result.splits watcher_pc.splits)
next
  case WatchLog
  then show ?thesis using assms(1,3)
    by (auto simp: step_def Watch_log_def aux_defs inv_len_def Let_def split: if_splits main_pc.splits option.splits sup_pc.splits collect_result.splits write_result.splits watcher_pc.splits)
next
  case WatchFinish
  then show ?thesis using assms(1,3)
    by (auto simp: step_def Watch_finish_def aux_defs inv_len_def Let_def split: if_splits main_pc.splits option.splits sup_pc.splits collect_result.splits write_result.splits watcher_pc.splits)
qed

lemma inv_launched_step:
  assumes "inv_launched s" "inv_idx s" "inv_len s" "step a s = Some s'"
  shows "inv_launched s'"
proof (cases a)
  case (Advance d)
  then show ?thesis using assms(1,4)
    by (auto simp: step_def aux_defs inv_launched_def Let_def split: if_splits main_pc.splits option.splits sup_pc.splits collect_result.splits write_result.splits watcher_pc.splits)
next
  case CancelOuter
  then show ?thesis using assms(1,4)
    by (auto simp: step_def aux_defs inv_launched_def Let_def split: if_splits main_pc.splits option.splits sup_pc.splits collect_result.splits write_result.splits watcher_pc.splits)
next
  case (StartCreate rid err)
  then show ?thesis using assms(1,4)
    by (auto simp: step_def Start_create_def aux_defs inv_launched_def Let_def split: if_splits main_pc.splits option.splits sup_pc.splits collect_result.splits write_result.splits watcher_pc.splits)
next
  case (StartOpen err)
  then show ?thesis using assms
    by (auto simp: step_def Start_open_def aux_defs inv_launched_def inv_idx_def Let_def split: if_splits main_pc.splits option.splits sup_pc.splits collect_result.splits write_result.splits watcher_pc.splits)
next
  case StartWatch
  then show ?thesis using assms
    by (auto simp: step_def Start_watch_def aux_defs inv_launched_def inv_idx_def inv_len_def Let_def split: if_splits main_pc.splits option.splits sup_pc.splits collect_result.splits write_result.splits watcher_pc.splits)
next
  case CloseCheck
  then show ?thesis using assms(1,4)
    by (auto simp: step_def Close_check_def aux_defs inv_launched_def Let_def split: if_splits main_pc.splits option.splits sup_pc.splits collect_result.splits write_result.splits watcher_pc.splits)
next
  case CloseCancel
  then show ?thesis using assms(1,4)
    by (auto simp: step_def Close_cancel_def aux_defs inv_launched_def Let_def split: if_splits main_pc.splits option.splits sup_pc.splits collect_result.splits write_result.splits watcher_pc.splits)
next
  case CloseWait
  then show ?thesis using assms(1,4)
    by (auto simp: step_def Close_wait_def aux_defs inv_launched_def Let_def split: if_splits main_pc.splits option.splits sup_pc.splits collect_result.splits write_result.splits watcher_pc.splits)
next
  case (SupInit i)
  then show ?thesis using assms(1,4)
    by (auto simp: step_def Sup_init_def aux_defs inv_launched_def Let_def split: if_splits main_pc.splits option.splits sup_pc.splits collect_result.splits write_result.splits watcher_pc.splits)
next
  case (SupCtxDone i)
  then show ?thesis using assms(1,4)
    by (auto simp: step_def Sup_ctx_done_def aux_defs inv_launched_def Let_def split: if_splits main_pc.splits option.splits sup_pc.splits collect_result.splits write_result.splits watcher_pc.splits)
next
  case (SupCollect i)
  then show ?thesis using assms(1,4)
    by (auto simp: step_def Sup_collect_def aux_defs inv_launched_def Let_def split: if_splits main_pc.splits option.splits sup_pc.splits collect_result.splits write_result.splits watcher_pc.splits)
next
  case (SupWrite i r)
  then show ?thesis using assms(1,4)
    by (auto simp: step_def Sup_write_def aux_defs inv_launched_def Let_def split: if_splits main_pc.splits option.splits sup_pc.splits collect_result.splits write_result.splits watcher_pc.splits)
next
  case (SupRecover i)
  then show ?thesis using assms(1,4)
    by (auto simp: step_def Sup_recover_def aux_defs inv_launched_def Let_def split: if_splits main_pc.splits option.splits sup_pc.splits collect_result.splits write_result.splits watcher_pc.splits)
next
  case (SupClose i err)
  then show ?thesis using assms(1,4)
    by (auto simp: step_def Sup_close_def aux_defs inv_launched_def Let_def split: if_splits main_pc.splits option.splits sup_pc.splits collect_result.splits write_result.splits watcher_pc.splits)
next
  case (SupFinish i)
  then show ?thesis using assms(1,4)
    by (auto simp: step_def Sup_finish_def aux_defs inv_launched_def Let_def split: if_splits main_pc.splits option.splits sup_pc.splits collect_result.splits write_result.splits watcher_pc.splits)
next
  case WatchOuter
  then show ?thesis using assms(1,4)
    by (auto simp: step_def Watch_outer_def aux_defs inv_launched_def Let_def split: if_splits main_pc.splits option.splits sup_pc.splits collect_result.splits write_result.splits watcher_pc.splits)
next
  case WatchStreaming
  then show ?thesis using assms(1,4)
    by (auto simp: step_def Watch_streaming_def aux_defs inv_launched_def Let_def split: if_splits main_pc.splits option.splits sup_pc.splits collect_result.splits write_result.splits watcher_pc.splits)
next
  case WatchCancel
  then show ?thesis using assms(1,4)
    by (auto simp: step_def Watch_cancel_def aux_defs inv_launched_def Let_def split: if_splits main_pc.splits option.splits sup_pc.splits collect_result.splits write_result.splits watcher_pc.splits)
next
  case WatchWait
  then show ?thesis using assms(1,4)
    by (auto simp: step_def Watch_wait_def aux_defs inv_launched_def Let_def split: if_splits main_pc.splits option.splits sup_pc.splits collect_result.splits write_result.splits watcher_pc.splits)
next
  case WatchLock
  then show ?thesis using assms(1,4)
    by (auto simp: step_def Watch_lock_def aux_defs inv_launched_def Let_def split: if_splits main_pc.splits option.splits sup_pc.splits collect_result.splits write_result.splits watcher_pc.splits)
next
  case (WatchSession err)
  then show ?thesis using assms(1,4)
    by (auto simp: step_def Watch_session_def aux_defs inv_launched_def Let_def split: if_splits main_pc.splits option.splits sup_pc.splits collect_result.splits write_result.splits watcher_pc.splits)
next
  case (WatchClient err)
  then show ?thesis using assms(1,4)
    by (auto simp: step_def Watch_client_def aux_defs inv_launched_def Let_def split: if_splits main_pc.splits option.splits sup_pc.splits collect_result.splits write_result.splits watcher_pc.splits)
next
  case WatchMark
  then show ?thesis using assms(1,4)
    by (auto simp: step_def Watch_mark_def aux_defs inv_launched_def Let_def split: if_splits main_pc.splits option.splits sup_pc.splits collect_result.splits write_result.splits watcher_pc.splits)
next
  case WatchLog
  then show ?thesis using assms(1,4)
    by (auto simp: step_def Watch_log_def aux_defs inv_launched_def Let_def split: if_splits main_pc.splits option.splits sup_pc.splits collect_result.splits write_result.splits watcher_pc.splits)
next
  case WatchFinish
  then show ?thesis using assms(1,4)
    by (auto simp: step_def Watch_finish_def aux_defs inv_launched_def Let_def split: if_splits main_pc.splits option.splits sup_pc.splits collect_result.splits write_result.splits watcher_pc.splits)
qed

lemma inv_cancel_step:
  assumes "inv_cancel s" "step a s = Some s'"
  shows "inv_cancel s'"
proof (cases a)
  case (Advance d)
  then show ?thesis using assms
    by (auto simp: step_def aux_defs inv_cancel_def Let_def split: if_splits main_pc.splits option.splits sup_pc.splits collect_result.splits write_result.splits watcher_pc.splits)
next
  case CancelOuter
  then show ?thesis using assms
    by (auto simp: step_def aux_defs inv_cancel_def Let_def split: if_splits main_pc.splits option.splits sup_pc.splits collect_result.splits write_result.splits watcher_pc.splits)
next
  case (StartCreate rid err)
  then show ?thesis using assms
    by (auto simp: step_def Start_create_def aux_defs inv_cancel_def Let_def split: if_splits main_pc.splits option.splits sup_pc.splits collect_result.splits write_result.splits watcher_pc.splits)
next
  case (StartOpen err)
  then show ?thesis using assms
    by (auto simp: step_def Start_open_def aux_defs inv_cancel_def Let_def split: if_splits main_pc.splits option.splits sup_pc.splits collect_result.splits write_result.splits watcher_pc.splits)
next
  case StartWatch
  then show ?thesis using assms
    by (auto simp: step_def Start_watch_def aux_defs inv_cancel_def Let_def split: if_splits main_pc.splits option.splits sup_pc.splits collect_result.splits write_result.splits watcher_pc.splits)
next
  case CloseCheck
  then show ?thesis using assms
    by (auto simp: step_def Close_check_def aux_defs inv_cancel_def Let_def split: if_splits main_pc.splits option.splits sup_pc.splits collect_result.splits write_result.splits watcher_pc.splits)
next
  case CloseCancel
  then show ?thesis using assms
    by (auto simp: step_def Close_cancel_def aux_defs inv_cancel_def Let_def split: if_splits main_pc.splits option.splits sup_pc.splits collect_result.splits write_result.splits watcher_pc.splits)
next
  case CloseWait
  then show ?thesis using assms
    by (auto simp: step_def Close_wait_def aux_defs inv_cancel_def Let_def split: if_splits main_pc.splits option.splits sup_pc.splits collect_result.splits write_result.splits watcher_pc.splits)
next
  case (SupInit i)
  then show ?thesis using assms
    by (auto simp: step_def Sup_init_def aux_defs inv_cancel_def Let_def split: if_splits main_pc.splits option.splits sup_pc.splits collect_result.splits write_result.splits watcher_pc.splits)
next
  case (SupCtxDone i)
  then show ?thesis using assms
    by (auto simp: step_def Sup_ctx_done_def aux_defs inv_cancel_def Let_def split: if_splits main_pc.splits option.splits sup_pc.splits collect_result.splits write_result.splits watcher_pc.splits)
next
  case (SupCollect i)
  then show ?thesis using assms
    by (auto simp: step_def Sup_collect_def aux_defs inv_cancel_def Let_def split: if_splits main_pc.splits option.splits sup_pc.splits collect_result.splits write_result.splits watcher_pc.splits)
next
  case (SupWrite i r)
  then show ?thesis using assms
    by (auto simp: step_def Sup_write_def aux_defs inv_cancel_def Let_def split: if_splits main_pc.splits option.splits sup_pc.splits collect_result.splits write_result.splits watcher_pc.splits)
next
  case (SupRecover i)
  then show ?thesis using assms
    by (auto simp: step_def Sup_recover_def aux_defs inv_cancel_def Let_def split: if_splits main_pc.splits option.splits sup_pc.splits collect_result.splits write_result.splits watcher_pc.splits)
next
  case (SupClose i err)
  then show ?thesis using assms
    by (auto simp: step_def Sup_close_def aux_defs inv_cancel_def Let_def split: if_splits main_pc.splits option.splits sup_pc.splits collect_result.splits write_result.splits watcher_pc.splits)
next
  case (SupFinish i)
  then show ?thesis using assms
    by (auto simp: step_def Sup_finish_def aux_defs inv_cancel_def Let_def split: if_splits main_pc.splits option.splits sup_pc.splits collect_result.splits write_result.splits watcher_pc.splits)
next
  case WatchOuter
  then show ?thesis using assms
    by (auto simp: step_def Watch_outer_def aux_defs inv_cancel_def Let_def split: if_splits main_pc.splits option.splits sup_pc.splits collect_result.splits write_result.splits watcher_pc.splits)
next
  case WatchStreaming
  then show ?thesis using assms
    by (auto simp: step_def Watch_streaming_def aux_defs inv_cancel_def Let_def split: if_splits main_pc.splits option.splits sup_pc.splits collect_result.splits write_result.splits watcher_pc.splits)
next
  case WatchCancel
  then show ?thesis using assms
    by (auto simp: step_def Watch_cancel_def aux_defs inv_cancel_def Let_def split: if_splits main_pc.splits option.splits sup_pc.splits collect_result.splits write_result.splits watcher_pc.splits)
next
  case WatchWait
  then show ?thesis using assms
    by (auto simp: step_def Watch_wait_def aux_defs inv_cancel_def Let_def split: if_splits main_pc.splits option.splits sup_pc.splits collect_result.splits write_result.splits watcher_pc.splits)
next
  case WatchLock
  then show ?thesis using assms
    by (auto simp: step_def Watch_lock_def aux_defs inv_cancel_def Let_def split: if_splits main_pc.splits option.splits sup_pc.splits collect_result.splits write_result.splits watcher_pc.splits)
next
  case (WatchSession err)
  then show ?thesis using assms
    by (auto simp: step_def Watch_session_def aux_defs inv_cancel_def Let_def split: if_splits main_pc.splits option.splits sup_pc.splits collect_result.splits write_result.splits watcher_pc.splits)
next
  case (WatchClient err)
  then show ?thesis using assms
    by (auto simp: step_def Watch_client_def aux_defs inv_cancel_def Let_def split: if_splits main_pc.splits option.splits sup_pc.splits collect_result.splits write_result.splits watcher_pc.splits)
next
  case WatchMark
  then show ?thesis using assms
    by (auto simp: step_def Watch_mark_def aux_defs inv_cancel_def Let_def split: if_splits main_pc.splits option.splits sup_pc.splits collect_result.splits write_result.splits watcher_pc.splits)
next
  case WatchLog
  then show ?thesis using assms
    by (auto simp: step_def Watch_log_def aux_defs inv_cancel_def Let_def split: if_splits main_pc.splits option.splits sup_pc.splits collect_result.splits write_result.splits watcher_pc.splits)
next
  case WatchFinish
  then show ?thesis using assms
    by (auto simp: step_def Watch_finish_def aux_defs inv_cancel_def Let_def split: if_splits main_pc.splits option.splits sup_pc.splits collect_result.splits write_result.splits watcher_pc.splits)
qed

lemma inv_mu_step:
  assumes "inv_mu s" "inv_idx s" "step a s = Some s'"
  shows "inv_mu s'"
proof (cases a)
  case (Advance d)
  then show ?thesis using assms(1,3)
    by (auto simp: step_def aux_defs inv_mu_def Let_def split: if_splits main_pc.splits option.splits sup_pc.splits collect_result.splits write_result.splits watcher_pc.splits)
next
  case CancelOuter
  then show ?thesis using assms(1,3)
    by (auto simp: step_def aux_defs inv_mu_def Let_def split: if_splits main_pc.splits option.splits sup_pc.splits collect_result.splits write_result.splits watcher_pc.splits)
next
  case (StartCreate rid err)
  then show ?thesis using assms(1,3)
    by (auto simp: step_def Start_create_def aux_defs inv_mu_def Let_def split: if_splits main_pc.splits option.splits sup_pc.splits collect_result.splits write_result.splits watcher_pc.splits)
next
  case (StartOpen err)
  then show ?thesis using assms(1,3)
    by (auto simp: step_def Start_open_def aux_defs inv_mu_def Let_def split: if_splits main_pc.splits option.splits sup_pc.splits collect_result.splits write_result.splits watcher_pc.splits)
next
  case StartWatch
  then show ?thesis using assms
    by (auto simp: step_def Start_watch_def aux_defs inv_mu_def inv_idx_def Let_def split: if_splits main_pc.splits option.splits sup_pc.splits collect_result.splits write_result.splits watcher_pc.splits)
next
  case CloseCheck
  then show ?thesis using assms(1,3)
    by (auto simp: step_def Close_check_def aux_defs inv_mu_def Let_def split: if_splits main_pc.splits option.splits sup_pc.splits collect_result.splits write_result.splits watcher_pc.splits)
next
  case CloseCancel
  then show ?thesis using assms(1,3)
    by (auto simp: step_def Close_cancel_def aux_defs inv_mu_def Let_def split: if_splits main_pc.splits option.splits sup_pc.splits collect_result.splits write_result.splits watcher_pc.splits)
next
  case CloseWait
  then show ?thesis using assms(1,3)
    by (auto simp: step_def Close_wait_def aux_defs inv_mu_def Let_def split: if_splits main_pc.splits option.splits sup_pc.splits collect_result.splits write_result.splits watcher_pc.splits)
next
  case (SupInit i)
  then show ?thesis using assms(1,3)
    by (auto simp: step_def Sup_init_def aux_defs inv_mu_def Let_def split: if_splits main_pc.splits option.splits sup_pc.splits collect_result.splits write_result.splits watcher_pc.splits)
next
  case (SupCtxDone i)
  then show ?thesis using assms(1,3)
    by (auto simp: step_def Sup_ctx_done_def aux_defs inv_mu_def Let_def split: if_splits main_pc.splits option.splits sup_pc.splits collect_result.splits write_result.splits watcher_pc.splits)
next
  case (SupCollect i)
  then show ?thesis using assms(1,3)
    by (auto simp: step_def Sup_collect_def aux_defs inv_mu_def Let_def split: if_splits main_pc.splits option.splits sup_pc.splits collect_result.splits write_result.splits watcher_pc.splits)
next
  case (SupWrite i r)
  then show ?thesis using assms(1,3)
    by (auto simp: step_def Sup_write_def aux_defs inv_mu_def Let_def split: if_splits main_pc.splits option.splits sup_pc.splits collect_result.splits write_result.splits watcher_pc.splits)
next
  case (SupRecover i)
  then show ?thesis using assms(1,3)
    by (auto simp: step_def Sup_recover_def aux_defs inv_mu_def Let_def split: if_splits main_pc.splits option.splits sup_pc.splits collect_result.splits write_result.splits watcher_pc.splits)
next
  case (SupClose i err)
  then show ?thesis using assms(1,3)
    by (auto simp: step_def Sup_close_def aux_defs inv_mu_def Let_def split: if_splits main_pc.splits option.splits sup_pc.splits collect_result.splits write_result.splits watcher_pc.splits)
next
  case (SupFinish i)
  then show ?thesis using assms(1,3)
    by (auto simp: step_def Sup_finish_def aux_defs inv_mu_def Let_def split: if_splits main_pc.splits option.splits sup_pc.splits collect_result.splits write_result.splits watcher_pc.splits)
next
  case WatchOuter
  then show ?thesis using assms(1,3)
    by (auto simp: step_def Watch_outer_def aux_defs inv_mu_def Let_def split: if_splits main_pc.splits option.splits sup_pc.splits collect_result.splits write_result.splits watcher_pc.splits)
next
  case WatchStreaming
  then show ?thesis using assms(1,3)
    by (auto simp: step_def Watch_streaming_def aux_defs inv_mu_def Let_def split: if_splits main_pc.splits option.splits sup_pc.splits collect_result.splits write_result.splits watcher_pc.splits)
next
  case WatchCancel
  then show ?thesis using assms(1,3)
    by (auto simp: step_def Watch_cancel_def aux_defs inv_mu_def Let_def split: if_splits main_pc.splits option.splits sup_pc.splits collect_result.splits write_result.splits watcher_pc.splits)
next
  case WatchWait
  then show ?thesis using assms(1,3)
    by (auto simp: step_def Watch_wait_def aux_defs inv_mu_def Let_def split: if_splits main_pc.splits option.splits sup_pc.splits collect_result.splits write_result.splits watcher_pc.splits)
next
  case WatchLock
  then show ?thesis using assms(1,3)
    by (auto simp: step_def Watch_lock_def aux_defs inv_mu_def Let_def split: if_splits main_pc.splits option.splits sup_pc.splits collect_result.splits write_result.splits watcher_pc.splits)
next
  case (WatchSession err)
  then show ?thesis using assms(1,3)
    by (auto simp: step_def Watch_session_def aux_defs inv_mu_def Let_def split: if_splits main_pc.splits option.splits sup_pc.splits collect_result.splits write_result.splits watcher_pc.splits)
next
  case (WatchClient err)
  then show ?thesis using assms(1,3)
    by (auto simp: step_def Watch_client_def aux_defs inv_mu_def Let_def split: if_splits main_pc.splits option.splits sup_pc.splits collect_result.splits write_result.splits watcher_pc.splits)
next
  case WatchMark
  then show ?thesis using assms(1,3)
    by (auto simp: step_def Watch_mark_def aux_defs inv_mu_def Let_def split: if_splits main_pc.splits option.splits sup_pc.splits collect_result.splits write_result.splits watcher_pc.splits)
next
  case WatchLog
  then show ?thesis using assms(1,3)
    by (auto simp: step_def Watch_log_def aux_defs inv_mu_def Let_def split: if_splits main_pc.splits option.splits sup_pc.splits collect_result.splits write_result.splits watcher_pc.splits)
next
  case WatchFinish
  then show ?thesis using assms(1,3)
    by (auto simp: step_def Watch_finish_def aux_defs inv_mu_def Let_def split: if_splits main_pc.splits option.splits sup_pc.splits collect_result.splits write_result.splits watcher_pc.splits)
qed

lemma inv_closed_step:
  assumes "inv_closed s" "inv_idx s" "step a s = Some s'"
  shows "inv_closed s'"
proof (cases a)
  case (Advance d)
  then show ?thesis using assms(1,3)
    by (auto simp: step_def aux_defs inv_closed_def Let_def split: if_splits main_pc.splits option.splits sup_pc.splits collect_result.splits write_result.splits watcher_pc.splits)
next
  case CancelOuter
  then show ?thesis using assms(1,3)
    by (auto simp: step_def aux_defs inv_closed_def Let_def split: if_splits main_pc.splits option.splits sup_pc.splits collect_result.splits write_result.splits watcher_pc.splits)
next
  case (StartCreate rid err)
  then show ?thesis using assms(1,3)
    by (auto simp: step_def Start_create_def aux_defs inv_closed_def Let_def split: if_splits main_pc.splits option.splits sup_pc.splits collect_result.splits write_result.splits watcher_pc.splits)
next
  case (StartOpen err)
  then show ?thesis using assms(1,3)
    by (auto simp: step_def Start_open_def aux_defs inv_closed_def Let_def split: if_splits main_pc.splits option.splits sup_pc.splits collect_result.splits write_result.splits watcher_pc.splits)
next
  case StartWatch
  then show ?thesis using assms
    by (auto simp: step_def Start_watch_def aux_defs inv_closed_def inv_idx_def Let_def split: if_splits main_pc.splits option.splits sup_pc.splits collect_result.splits write_result.splits watcher_pc.splits)
next
  case CloseCheck
  then show ?thesis using assms(1,3)
    by (auto simp: step_def Close_check_def aux_defs inv_closed_def Let_def split: if_splits main_pc.splits option.splits sup_pc.splits collect_result.splits write_result.splits watcher_pc.splits)
next
  case CloseCancel
  then show ?thesis using assms(1,3)
    by (auto simp: step_def Close_cancel_def aux_defs inv_closed_def Let_def split: if_splits main_pc.splits option.splits sup_pc.splits collect_result.splits write_result.splits watcher_pc.splits)
next
  case CloseWait
  then show ?thesis using assms(1,3)
    by (auto simp: step_def Close_wait_def aux_defs inv_closed_def Let_def split: if_splits main_pc.splits option.splits sup_pc.splits collect_result.splits write_result.splits watcher_pc.splits)
next
  case (SupInit i)
  then show ?thesis using assms(1,3)
    by (auto simp: step_def Sup_init_def aux_defs inv_closed_def Let_def split: if_splits main_pc.splits option.splits sup_pc.splits collect_result.splits write_result.splits watcher_pc.splits)
next
  case (SupCtxDone i)
  then show ?thesis using assms(1,3)
    by (auto simp: step_def Sup_ctx_done_def aux_defs inv_closed_def Let_def split: if_splits main_pc.splits option.splits sup_pc.splits collect_result.splits write_result.splits watcher_pc.splits)
next
  case (SupCollect i)
  then show ?thesis using assms(1,3)
    by (auto simp: step_def Sup_collect_def aux_defs inv_closed_def Let_def split: if_splits main_pc.splits option.splits sup_pc.splits collect_result.splits write_result.splits watcher_pc.splits)
next
  case (SupWrite i r)
  then show ?thesis using assms(1,3)
    by (auto simp: step_def Sup_write_def aux_defs inv_closed_def Let_def split: if_splits main_pc.splits option.splits sup_pc.splits collect_result.splits write_result.splits watcher_pc.splits)
next
  case (SupRecover i)
  then show ?thesis using assms(1,3)
    by (auto simp: step_def Sup_recover_def aux_defs inv_closed_def Let_def split: if_splits main_pc.splits option.splits sup_pc.splits collect_result.splits write_result.splits watcher_pc.splits)
next
  case (SupClose i err)
  then show ?thesis using assms(1,3)
    by (auto simp: step_def Sup_close_def aux_defs inv_closed_def Let_def split: if_splits main_pc.splits option.splits sup_pc.splits collect_result.splits write_result.splits watcher_pc.splits)
next
  case (SupFinish i)
  then show ?thesis using assms(1,3)
    by (auto simp: step_def Sup_finish_def aux_defs inv_closed_def Let_def split: if_splits main_pc.splits option.splits sup_pc.splits collect_result.splits write_result.splits watcher_pc.splits)
next
  case WatchOuter
  then show ?thesis using assms(1,3)
    by (auto simp: step_def Watch_outer_def aux_defs inv_closed_def Let_def split: if_splits main_pc.splits option.splits sup_pc.splits collect_result.splits write_result.splits watcher_pc.splits)
next
  case WatchStreaming
  then show ?thesis using assms(1,3)
    by (auto simp: step_def Watch_streaming_def aux_defs inv_closed_def Let_def split: if_splits main_pc.splits option.splits sup_pc.splits collect_result.splits write_result.splits watcher_pc.splits)
next
  case WatchCancel
  then show ?thesis using assms(1,3)
    by (auto simp: step_def Watch_cancel_def aux_defs inv_closed_def Let_def split: if_splits main_pc.splits option.splits sup_pc.splits collect_result.splits write_result.splits watcher_pc.splits)
next
  case WatchWait
  then show ?thesis using assms(1,3)
    by (auto simp: step_def Watch_wait_def aux_defs inv_closed_def Let_def split: if_splits main_pc.splits option.splits sup_pc.splits collect_result.splits write_result.splits watcher_pc.splits)
next
  case WatchLock
  then show ?thesis using assms(1,3)
    by (auto simp: step_def Watch_lock_def aux_defs inv_closed_def Let_def split: if_splits main_pc.splits option.splits sup_pc.splits collect_result.splits write_result.splits watcher_pc.splits)
next
  case (WatchSession err)
  then show ?thesis using assms(1,3)
    by (auto simp: step_def Watch_session_def aux_defs inv_closed_def Let_def split: if_splits main_pc.splits option.splits sup_pc.splits collect_result.splits write_result.splits watcher_pc.splits)
next
  case (WatchClient err)
  then show ?thesis using assms(1,3)
    by (auto simp: step_def Watch_client_def aux_defs inv_closed_def Let_def split: if_splits main_pc.splits option.splits sup_pc.splits collect_result.splits write_result.splits watcher_pc.splits)
next
  case WatchMark
  then show ?thesis using assms(1,3)
    by (auto simp: step_def Watch_mark_def aux_defs inv_closed_def Let_def split: if_splits main_pc.splits option.splits sup_pc.splits collect_result.splits write_result.splits watcher_pc.splits)
next
  case WatchLog
  then show ?thesis using assms(1,3)
    by (auto simp: step_def Watch_log_def aux_defs inv_closed_def Let_def split: if_splits main_pc.splits option.splits sup_pc.splits collect_result.splits write_result.splits watcher_pc.splits)
next
  case WatchFinish
  then show ?thesis using assms(1,3)
    by (auto simp: step_def Watch_finish_def aux_defs inv_closed_def Let_def split: if_splits main_pc.splits option.splits sup_pc.splits collect_result.splits write_result.splits watcher_pc.splits)
qed

lemma inv_ctx_step:
  assumes "inv_ctx s" "step a s = Some s'"
  shows "inv_ctx s'"
proof (cases a)
  case (Advance d)
  then show ?thesis using assms
    by (auto simp: step_def aux_defs inv_ctx_def streamingCtx_done_def Let_def split: if_splits main_pc.splits option.splits sup_pc.splits collect_result.splits write_result.splits watcher_pc.splits)
next
  case CancelOuter
  then show ?thesis using assms
    by (auto simp: step_def aux_defs inv_ctx_def streamingCtx_done_def Let_def split: if_splits main_pc.splits option.splits sup_pc.splits collect_result.splits write_result.splits watcher_pc.splits)
next
  case (StartCreate rid err)
  then show ?thesis using assms
    by (auto simp: step_def Start_create_def aux_defs inv_ctx_def streamingCtx_done_def Let_def split: if_splits main_pc.splits option.splits sup_pc.splits collect_result.splits write_result.splits watcher_pc.splits)
next
  case (StartOpen err)
  then show ?thesis using assms
    by (auto simp: step_def Start_open_def aux_defs inv_ctx_def streamingCtx_done_def Let_def split: if_splits main_pc.splits option.splits sup_pc.splits collect_result.splits write_result.splits watcher_pc.splits)
next
  case StartWatch
  then show ?thesis using assms
    by (auto simp: step_def Start_watch_def aux_defs inv_ctx_def streamingCtx_done_def Let_def split: if_splits main_pc.splits option.splits sup_pc.splits collect_result.splits write_result.splits watcher_pc.splits)
next
  case CloseCheck
  then show ?thesis using assms
    by (auto simp: step_def Close_check_def aux_defs inv_ctx_def streamingCtx_done_def Let_def split: if_splits main_pc.splits option.splits sup_pc.splits collect_result.splits write_result.splits watcher_pc.splits)
next
  case CloseCancel
  then show ?thesis using assms
    by (auto simp: step_def Close_cancel_def aux_defs inv_ctx_def streamingCtx_done_def Let_def split: if_splits main_pc.splits option.splits sup_pc.splits collect_result.splits write_result.splits watcher_pc.splits)
next
  case CloseWait
  then show ?thesis using assms
    by (auto simp: step_def Close_wait_def aux_defs inv_ctx_def streamingCtx_done_def Let_def split: if_splits main_pc.splits option.splits sup_pc.splits collect_result.splits write_result.splits watcher_pc.splits)
next
  case (SupInit i)
  then show ?thesis using assms
    by (auto simp: step_def Sup_init_def aux_defs inv_ctx_def streamingCtx_done_def Let_def split: if_splits main_pc.splits option.splits sup_pc.splits collect_result.splits write_result.splits watcher_pc.splits)
next
  case (SupCtxDone i)
  then show ?thesis using assms
    by (auto simp: step_def Sup_ctx_done_def aux_defs inv_ctx_def streamingCtx_done_def Let_def split: if_splits main_pc.splits option.splits sup_pc.splits collect_result.splits write_result.splits watcher_pc.splits)
next
  case (SupCollect i)
  then show ?thesis using assms
    by (auto simp: step_def Sup_collect_def aux_defs inv_ctx_def streamingCtx_done_def Let_def split: if_splits main_pc.splits option.splits sup_pc.splits collect_result.splits write_result.splits watcher_pc.splits)
next
  case (SupWrite i r)
  then show ?thesis using assms
    by (auto simp: step_def Sup_write_def aux_defs inv_ctx_def streamingCtx_done_def Let_def split: if_splits main_pc.splits option.splits sup_pc.splits collect_result.splits write_result.splits watcher_pc.splits)
next
  case (SupRecover i)
  then show ?thesis using assms
    by (auto simp: step_def Sup_recover_def aux_defs inv_ctx_def streamingCtx_done_def Let_def split: if_splits main_pc.splits option.splits sup_pc.splits collect_result.splits write_result.splits watcher_pc.splits)
next
  case (SupClose i err)
  then show ?thesis using assms
    by (auto simp: step_def Sup_close_def aux_defs inv_ctx_def streamingCtx_done_def Let_def split: if_splits main_pc.splits option.splits sup_pc.splits collect_result.splits write_result.splits watcher_pc.splits)
next
  case (SupFinish i)
  then show ?thesis using assms
    by (auto simp: step_def Sup_finish_def aux_defs inv_ctx_def streamingCtx_done_def Let_def split: if_splits main_pc.splits option.splits sup_pc.splits collect_result.splits write_result.splits watcher_pc.splits)
next
  case WatchOuter
  then show ?thesis using assms
    by (auto simp: step_def Watch_outer_def aux_defs inv_ctx_def streamingCtx_done_def Let_def split: if_splits main_pc.splits option.splits sup_pc.splits collect_result.splits write_result.splits watcher_pc.splits)
next
  case WatchStreaming
  then show ?thesis using assms
    by (auto simp: step_def Watch_streaming_def aux_defs inv_ctx_def streamingCtx_done_def Let_def split: if_splits main_pc.splits option.splits sup_pc.splits collect_result.splits write_result.splits watcher_pc.splits)
next
  case WatchCancel
  then show ?thesis using assms
    by (auto simp: step_def Watch_cancel_def aux_defs inv_ctx_def streamingCtx_done_def Let_def split: if_splits main_pc.splits option.splits sup_pc.splits collect_result.splits write_result.splits watcher_pc.splits)
next
  case WatchWait
  then show ?thesis using assms
    by (auto simp: step_def Watch_wait_def aux_defs inv_ctx_def streamingCtx_done_def Let_def split: if_splits main_pc.splits option.splits sup_pc.splits collect_result.splits write_result.splits watcher_pc.splits)
next
  case WatchLock
  then show ?thesis using assms
    by (auto simp: step_def Watch_lock_def aux_defs inv_ctx_def streamingCtx_done_def Let_def split: if_splits main_pc.splits option.splits sup_pc.splits collect_result.splits write_result.splits watcher_pc.splits)
next
  case (WatchSession err)
  then show ?thesis using assms
    by (auto simp: step_def Watch_session_def aux_defs inv_ctx_def streamingCtx_done_def Let_def split: if_splits main_pc.splits option.splits sup_pc.splits collect_result.splits write_result.splits watcher_pc.splits)
next
  case (WatchClient err)
  then show ?thesis using assms
    by (auto simp: step_def Watch_client_def aux_defs inv_ctx_def streamingCtx_done_def Let_def split: if_splits main_pc.splits option.splits sup_pc.splits collect_result.splits write_result.splits watcher_pc.splits)
next
  case WatchMark
  then show ?thesis using assms
    by (auto simp: step_def Watch_mark_def aux_defs inv_ctx_def streamingCtx_done_def Let_def split: if_splits main_pc.splits option.splits sup_pc.splits collect_result.splits write_result.splits watcher_pc.splits)
next
  case WatchLog
  then show ?thesis using assms
    by (auto simp: step_def Watch_log_def aux_defs inv_ctx_def streamingCtx_done_def Let_def split: if_splits main_pc.splits option.splits sup_pc.splits collect_result.splits write_result.splits watcher_pc.splits)
next
  case WatchFinish
  then show ?thesis using assms
    by (auto simp: step_def Watch_finish_def aux_defs inv_ctx_def streamingCtx_done_def Let_def split: if_splits main_pc.splits option.splits sup_pc.splits collect_result.splits write_result.splits watcher_pc.splits)
qed

lemma inv_cwait_step:
  assumes "inv_cwait s" "inv_cancel s" "step a s = Some s'"
  shows "inv_cwait s'"
proof (cases a)
  case (Advance d)
  then show ?thesis using assms(1,3)
    by (auto simp: step_def aux_defs inv_cwait_def Let_def split: if_splits main_pc.splits option.splits sup_pc.splits collect_result.splits write_result.splits watcher_pc.splits)
next
  case CancelOuter
  then show ?thesis using assms(1,3)
    by (auto simp: step_def aux_defs inv_cwait_def Let_def split: if_splits main_pc.splits option.splits sup_pc.splits collect_result.splits write_result.splits watcher_pc.splits)
next
  case (StartCreate rid err)
  then show ?thesis using assms(1,3)
    by (auto simp: step_def Start_create_def aux_defs inv_cwait_def Let_def split: if_splits main_pc.splits option.splits sup_pc.splits collect_result.splits write_result.splits watcher_pc.splits)
next
  case (StartOpen err)
  then show ?thesis using assms(1,3)
    by (auto simp: step_def Start_open_def aux_defs inv_cwait_def Let_def split: if_splits main_pc.splits option.splits sup_pc.splits collect_result.splits write_result.splits watcher_pc.splits)
next
  case StartWatch
  then show ?thesis using assms(1,3)
    by (auto simp: step_def Start_watch_def aux_defs inv_cwait_def Let_def split: if_splits main_pc.splits option.splits sup_pc.splits collect_result.splits write_result.splits watcher_pc.splits)
next
  case CloseCheck
  then show ?thesis using assms(1,3)
    by (auto simp: step_def Close_check_def aux_defs inv_cwait_def Let_def split: if_splits main_pc.splits option.splits sup_pc.splits collect_result.splits write_result.splits watcher_pc.splits)
next
  case CloseCancel
  then show ?thesis using assms
    by (auto simp: step_def Close_cancel_def aux_defs inv_cwait_def inv_cancel_def Let_def split: if_splits main_pc.splits option.splits sup_pc.splits collect_result.splits write_result.splits watcher_pc.splits)
next
  case CloseWait
  then show ?thesis using assms(1,3)
    by (auto simp: step_def Close_wait_def aux_defs inv_cwait_def Let_def split: if_splits main_pc.splits option.splits sup_pc.splits collect_result.splits write_result.splits watcher_pc.splits)
next
  case (SupInit i)
  then show ?thesis using assms(1,3)
    by (auto simp: step_def Sup_init_def aux_defs inv_cwait_def Let_def split: if_splits main_pc.splits option.splits sup_pc.splits collect_result.splits write_result.splits watcher_pc.splits)
next
  case (SupCtxDone i)
  then show ?thesis using assms(1,3)
    by (auto simp: step_def Sup_ctx_done_def aux_defs inv_cwait_def Let_def split: if_splits main_pc.splits option.splits sup_pc.splits collect_result.splits write_result.splits watcher_pc.splits)
next
  case (SupCollect i)
  then show ?thesis using assms(1,3)
    by (auto simp: step_def Sup_collect_def aux_defs inv_cwait_def Let_def split: if_splits main_pc.splits option.splits sup_pc.splits collect_result.splits write_result.splits watcher_pc.splits)
next
  case (SupWrite i r)
  then show ?thesis using assms(1,3)
    by (auto simp: step_def Sup_write_def aux_defs inv_cwait_def Let_def split: if_splits main_pc.splits option.splits sup_pc.splits collect_result.splits write_result.splits watcher_pc.splits)
next
  case (SupRecover i)
  then show ?thesis using assms(1,3)
    by (auto simp: step_def Sup_recover_def aux_defs inv_cwait_def Let_def split: if_splits main_pc.splits option.splits sup_pc.splits collect_result.splits write_result.splits watcher_pc.splits)
next
  case (SupClose i err)
  then show ?thesis using assms(1,3)
    by (auto simp: step_def Sup_close_def aux_defs inv_cwait_def Let_def split: if_splits main_pc.splits option.splits sup_pc.splits collect_result.splits write_result.splits watcher_pc.splits)
next
  case (SupFinish i)
  then show ?thesis using assms(1,3)
    by (auto simp: step_def Sup_finish_def aux_defs inv_cwait_def Let_def split: if_splits main_pc.splits option.splits sup_pc.splits collect_result.splits write_result.splits watcher_pc.splits)
next
  case WatchOuter
  then show ?thesis using assms(1,3)
    by (auto simp: step_def Watch_outer_def aux_defs inv_cwait_def Let_def split: if_splits main_pc.splits option.splits sup_pc.splits collect_result.splits write_result.splits watcher_pc.splits)
next
  case WatchStreaming
  then show ?thesis using assms(1,3)
    by (auto simp: step_def Watch_streaming_def aux_defs inv_cwait_def Let_def split: if_splits main_pc.splits option.splits sup_pc.splits collect_result.splits write_result.splits watcher_pc.splits)
next
  case WatchCancel
  then show ?thesis using assms(1,3)
    by (auto simp: step_def Watch_cancel_def aux_defs inv_cwait_def Let_def split: if_splits main_pc.splits option.splits sup_pc.splits collect_result.splits write_result.splits watcher_pc.splits)
next
  case WatchWait
  then show ?thesis using assms(1,3)
    by (auto simp: step_def Watch_wait_def aux_defs inv_cwait_def Let_def split: if_splits main_pc.splits option.splits sup_pc.splits collect_result.splits write_result.splits watcher_pc.splits)
next
  case WatchLock
  then show ?thesis using assms(1,3)
    by (auto simp: step_def Watch_lock_def aux_defs inv_cwait_def Let_def split: if_splits main_pc.splits option.splits sup_pc.splits collect_result.splits write_result.splits watcher_pc.splits)
next
  case (WatchSession err)
  then show ?thesis using assms(1,3)
    by (auto simp: step_def Watch_session_def aux_defs inv_cwait_def Let_def split: if_splits main_pc.splits option.splits sup_pc.splits collect_result.splits write_result.splits watcher_pc.splits)
next
  case (WatchClient err)
  then show ?thesis using assms(1,3)
    by (auto simp: step_def Watch_client_def aux_defs inv_cwait_def Let_def split: if_splits main_pc.splits option.splits sup_pc.splits collect_result.splits write_result.splits watcher_pc.splits)
next
  case WatchMark
  then show ?thesis using assms(1,3)
    by (auto simp: step_def Watch_mark_def aux_defs inv_cwait_def Let_def split: if_splits main_pc.splits option.splits sup_pc.splits collect_result.splits write_result.splits watcher_pc.splits)
next
  case WatchLog
  then show ?thesis using assms(1,3)
    by (auto simp: step_def Watch_log_def aux_defs inv_cwait_def Let_def split: if_splits main_pc.splits option.splits sup_pc.splits collect_result.splits write_result.splits watcher_pc.splits)
next
  case WatchFinish
  then show ?thesis using assms(1,3)
    by (auto simp: step_def Watch_finish_def aux_defs inv_cwait_def Let_def split: if_splits main_pc.splits option.splits sup_pc.splits collect_result.splits write_result.splits watcher_pc.splits)
qed

lemma inv_cwg_step:
  assumes "inv_cwg s" "inv_idx s" "step a s = Some s'"
  shows "inv_cwg s'"
proof (cases a)
  case (Advance d)
  then show ?thesis using assms(1,3)
    by (auto simp: step_def aux_defs inv_cwg_def Let_def split: if_splits main_pc.splits option.splits sup_pc.splits collect_result.splits write_result.splits watcher_pc.splits)
next
  case CancelOuter
  then show ?thesis using assms(1,3)
    by (auto simp: step_def aux_defs inv_cwg_def Let_def split: if_splits main_pc.splits option.splits sup_pc.splits collect_result.splits write_result.splits watcher_pc.splits)
next
  case (StartCreate rid err)
  then show ?thesis using assms(1,3)
    by (auto simp: step_def Start_create_def aux_defs inv_cwg_def Let_def split: if_splits main_pc.splits option.splits sup_pc.splits collect_result.splits write_result.splits watcher_pc.splits)
next
  case (StartOpen err)
  then show ?thesis using assms(1,3)
    by (auto simp: step_def Start_open_def aux_defs inv_cwg_def Let_def split: if_splits main_pc.splits option.splits sup_pc.splits collect_result.splits write_result.splits watcher_pc.splits)
next
  case StartWatch
  then show ?thesis using assms
    by (auto simp: step_def Start_watch_def aux_defs inv_cwg_def inv_idx_def Let_def split: if_splits main_pc.splits option.splits sup_pc.splits collect_result.splits write_result.splits watcher_pc.splits)
next
  case CloseCheck
  then show ?thesis using assms(1,3)
    by (auto simp: step_def Close_check_def aux_defs inv_cwg_def Let_def split: if_splits main_pc.splits option.splits sup_pc.splits collect_result.splits write_result.splits watcher_pc.splits)
next
  case CloseCancel
  then show ?thesis using assms(1,3)
    by (auto simp: step_def Close_cancel_def aux_defs inv_cwg_def Let_def split: if_splits main_pc.splits option.splits sup_pc.splits collect_result.splits write_result.splits watcher_pc.splits)
next
  case CloseWait
  then show ?thesis using assms(1,3)
    by (auto simp: step_def Close_wait_def aux_defs inv_cwg_def Let_def split: if_splits main_pc.splits option.splits sup_pc.splits collect_result.splits write_result.splits watcher_pc.splits)
next
  case (SupInit i)
  then show ?thesis using assms(1,3)
    by (auto simp: step_def Sup_init_def aux_defs inv_cwg_def Let_def split: if_splits main_pc.splits option.splits sup_pc.splits collect_result.splits write_result.splits watcher_pc.splits)
next
  case (SupCtxDone i)
  then show ?thesis using assms(1,3)
    by (auto simp: step_def Sup_ctx_done_def aux_defs inv_cwg_def Let_def split: if_splits main_pc.splits option.splits sup_pc.splits collect_result.splits write_result.splits watcher_pc.splits)
next
  case (SupCollect i)
  then show ?thesis using assms(1,3)
    by (auto simp: step_def Sup_collect_def aux_defs inv_cwg_def Let_def split: if_splits main_pc.splits option.splits sup_pc.splits collect_result.splits write_result.splits watcher_pc.splits)
next
  case (SupWrite i r)
  then show ?thesis using assms(1,3)
    by (auto simp: step_def Sup_write_def aux_defs inv_cwg_def Let_def split: if_splits main_pc.splits option.splits sup_pc.splits collect_result.splits write_result.splits watcher_pc.splits)
next
  case (SupRecover i)
  then show ?thesis using assms(1,3)
    by (auto simp: step_def Sup_recover_def aux_defs inv_cwg_def Let_def split: if_splits main_pc.splits option.splits sup_pc.splits collect_result.splits write_result.splits watcher_pc.splits)
next
  case (SupClose i err)
  then show ?thesis using assms(1,3)
    by (auto simp: step_def Sup_close_def aux_defs inv_cwg_def Let_def split: if_splits main_pc.splits option.splits sup_pc.splits collect_result.splits write_result.splits watcher_pc.splits)
next
  case (SupFinish i)
  then show ?thesis using assms(1,3)
    by (auto simp: step_def Sup_finish_def aux_defs inv_cwg_def Let_def split: if_splits main_pc.splits option.splits sup_pc.splits collect_result.splits write_result.splits watcher_pc.splits)
next
  case WatchOuter
  then show ?thesis using assms(1,3)
    by (auto simp: step_def Watch_outer_def aux_defs inv_cwg_def Let_def split: if_splits main_pc.splits option.splits sup_pc.splits collect_result.splits write_result.splits watcher_pc.splits)
next
  case WatchStreaming
  then show ?thesis using assms(1,3)
    by (auto simp: step_def Watch_streaming_def aux_defs inv_cwg_def Let_def split: if_splits main_pc.splits option.splits sup_pc.splits collect_result.splits write_result.splits watcher_pc.splits)
next
  case WatchCancel
  then show ?thesis using assms(1,3)
    by (auto simp: step_def Watch_cancel_def aux_defs inv_cwg_def Let_def split: if_splits main_pc.splits option.splits sup_pc.splits collect_result.splits write_result.splits watcher_pc.splits)
next
  case WatchWait
  then show ?thesis using assms(1,3)
    by (auto simp: step_def Watch_wait_def aux_defs inv_cwg_def Let_def split: if_splits main_pc.splits option.splits sup_pc.splits collect_result.splits write_result.splits watcher_pc.splits)
next
  case WatchLock
  then show ?thesis using assms(1,3)
    by (auto simp: step_def Watch_lock_def aux_defs inv_cwg_def Let_def split: if_splits main_pc.splits option.splits sup_pc.splits collect_result.splits write_result.splits watcher_pc.splits)
next
  case (WatchSession err)
  then show ?thesis using assms(1,3)
    by (auto simp: step_def Watch_session_def aux_defs inv_cwg_def Let_def split: if_splits main_pc.splits option.splits sup_pc.splits collect_result.splits write_result.splits watcher_pc.splits)
next
  case (WatchClient err)
  then show ?thesis using assms(1,3)
    by (auto simp: step_def Watch_client_def aux_defs inv_cwg_def Let_def split: if_splits main_pc.splits option.splits sup_pc.splits collect_result.splits write_result.splits watcher_pc.splits)
next
  case WatchMark
  then show ?thesis using assms(1,3)
    by (auto simp: step_def Watch_mark_def aux_defs inv_cwg_def Let_def split: if_splits main_pc.splits option.splits sup_pc.splits collect_result.splits write_result.splits watcher_pc.splits)
next
  case WatchLog
  then show ?thesis using assms(1,3)
    by (auto simp: step_def Watch_log_def aux_defs inv_cwg_def Let_def split: if_splits main_pc.splits option.splits sup_pc.splits collect_result.splits write_result.splits watcher_pc.splits)
next
  case WatchFinish
  then show ?thesis using assms(1,3)
    by (auto simp: step_def Watch_finish_def aux_defs inv_cwg_def Let_def split: if_splits main_pc.splits option.splits sup_pc.splits collect_result.splits write_result.splits watcher_pc.splits)
qed

lemma inv_swg_step:
  assumes "inv_swg s" "step a s = Some s'"
  shows "inv_swg s'"
proof (cases a)
  case (Advance d)
  then show ?thesis using assms
    by (auto simp: step_def aux_defs inv_swg_def Let_def live_append live_update_same split: if_splits main_pc.splits option.splits sup_pc.splits collect_result.splits write_result.splits watcher_pc.splits)
next
  case CancelOuter
  then show ?thesis using assms
    by (auto simp: step_def aux_defs inv_swg_def Let_def live_append live_update_same split: if_splits main_pc.splits option.splits sup_pc.splits collect_result.splits write_result.splits watcher_pc.splits)
next
  case (StartCreate rid err)
  then show ?thesis using assms
    by (auto simp: step_def Start_create_def aux_defs inv_swg_def Let_def live_append live_update_same split: if_splits main_pc.splits option.splits sup_pc.splits collect_result.splits write_result.splits watcher_pc.splits)
next
  case (StartOpen err)
  then show ?thesis using assms
    by (auto simp: step_def Start_open_def aux_defs inv_swg_def Let_def live_append live_update_same split: if_splits main_pc.splits option.splits sup_pc.splits collect_result.splits write_result.splits watcher_pc.splits)
next
  case StartWatch
  then show ?thesis using assms
    by (auto simp: step_def Start_watch_def aux_defs inv_swg_def Let_def live_append live_update_same split: if_splits main_pc.splits option.splits sup_pc.splits collect_result.splits write_result.splits watcher_pc.splits)
next
  case CloseCheck
  then show ?thesis using assms
    by (auto simp: step_def Close_check_def aux_defs inv_swg_def Let_def live_append live_update_same split: if_splits main_pc.splits option.splits sup_pc.splits collect_result.splits write_result.splits watcher_pc.splits)
next
  case CloseCancel
  then show ?thesis using assms
    by (auto simp: step_def Close_cancel_def aux_defs inv_swg_def Let_def live_append live_update_same split: if_splits main_pc.splits option.splits sup_pc.splits collect_result.splits write_result.splits watcher_pc.splits)
next
  case CloseWait
  then show ?thesis using assms
    by (auto simp: step_def Close_wait_def aux_defs inv_swg_def Let_def live_append live_update_same split: if_splits main_pc.splits option.splits sup_pc.splits collect_result.splits write_result.splits watcher_pc.splits)
next
  case (SupInit i)
  then show ?thesis using assms
    by (auto simp: step_def Sup_init_def aux_defs inv_swg_def Let_def live_append live_update_same split: if_splits main_pc.splits option.splits sup_pc.splits collect_result.splits write_result.splits watcher_pc.splits)
next
  case (SupCtxDone i)
  then show ?thesis using assms
    by (auto simp: step_def Sup_ctx_done_def aux_defs inv_swg_def Let_def live_append live_update_same split: if_splits main_pc.splits option.splits sup_pc.splits collect_result.splits write_result.splits watcher_pc.splits)
next
  case (SupCollect i)
  then show ?thesis using assms
    by (auto simp: step_def Sup_collect_def aux_defs inv_swg_def Let_def live_append live_update_same split: if_splits main_pc.splits option.splits sup_pc.splits collect_result.splits write_result.splits watcher_pc.splits)
next
  case (SupWrite i r)
  then show ?thesis using assms
    by (auto simp: step_def Sup_write_def aux_defs inv_swg_def Let_def live_append live_update_same split: if_splits main_pc.splits option.splits sup_pc.splits collect_result.splits write_result.splits watcher_pc.splits)
next
  case (SupRecover i)
  then show ?thesis using assms
    by (auto simp: step_def Sup_recover_def aux_defs inv_swg_def Let_def live_append live_update_same split: if_splits main_pc.splits option.splits sup_pc.splits collect_result.splits write_result.splits watcher_pc.splits)
next
  case (SupClose i err)
  then show ?thesis using assms
    by (auto simp: step_def Sup_close_def aux_defs inv_swg_def Let_def live_append live_update_same split: if_splits main_pc.splits option.splits sup_pc.splits collect_result.splits write_result.splits watcher_pc.splits)
next
  case (SupFinish i)
  then show ?thesis using assms
    by (auto simp: step_def Sup_finish_def aux_defs inv_swg_def Let_def dest: live_update_exit[where q="(sups s ! i)\<lparr>pc := SExit\<rparr>"] split: if_splits option.splits sup_pc.splits)
next
  case WatchOuter
  then show ?thesis using assms
    by (auto simp: step_def Watch_outer_def aux_defs inv_swg_def Let_def live_append live_update_same split: if_splits main_pc.splits option.splits sup_pc.splits collect_result.splits write_result.splits watcher_pc.splits)
next
  case WatchStreaming
  then show ?thesis using assms
    by (auto simp: step_def Watch_streaming_def aux_defs inv_swg_def Let_def live_append live_update_same split: if_splits main_pc.splits option.splits sup_pc.splits collect_result.splits write_result.splits watcher_pc.splits)
next
  case WatchCancel
  then show ?thesis using assms
    by (auto simp: step_def Watch_cancel_def aux_defs inv_swg_def Let_def live_append live_update_same split: if_splits main_pc.splits option.splits sup_pc.splits collect_result.splits write_result.splits watcher_pc.splits)
next
  case WatchWait
  then show ?thesis using assms
    by (auto simp: step_def Watch_wait_def aux_defs inv_swg_def Let_def live_append live_update_same split: if_splits main_pc.splits option.splits sup_pc.splits collect_result.splits write_result.splits watcher_pc.splits)
next
  case WatchLock
  then show ?thesis using assms
    by (auto simp: step_def Watch_lock_def aux_defs inv_swg_def Let_def live_append live_update_same split: if_splits main_pc.splits option.splits sup_pc.splits collect_result.splits write_result.splits watcher_pc.splits)
next
  case (WatchSession err)
  then show ?thesis using assms
    by (auto simp: step_def Watch_session_def aux_defs inv_swg_def Let_def live_append live_update_same split: if_splits main_pc.splits option.splits sup_pc.splits collect_result.splits write_result.splits watcher_pc.splits)
next
  case (WatchClient err)
  then show ?thesis using assms
    by (auto simp: step_def Watch_client_def aux_defs inv_swg_def Let_def live_append live_update_same split: if_splits main_pc.splits option.splits sup_pc.splits collect_result.splits write_result.splits watcher_pc.splits)
next
  case WatchMark
  then show ?thesis using assms
    by (auto simp: step_def Watch_mark_def aux_defs inv_swg_def Let_def live_append live_update_same split: if_splits main_pc.splits option.splits sup_pc.splits collect_result.splits write_result.splits watcher_pc.splits)
next
  case WatchLog
  then show ?thesis using assms
    by (auto simp: step_def Watch_log_def aux_defs inv_swg_def Let_def live_append live_update_same split: if_splits main_pc.splits option.splits sup_pc.splits collect_result.splits write_result.splits watcher_pc.splits)
next
  case WatchFinish
  then show ?thesis using assms
    by (auto simp: step_def Watch_finish_def aux_defs inv_swg_def Let_def live_append live_update_same split: if_splits main_pc.splits option.splits sup_pc.splits collect_result.splits write_result.splits watcher_pc.splits)
qed

lemma inv_mc_step:
  assumes "inv_mc s" "inv_idx s" "step a s = Some s'"
  shows "inv_mc s'"
proof (cases a)
  case (Advance d)
  then show ?thesis using assms(1,3)
    by (auto simp: step_def aux_defs inv_mc_def Let_def map_mc_update split: if_splits main_pc.splits option.splits sup_pc.splits collect_result.splits write_result.splits watcher_pc.splits)
next
  case CancelOuter
  then show ?thesis using assms(1,3)
    by (auto simp: step_def aux_defs inv_mc_def Let_def map_mc_update split: if_splits main_pc.splits option.splits sup_pc.splits collect_result.splits write_result.splits watcher_pc.splits)
next
  case (StartCreate rid err)
  then show ?thesis using assms(1,3)
    by (auto simp: step_def Start_create_def aux_defs inv_mc_def Let_def map_mc_update split: if_splits main_pc.splits option.splits sup_pc.splits collect_result.splits write_result.splits watcher_pc.splits)
next
  case (StartOpen err)
  then show ?thesis using assms
    by (auto simp: step_def Start_open_def aux_defs inv_mc_def inv_idx_def Let_def take_Suc_conv_app_nth split: if_splits main_pc.splits option.splits sup_pc.splits collect_result.splits write_result.splits watcher_pc.splits)
next
  case StartWatch
  then show ?thesis using assms(1,3)
    by (auto simp: step_def Start_watch_def aux_defs inv_mc_def Let_def map_mc_update split: if_splits main_pc.splits option.splits sup_pc.splits collect_result.splits write_result.splits watcher_pc.splits)
next
  case CloseCheck
  then show ?thesis using assms(1,3)
    by (auto simp: step_def Close_check_def aux_defs inv_mc_def Let_def map_mc_update split: if_splits main_pc.splits option.splits sup_pc.splits collect_result.splits write_result.splits watcher_pc.splits)
next
  case CloseCancel
  then show ?thesis using assms(1,3)
    by (auto simp: step_def Close_cancel_def aux_defs inv_mc_def Let_def map_mc_update split: if_splits main_pc.splits option.splits sup_pc.splits collect_result.splits write_result.splits watcher_pc.splits)
next
  case CloseWait
  then show ?thesis using assms(1,3)
    by (auto simp: step_def Close_wait_def aux_defs inv_mc_def Let_def map_mc_update split: if_splits main_pc.splits option.splits sup_pc.splits collect_result.splits write_result.splits watcher_pc.splits)
next
  case (SupInit i)
  then show ?thesis using assms(1,3)
    by (auto simp: step_def Sup_init_def aux_defs inv_mc_def Let_def map_mc_update split: if_splits main_pc.splits option.splits sup_pc.splits collect_result.splits write_result.splits watcher_pc.splits)
next
  case (SupCtxDone i)
  then show ?thesis using assms(1,3)
    by (auto simp: step_def Sup_ctx_done_def aux_defs inv_mc_def Let_def map_mc_update split: if_splits main_pc.splits option.splits sup_pc.splits collect_result.splits write_result.splits watcher_pc.splits)
next
  case (SupCollect i)
  then show ?thesis using assms(1,3)
    by (auto simp: step_def Sup_collect_def aux_defs inv_mc_def Let_def map_mc_update split: if_splits main_pc.splits option.splits sup_pc.splits collect_result.splits write_result.splits watcher_pc.splits)
next
  case (SupWrite i r)
  then show ?thesis using assms(1,3)
    by (auto simp: step_def Sup_write_def aux_defs inv_mc_def Let_def map_mc_update split: if_splits main_pc.splits option.splits sup_pc.splits collect_result.splits write_result.splits watcher_pc.splits)
next
  case (SupRecover i)
  then show ?thesis using assms(1,3)
    by (auto simp: step_def Sup_recover_def aux_defs inv_mc_def Let_def map_mc_update split: if_splits main_pc.splits option.splits sup_pc.splits collect_result.splits write_result.splits watcher_pc.splits)
next
  case (SupClose i err)
  then show ?thesis using assms(1,3)
    by (auto simp: step_def Sup_close_def aux_defs inv_mc_def Let_def map_mc_update split: if_splits main_pc.splits option.splits sup_pc.splits collect_result.splits write_result.splits watcher_pc.splits)
next
  case (SupFinish i)
  then show ?thesis using assms(1,3)
    by (auto simp: step_def Sup_finish_def aux_defs inv_mc_def Let_def map_mc_update split: if_splits main_pc.splits option.splits sup_pc.splits collect_result.splits write_result.splits watcher_pc.splits)
next
  case WatchOuter
  then show ?thesis using assms(1,3)
    by (auto simp: step_def Watch_outer_def aux_defs inv_mc_def Let_def map_mc_update split: if_splits main_pc.splits option.splits sup_pc.splits collect_result.splits write_result.splits watcher_pc.splits)
next
  case WatchStreaming
  then show ?thesis using assms(1,3)
    by (auto simp: step_def Watch_streaming_def aux_defs inv_mc_def Let_def map_mc_update split: if_splits main_pc.splits option.splits sup_pc.splits collect_result.splits write_result.splits watcher_pc.splits)
next
  case WatchCancel
  then show ?thesis using assms(1,3)
    by (auto simp: step_def Watch_cancel_def aux_defs inv_mc_def Let_def map_mc_update split: if_splits main_pc.splits option.splits sup_pc.splits collect_result.splits write_result.splits watcher_pc.splits)
next
  case WatchWait
  then show ?thesis using assms(1,3)
    by (auto simp: step_def Watch_wait_def aux_defs inv_mc_def Let_def map_mc_update split: if_splits main_pc.splits option.splits sup_pc.splits collect_result.splits write_result.splits watcher_pc.splits)
next
  case WatchLock
  then show ?thesis using assms(1,3)
    by (auto simp: step_def Watch_lock_def aux_defs inv_mc_def Let_def map_mc_update split: if_splits main_pc.splits option.splits sup_pc.splits collect_result.splits write_result.splits watcher_pc.splits)
next
  case (WatchSession err)
  then show ?thesis using assms(1,3)
    by (auto simp: step_def Watch_session_def aux_defs inv_mc_def Let_def map_mc_update split: if_splits main_pc.splits option.splits sup_pc.splits collect_result.splits write_result.splits watcher_pc.splits)
next
  case (WatchClient err)
  then show ?thesis using assms(1,3)
    by (auto simp: step_def Watch_client_def aux_defs inv_mc_def Let_def map_mc_update split: if_splits main_pc.splits option.splits sup_pc.splits collect_result.splits write_result.splits watcher_pc.splits)
next
  case WatchMark
  then show ?thesis using assms(1,3)
    by (auto simp: step_def Watch_mark_def aux_defs inv_mc_def Let_def map_mc_update split: if_splits main_pc.splits option.splits sup_pc.splits collect_result.splits write_result.splits watcher_pc.splits)
next
  case WatchLog
  then show ?thesis using assms(1,3)
    by (auto simp: step_def Watch_log_def aux_defs inv_mc_def Let_def map_mc_update split: if_splits main_pc.splits option.splits sup_pc.splits collect_result.splits write_result.splits watcher_pc.splits)
next
  case WatchFinish
  then show ?thesis using assms(1,3)
    by (auto simp: step_def Watch_finish_def aux_defs inv_mc_def Let_def map_mc_update split: if_splits main_pc.splits option.splits sup_pc.splits collect_result.splits write_result.splits watcher_pc.splits)
qed

lemma inv_exit_step:
  assumes "inv_exit s" "inv_swg s" "inv_idx s" "step a s = Some s'"
  shows "inv_exit s'"
proof (cases a)
  case (Advance d)
  then show ?thesis using assms(1,4)
    by (auto simp: step_def aux_defs inv_exit_def Let_def live_update_same split: if_splits main_pc.splits option.splits sup_pc.splits collect_result.splits write_result.splits watcher_pc.splits dest: live_exit_nth)
next
  case CancelOuter
  then show ?thesis using assms(1,4)
    by (auto simp: step_def aux_defs inv_exit_def Let_def live_update_same split: if_splits main_pc.splits option.splits sup_pc.splits collect_result.splits write_result.splits watcher_pc.splits dest: live_exit_nth)
next
  case (StartCreate rid err)
  then show ?thesis using assms(1,4)
    by (auto simp: step_def Start_create_def aux_defs inv_exit_def Let_def live_update_same split: if_splits main_pc.splits option.splits sup_pc.splits collect_result.splits write_result.splits watcher_pc.splits dest: live_exit_nth)
next
  case (StartOpen err)
  then show ?thesis using assms
    by (auto simp: step_def Start_open_def aux_defs inv_exit_def inv_idx_def Let_def split: if_splits main_pc.splits option.splits sup_pc.splits collect_result.splits write_result.splits watcher_pc.splits dest: live_exit_nth)
next
  case StartWatch
  then show ?thesis using assms(1,4)
    by (auto simp: step_def Start_watch_def aux_defs inv_exit_def Let_def live_update_same split: if_splits main_pc.splits option.splits sup_pc.splits collect_result.splits write_result.splits watcher_pc.splits dest: live_exit_nth)
next
  case CloseCheck
  then show ?thesis using assms(1,4)
    by (auto simp: step_def Close_check_def aux_defs inv_exit_def Let_def live_update_same split: if_splits main_pc.splits option.splits sup_pc.splits collect_result.splits write_result.splits watcher_pc.splits dest: live_exit_nth)
next
  case CloseCancel
  then show ?thesis using assms(1,4)
    by (auto simp: step_def Close_cancel_def aux_defs inv_exit_def Let_def live_update_same split: if_splits main_pc.splits option.splits sup_pc.splits collect_result.splits write_result.splits watcher_pc.splits dest: live_exit_nth)
next
  case CloseWait
  then show ?thesis using assms(1,4)
    by (auto simp: step_def Close_wait_def aux_defs inv_exit_def Let_def live_update_same split: if_splits main_pc.splits option.splits sup_pc.splits collect_result.splits write_result.splits watcher_pc.splits dest: live_exit_nth)
next
  case (SupInit i)
  then show ?thesis using assms(1,4)
    by (auto simp: step_def Sup_init_def aux_defs inv_exit_def Let_def live_update_same split: if_splits main_pc.splits option.splits sup_pc.splits collect_result.splits write_result.splits watcher_pc.splits dest: live_exit_nth)
next
  case (SupCtxDone i)
  then show ?thesis using assms(1,4)
    by (auto simp: step_def Sup_ctx_done_def aux_defs inv_exit_def Let_def live_update_same split: if_splits main_pc.splits option.splits sup_pc.splits collect_result.splits write_result.splits watcher_pc.splits dest: live_exit_nth)
next
  case (SupCollect i)
  then show ?thesis using assms(1,4)
    by (auto simp: step_def Sup_collect_def aux_defs inv_exit_def Let_def live_update_same split: if_splits main_pc.splits option.splits sup_pc.splits collect_result.splits write_result.splits watcher_pc.splits dest: live_exit_nth)
next
  case (SupWrite i r)
  then show ?thesis using assms(1,4)
    by (auto simp: step_def Sup_write_def aux_defs inv_exit_def Let_def live_update_same split: if_splits main_pc.splits option.splits sup_pc.splits collect_result.splits write_result.splits watcher_pc.splits dest: live_exit_nth)
next
  case (SupRecover i)
  then show ?thesis using assms(1,4)
    by (auto simp: step_def Sup_recover_def aux_defs inv_exit_def Let_def live_update_same split: if_splits main_pc.splits option.splits sup_pc.splits collect_result.splits write_result.splits watcher_pc.splits dest: live_exit_nth)
next
  case (SupClose i err)
  then show ?thesis using assms(1,4)
    by (auto simp: step_def Sup_close_def aux_defs inv_exit_def Let_def live_update_same split: if_splits main_pc.splits option.splits sup_pc.splits collect_result.splits write_result.splits watcher_pc.splits dest: live_exit_nth)
next
  case (SupFinish i)
  then show ?thesis using assms(1,4)
    by (auto simp: step_def Sup_finish_def aux_defs inv_exit_def Let_def live_update_same split: if_splits main_pc.splits option.splits sup_pc.splits collect_result.splits write_result.splits watcher_pc.splits dest: live_exit_nth)
next
  case WatchOuter
  then show ?thesis using assms(1,4)
    by (auto simp: step_def Watch_outer_def aux_defs inv_exit_def Let_def live_update_same split: if_splits main_pc.splits option.splits sup_pc.splits collect_result.splits write_result.splits watcher_pc.splits dest: live_exit_nth)
next
  case WatchStreaming
  then show ?thesis using assms(1,4)
    by (auto simp: step_def Watch_streaming_def aux_defs inv_exit_def Let_def live_update_same split: if_splits main_pc.splits option.splits sup_pc.splits collect_result.splits write_result.splits watcher_pc.splits dest: live_exit_nth)
next
  case WatchCancel
  then show ?thesis using assms(1,4)
    by (auto simp: step_def Watch_cancel_def aux_defs inv_exit_def Let_def live_update_same split: if_splits main_pc.splits option.splits sup_pc.splits collect_result.splits write_result.splits watcher_pc.splits dest: live_exit_nth)
next
  case WatchWait
  then show ?thesis using assms
    by (auto simp: step_def Watch_wait_def aux_defs inv_exit_def inv_swg_def Let_def split: if_splits main_pc.splits option.splits sup_pc.splits collect_result.splits write_result.splits watcher_pc.splits dest: live_exit_nth)
next
  case WatchLock
  then show ?thesis using assms(1,4)
    by (auto simp: step_def Watch_lock_def aux_defs inv_exit_def Let_def live_update_same split: if_splits main_pc.splits option.splits sup_pc.splits collect_result.splits write_result.splits watcher_pc.splits dest: live_exit_nth)
next
  case (WatchSession err)
  then show ?thesis using assms(1,4)
    by (auto simp: step_def Watch_session_def aux_defs inv_exit_def Let_def live_update_same split: if_splits main_pc.splits option.splits sup_pc.splits collect_result.splits write_result.splits watcher_pc.splits dest: live_exit_nth)
next
  case (WatchClient err)
  then show ?thesis using assms(1,4)
    by (auto simp: step_def Watch_client_def aux_defs inv_exit_def Let_def live_update_same split: if_splits main_pc.splits option.splits sup_pc.splits collect_result.splits write_result.splits watcher_pc.splits dest: live_exit_nth)
next
  case WatchMark
  then show ?thesis using assms(1,4)
    by (auto simp: step_def Watch_mark_def aux_defs inv_exit_def Let_def live_update_same split: if_splits main_pc.splits option.splits sup_pc.splits collect_result.splits write_result.splits watcher_pc.splits dest: live_exit_nth)
next
  case WatchLog
  then show ?thesis using assms(1,4)
    by (auto simp: step_def Watch_log_def aux_defs inv_exit_def Let_def live_update_same split: if_splits main_pc.splits option.splits sup_pc.splits collect_result.splits write_result.splits watcher_pc.splits dest: live_exit_nth)
next
  case WatchFinish
  then show ?thesis using assms(1,4)
    by (auto simp: step_def Watch_finish_def aux_defs inv_exit_def Let_def live_update_same split: if_splits main_pc.splits option.splits sup_pc.splits collect_result.splits write_result.splits watcher_pc.splits dest: live_exit_nth)
qed


subsection \<open>Events and state\<close>

lemma errs_of_append: "errs_of (xs @ ys) = errs_of xs @ errs_of ys"
  by (induction xs rule: errs_of.induct) auto

lemma errs_of_nonempty: "errs_of es \<noteq> [] \<longleftrightarrow> (\<exists>e. EvCatch e \<in> set es)"
  by (induction es rule: errs_of.induct) auto

lemma sclosed_append: "sclosed (xs @ ys) = sclosed xs \<union> sclosed ys"
  by (induction xs rule: sclosed.induct) auto

lemma sclosed_mem: "i \<in> sclosed es \<longleftrightarrow> EvStreamClose i \<in> set es"
  by (induction es rule: sclosed.induct) auto

lemma closed_idx_append:
  "closed_idx (ps @ [p]) = closed_idx ps \<union> (if sdone (pc p) then {length ps} else {})"
  by (auto simp: closed_idx_def nth_append less_Suc_eq)

lemma closed_idx_update_same:
  "i < length ps \<Longrightarrow> sdone (pc q) = sdone (pc (ps ! i)) \<Longrightarrow> closed_idx (ps[i := q]) = closed_idx ps"
  by (auto simp: closed_idx_def nth_list_update)

lemma closed_idx_update_in:
  "i < length ps \<Longrightarrow> sdone (pc q) \<Longrightarrow> closed_idx (ps[i := q]) = insert i (closed_idx ps)"
  by (auto simp: closed_idx_def nth_list_update)

lemma inv_sess_step:
  assumes "inv_sess s" "inv_fresh s" "inv_client s" "inv_idx s" "step a s = Some s'"
  shows "inv_sess s'"
proof (cases a)
  case (Advance d)
  then show ?thesis using assms(1,5)
    by (auto simp: step_def aux_defs inv_sess_def Let_def split: if_splits main_pc.splits option.splits sup_pc.splits collect_result.splits write_result.splits watcher_pc.splits)
next
  case CancelOuter
  then show ?thesis using assms(1,5)
    by (auto simp: step_def aux_defs inv_sess_def Let_def split: if_splits main_pc.splits option.splits sup_pc.splits collect_result.splits write_result.splits watcher_pc.splits)
next
  case (StartCreate rid err)
  then show ?thesis using assms
    by (auto simp: step_def Start_create_def aux_defs inv_sess_def inv_fresh_def Let_def split: if_splits main_pc.splits option.splits sup_pc.splits collect_result.splits write_result.splits watcher_pc.splits)
next
  case (StartOpen err)
  then show ?thesis using assms(1,5)
    by (auto simp: step_def Start_open_def aux_defs inv_sess_def Let_def split: if_splits main_pc.splits option.splits sup_pc.splits collect_result.splits write_result.splits watcher_pc.splits)
next
  case StartWatch
  then show ?thesis using assms
    by (auto simp: step_def Start_watch_def aux_defs inv_sess_def inv_idx_def Let_def split: if_splits main_pc.splits option.splits sup_pc.splits collect_result.splits write_result.splits watcher_pc.splits)
next
  case CloseCheck
  then show ?thesis using assms(1,5)
    by (auto simp: step_def Close_check_def aux_defs inv_sess_def Let_def split: if_splits main_pc.splits option.splits sup_pc.splits collect_result.splits write_result.splits watcher_pc.splits)
next
  case CloseCancel
  then show ?thesis using assms(1,5)
    by (auto simp: step_def Close_cancel_def aux_defs inv_sess_def Let_def split: if_splits main_pc.splits option.splits sup_pc.splits collect_result.splits write_result.splits watcher_pc.splits)
next
  case CloseWait
  then show ?thesis using assms(1,5)
    by (auto simp: step_def Close_wait_def aux_defs inv_sess_def Let_def split: if_splits main_pc.splits option.splits sup_pc.splits collect_result.splits write_result.splits watcher_pc.splits)
next
  case (SupInit i)
  then show ?thesis using assms(1,5)
    by (auto simp: step_def Sup_init_def aux_defs inv_sess_def Let_def split: if_splits main_pc.splits option.splits sup_pc.splits collect_result.splits write_result.splits watcher_pc.splits)
next
  case (SupCtxDone i)
  then show ?thesis using assms(1,5)
    by (auto simp: step_def Sup_ctx_done_def aux_defs inv_sess_def Let_def split: if_splits main_pc.splits option.splits sup_pc.splits collect_result.splits write_result.splits watcher_pc.splits)
next
  case (SupCollect i)
  then show ?thesis using assms(1,5)
    by (auto simp: step_def Sup_collect_def aux_defs inv_sess_def Let_def split: if_splits main_pc.splits option.splits sup_pc.splits collect_result.splits write_result.splits watcher_pc.splits)
next
  case (SupWrite i r)
  then show ?thesis using assms(1,5)
    by (auto simp: step_def Sup_write_def aux_defs inv_sess_def Let_def split: if_splits main_pc.splits option.splits sup_pc.splits collect_result.splits write_result.splits watcher_pc.splits)
next
  case (SupRecover i)
  then show ?thesis using assms(1,5)
    by (auto simp: step_def Sup_recover_def aux_defs inv_sess_def Let_def split: if_splits main_pc.splits option.splits sup_pc.splits collect_result.splits write_result.splits watcher_pc.splits)
next
  case (SupClose i err)
  then show ?thesis using assms(1,5)
    by (auto simp: step_def Sup_close_def aux_defs inv_sess_def Let_def split: if_splits main_pc.splits option.splits sup_pc.splits collect_result.splits write_result.splits watcher_pc.splits)
next
  case (SupFinish i)
  then show ?thesis using assms(1,5)
    by (auto simp: step_def Sup_finish_def aux_defs inv_sess_def Let_def split: if_splits main_pc.splits option.splits sup_pc.splits collect_result.splits write_result.splits watcher_pc.splits)
next
  case WatchOuter
  then show ?thesis using assms(1,5)
    by (auto simp: step_def Watch_outer_def aux_defs inv_sess_def Let_def split: if_splits main_pc.splits option.splits sup_pc.splits collect_result.splits write_result.splits watcher_pc.splits)
next
  case WatchStreaming
  then show ?thesis using assms(1,5)
    by (auto simp: step_def Watch_streaming_def aux_defs inv_sess_def Let_def split: if_splits main_pc.splits option.splits sup_pc.splits collect_result.splits write_result.splits watcher_pc.splits)
next
  case WatchCancel
  then show ?thesis using assms(1,5)
    by (auto simp: step_def Watch_cancel_def aux_defs inv_sess_def Let_def split: if_splits main_pc.splits option.splits sup_pc.splits collect_result.splits write_result.splits watcher_pc.splits)
next
  case WatchWait
  then show ?thesis using assms(1,5)
    by (auto simp: step_def Watch_wait_def aux_defs inv_sess_def Let_def split: if_splits main_pc.splits option.splits sup_pc.splits collect_result.splits write_result.splits watcher_pc.splits)
next
  case WatchLock
  then show ?thesis using assms(1,5)
    by (auto simp: step_def Watch_lock_def aux_defs inv_sess_def Let_def split: if_splits main_pc.splits option.splits sup_pc.splits collect_result.splits write_result.splits watcher_pc.splits)
next
  case (WatchSession err)
  then show ?thesis using assms
    by (auto simp: step_def Watch_session_def aux_defs inv_sess_def inv_client_def Let_def split: if_splits main_pc.splits option.splits sup_pc.splits collect_result.splits write_result.splits watcher_pc.splits)
next
  case (WatchClient err)
  then show ?thesis using assms(1,5)
    by (auto simp: step_def Watch_client_def aux_defs inv_sess_def Let_def split: if_splits main_pc.splits option.splits sup_pc.splits collect_result.splits write_result.splits watcher_pc.splits)
next
  case WatchMark
  then show ?thesis using assms(1,5)
    by (auto simp: step_def Watch_mark_def aux_defs inv_sess_def Let_def split: if_splits main_pc.splits option.splits sup_pc.splits collect_result.splits write_result.splits watcher_pc.splits)
next
  case WatchLog
  then show ?thesis using assms(1,5)
    by (auto simp: step_def Watch_log_def aux_defs inv_sess_def Let_def split: if_splits main_pc.splits option.splits sup_pc.splits collect_result.splits write_result.splits watcher_pc.splits)
next
  case WatchFinish
  then show ?thesis using assms(1,5)
    by (auto simp: step_def Watch_finish_def aux_defs inv_sess_def Let_def split: if_splits main_pc.splits option.splits sup_pc.splits collect_result.splits write_result.splits watcher_pc.splits)
qed

lemma inv_cli_step:
  assumes "inv_cli s" "inv_client s" "inv_idx s" "step a s = Some s'"
  shows "inv_cli s'"
proof (cases a)
  case (Advance d)
  then show ?thesis using assms(1,4)
    by (auto simp: step_def aux_defs inv_cli_def Let_def split: if_splits main_pc.splits option.splits sup_pc.splits collect_result.splits write_result.splits watcher_pc.splits)
next
  case CancelOuter
  then show ?thesis using assms(1,4)
    by (auto simp: step_def aux_defs inv_cli_def Let_def split: if_splits main_pc.splits option.splits sup_pc.splits collect_result.splits write_result.splits watcher_pc.splits)
next
  case (StartCreate rid err)
  then show ?thesis using assms(1,4)
    by (auto simp: step_def Start_create_def aux_defs inv_cli_def Let_def split: if_splits main_pc.splits option.splits sup_pc.splits collect_result.splits write_result.splits watcher_pc.splits)
next
  case (StartOpen err)
  then show ?thesis using assms(1,4)
    by (auto simp: step_def Start_open_def aux_defs inv_cli_def Let_def split: if_splits main_pc.splits option.splits sup_pc.splits collect_result.splits write_result.splits watcher_pc.splits)
next
  case StartWatch
  then show ?thesis using assms
    by (auto simp: step_def Start_watch_def aux_defs inv_cli_def inv_idx_def Let_def split: if_splits main_pc.splits option.splits sup_pc.splits collect_result.splits write_result.splits watcher_pc.splits)
next
  case CloseCheck
  then show ?thesis using assms(1,4)
    by (auto simp: step_def Close_check_def aux_defs inv_cli_def Let_def split: if_splits main_pc.splits option.splits sup_pc.splits collect_result.splits write_result.splits watcher_pc.splits)
next
  case CloseCancel
  then show ?thesis using assms(1,4)
    by (auto simp: step_def Close_cancel_def aux_defs inv_cli_def Let_def split: if_splits main_pc.splits option.splits sup_pc.splits collect_result.splits write_result.splits watcher_pc.splits)
next
  case CloseWait
  then show ?thesis using assms(1,4)
    by (auto simp: step_def Close_wait_def aux_defs inv_cli_def Let_def split: if_splits main_pc.splits option.splits sup_pc.splits collect_result.splits write_result.splits watcher_pc.splits)
next
  case (SupInit i)
  then show ?thesis using assms(1,4)
    by (auto simp: step_def Sup_init_def aux_defs inv_cli_def Let_def split: if_splits main_pc.splits option.splits sup_pc.splits collect_result.splits write_result.splits watcher_pc.splits)
next
  case (SupCtxDone i)
  then show ?thesis using assms(1,4)
    by (auto simp: step_def Sup_ctx_done_def aux_defs inv_cli_def Let_def split: if_splits main_pc.splits option.splits sup_pc.splits collect_result.splits write_result.splits watcher_pc.splits)
next
  case (SupCollect i)
  then show ?thesis using assms(1,4)
    by (auto simp: step_def Sup_collect_def aux_defs inv_cli_def Let_def split: if_splits main_pc.splits option.splits sup_pc.splits collect_result.splits write_result.splits watcher_pc.splits)
next
  case (SupWrite i r)
  then show ?thesis using assms(1,4)
    by (auto simp: step_def Sup_write_def aux_defs inv_cli_def Let_def split: if_splits main_pc.splits option.splits sup_pc.splits collect_result.splits write_result.splits watcher_pc.splits)
next
  case (SupRecover i)
  then show ?thesis using assms(1,4)
    by (auto simp: step_def Sup_recover_def aux_defs inv_cli_def Let_def split: if_splits main_pc.splits option.splits sup_pc.splits collect_result.splits write_result.splits watcher_pc.splits)
next
  case (SupClose i err)
  then show ?thesis using assms(1,4)
    by (auto simp: step_def Sup_close_def aux_defs inv_cli_def Let_def split: if_splits main_pc.splits option.splits sup_pc.splits collect_result.splits write_result.splits watcher_pc.splits)
next
  case (SupFinish i)
  then show ?thesis using assms(1,4)
    by (auto simp: step_def Sup_finish_def aux_defs inv_cli_def Let_def split: if_splits main_pc.splits option.splits sup_pc.splits collect_result.splits write_result.splits watcher_pc.splits)
next
  case WatchOuter
  then show ?thesis using assms(1,4)
    by (auto simp: step_def Watch_outer_def aux_defs inv_cli_def Let_def split: if_splits main_pc.splits option.splits sup_pc.splits collect_result.splits write_result.splits watcher_pc.splits)
next
  case WatchStreaming
  then show ?thesis using assms(1,4)
    by (auto simp: step_def Watch_streaming_def aux_defs inv_cli_def Let_def split: if_splits main_pc.splits option.splits sup_pc.splits collect_result.splits write_result.splits watcher_pc.splits)
next
  case WatchCancel
  then show ?thesis using assms(1,4)
    by (auto simp: step_def Watch_cancel_def aux_defs inv_cli_def Let_def split: if_splits main_pc.splits option.splits sup_pc.splits collect_result.splits write_result.splits watcher_pc.splits)
next
  case WatchWait
  then show ?thesis using assms(1,4)
    by (auto simp: step_def Watch_wait_def aux_defs inv_cli_def Let_def split: if_splits main_pc.splits option.splits sup_pc.splits collect_result.splits write_result.splits watcher_pc.splits)
next
  case WatchLock
  then show ?thesis using assms(1,4)
    by (auto simp: step_def Watch_lock_def aux_defs inv_cli_def Let_def split: if_splits main_pc.splits option.splits sup_pc.splits collect_result.splits write_result.splits watcher_pc.splits)
next
  case (WatchSession err)
  then show ?thesis using assms
    by (auto simp: step_def Watch_session_def aux_defs inv_cli_def inv_client_def Let_def split: if_splits main_pc.splits option.splits sup_pc.splits collect_result.splits write_result.splits watcher_pc.splits)
next
  case (WatchClient err)
  then show ?thesis using assms(1,4)
    by (auto simp: step_def Watch_client_def aux_defs inv_cli_def Let_def split: if_splits main_pc.splits option.splits sup_pc.splits collect_result.splits write_result.splits watcher_pc.splits)
next
  case WatchMark
  then show ?thesis using assms(1,4)
    by (auto simp: step_def Watch_mark_def aux_defs inv_cli_def Let_def split: if_splits main_pc.splits option.splits sup_pc.splits collect_result.splits write_result.splits watcher_pc.splits)
next
  case WatchLog
  then show ?thesis using assms(1,4)
    by (auto simp: step_def Watch_log_def aux_defs inv_cli_def Let_def split: if_splits main_pc.splits option.splits sup_pc.splits collect_result.splits write_result.splits watcher_pc.splits)
next
  case WatchFinish
  then show ?thesis using assms(1,4)
    by (auto simp: step_def Watch_finish_def aux_defs inv_cli_def Let_def split: if_splits main_pc.splits option.splits sup_pc.splits collect_result.splits write_result.splits watcher_pc.splits)
qed

lemma inv_catch_step:
  assumes "inv_catch s" "step a s = Some s'"
  shows "inv_catch s'"
proof (cases a)
  case (Advance d)
  then show ?thesis using assms
    by (auto simp: step_def aux_defs inv_catch_def Let_def errs_of_append Add_def wrap_def split: if_splits main_pc.splits option.splits sup_pc.splits collect_result.splits write_result.splits watcher_pc.splits)
next
  case CancelOuter
  then show ?thesis using assms
    by (auto simp: step_def aux_defs inv_catch_def Let_def errs_of_append Add_def wrap_def split: if_splits main_pc.splits option.splits sup_pc.splits collect_result.splits write_result.splits watcher_pc.splits)
next
  case (StartCreate rid err)
  then show ?thesis using assms
    by (auto simp: step_def Start_create_def aux_defs inv_catch_def Let_def errs_of_append Add_def wrap_def split: if_splits main_pc.splits option.splits sup_pc.splits collect_result.splits write_result.splits watcher_pc.splits)
next
  case (StartOpen err)
  then show ?thesis using assms
    by (auto simp: step_def Start_open_def aux_defs inv_catch_def Let_def errs_of_append Add_def wrap_def split: if_splits main_pc.splits option.splits sup_pc.splits collect_result.splits write_result.splits watcher_pc.splits)
next
  case StartWatch
  then show ?thesis using assms
    by (auto simp: step_def Start_watch_def aux_defs inv_catch_def Let_def errs_of_append Add_def wrap_def split: if_splits main_pc.splits option.splits sup_pc.splits collect_result.splits write_result.splits watcher_pc.splits)
next
  case CloseCheck
  then show ?thesis using assms
    by (auto simp: step_def Close_check_def aux_defs inv_catch_def Let_def errs_of_append Add_def wrap_def split: if_splits main_pc.splits option.splits sup_pc.splits collect_result.splits write_result.splits watcher_pc.splits)
next
  case CloseCancel
  then show ?thesis using assms
    by (auto simp: step_def Close_cancel_def aux_defs inv_catch_def Let_def errs_of_append Add_def wrap_def split: if_splits main_pc.splits option.splits sup_pc.splits collect_result.splits write_result.splits watcher_pc.splits)
next
  case CloseWait
  then show ?thesis using assms
    by (auto simp: step_def Close_wait_def aux_defs inv_catch_def Let_def errs_of_append Add_def wrap_def split: if_splits main_pc.splits option.splits sup_pc.splits collect_result.splits write_result.splits watcher_pc.splits)
next
  case (SupInit i)
  then show ?thesis using assms
    by (auto simp: step_def Sup_init_def aux_defs inv_catch_def Let_def errs_of_append Add_def wrap_def split: if_splits main_pc.splits option.splits sup_pc.splits collect_result.splits write_result.splits watcher_pc.splits)
next
  case (SupCtxDone i)
  then show ?thesis using assms
    by (auto simp: step_def Sup_ctx_done_def aux_defs inv_catch_def Let_def errs_of_append Add_def wrap_def split: if_splits main_pc.splits option.splits sup_pc.splits collect_result.splits write_result.splits watcher_pc.splits)
next
  case (SupCollect i)
  then show ?thesis using assms
    by (auto simp: step_def Sup_collect_def aux_defs inv_catch_def Let_def errs_of_append Add_def wrap_def split: if_splits main_pc.splits option.splits sup_pc.splits collect_result.splits write_result.splits watcher_pc.splits)
next
  case (SupWrite i r)
  then show ?thesis using assms
    by (auto simp: step_def Sup_write_def aux_defs inv_catch_def Let_def errs_of_append Add_def wrap_def split: if_splits main_pc.splits option.splits sup_pc.splits collect_result.splits write_result.splits watcher_pc.splits)
next
  case (SupRecover i)
  then show ?thesis using assms
    by (auto simp: step_def Sup_recover_def aux_defs inv_catch_def Let_def errs_of_append Add_def wrap_def split: if_splits main_pc.splits option.splits sup_pc.splits collect_result.splits write_result.splits watcher_pc.splits)
next
  case (SupClose i err)
  then show ?thesis using assms
    by (auto simp: step_def Sup_close_def aux_defs inv_catch_def Let_def errs_of_append Add_def wrap_def split: if_splits main_pc.splits option.splits sup_pc.splits collect_result.splits write_result.splits watcher_pc.splits)
next
  case (SupFinish i)
  then show ?thesis using assms
    by (auto simp: step_def Sup_finish_def aux_defs inv_catch_def Let_def errs_of_append Add_def wrap_def split: if_splits main_pc.splits option.splits sup_pc.splits collect_result.splits write_result.splits watcher_pc.splits)
next
  case WatchOuter
  then show ?thesis using assms
    by (auto simp: step_def Watch_outer_def aux_defs inv_catch_def Let_def errs_of_append Add_def wrap_def split: if_splits main_pc.splits option.splits sup_pc.splits collect_result.splits write_result.splits watcher_pc.splits)
next
  case WatchStreaming
  then show ?thesis using assms
    by (auto simp: step_def Watch_streaming_def aux_defs inv_catch_def Let_def errs_of_append Add_def wrap_def split: if_splits main_pc.splits option.splits sup_pc.splits collect_result.splits write_result.splits watcher_pc.splits)
next
  case WatchCancel
  then show ?thesis using assms
    by (auto simp: step_def Watch_cancel_def aux_defs inv_catch_def Let_def errs_of_append Add_def wrap_def split: if_splits main_pc.splits option.splits sup_pc.splits collect_result.splits write_result.splits watcher_pc.splits)
next
  case WatchWait
  then show ?thesis using assms
    by (auto simp: step_def Watch_wait_def aux_defs inv_catch_def Let_def errs_of_append Add_def wrap_def split: if_splits main_pc.splits option.splits sup_pc.splits collect_result.splits write_result.splits watcher_pc.splits)
next
  case WatchLock
  then show ?thesis using assms
    by (auto simp: step_def Watch_lock_def aux_defs inv_catch_def Let_def errs_of_append Add_def wrap_def split: if_splits main_pc.splits option.splits sup_pc.splits collect_result.splits write_result.splits watcher_pc.splits)
next
  case (WatchSession err)
  then show ?thesis using assms
    by (auto simp: step_def Watch_session_def aux_defs inv_catch_def Let_def errs_of_append Add_def wrap_def split: if_splits main_pc.splits option.splits sup_pc.splits collect_result.splits write_result.splits watcher_pc.splits)
next
  case (WatchClient err)
  then show ?thesis using assms
    by (auto simp: step_def Watch_client_def aux_defs inv_catch_def Let_def errs_of_append Add_def wrap_def split: if_splits main_pc.splits option.splits sup_pc.splits collect_result.splits write_result.splits watcher_pc.splits)
next
  case WatchMark
  then show ?thesis using assms
    by (auto simp: step_def Watch_mark_def aux_defs inv_catch_def Let_def errs_of_append Add_def wrap_def split: if_splits main_pc.splits option.splits sup_pc.splits collect_result.splits write_result.splits watcher_pc.splits)
next
  case WatchLog
  then show ?thesis using assms
    by (auto simp: step_def Watch_log_def aux_defs inv_catch_def Let_def errs_of_append Add_def wrap_def split: if_splits main_pc.splits option.splits sup_pc.splits collect_result.splits write_result.splits watcher_pc.splits)
next
  case WatchFinish
  then show ?thesis using assms
    by (auto simp: step_def Watch_finish_def aux_defs inv_catch_def Let_def errs_of_append Add_def wrap_def split: if_splits main_pc.splits option.splits sup_pc.splits collect_result.splits write_result.splits watcher_pc.splits)
qed

lemma inv_sclose_step:
  assumes "inv_sclose s" "step a s = Some s'"
  shows "inv_sclose s'"
proof (cases a)
  case (Advance d)
  then show ?thesis using assms
    by (auto simp: step_def aux_defs inv_sclose_def Let_def sclosed_append closed_idx_append closed_idx_update_same closed_idx_update_in wrap_def split: if_splits main_pc.splits option.splits sup_pc.splits collect_result.splits write_result.splits watcher_pc.splits)
next
  case CancelOuter
  then show ?thesis using assms
    by (auto simp: step_def aux_defs inv_sclose_def Let_def sclosed_append closed_idx_append closed_idx_update_same closed_idx_update_in wrap_def split: if_splits main_pc.splits option.splits sup_pc.splits collect_result.splits write_result.splits watcher_pc.splits)
next
  case (StartCreate rid err)
  then show ?thesis using assms
    by (auto simp: step_def Start_create_def aux_defs inv_sclose_def Let_def sclosed_append closed_idx_append closed_idx_update_same closed_idx_update_in wrap_def split: if_splits main_pc.splits option.splits sup_pc.splits collect_result.splits write_result.splits watcher_pc.splits)
next
  case (StartOpen err)
  then show ?thesis using assms
    by (auto simp: step_def Start_open_def aux_defs inv_sclose_def Let_def sclosed_append closed_idx_append closed_idx_update_same closed_idx_update_in wrap_def split: if_splits main_pc.splits option.splits sup_pc.splits collect_result.splits write_result.splits watcher_pc.splits)
next
  case StartWatch
  then show ?thesis using assms
    by (auto simp: step_def Start_watch_def aux_defs inv_sclose_def Let_def sclosed_append closed_idx_append closed_idx_update_same closed_idx_update_in wrap_def split: if_splits main_pc.splits option.splits sup_pc.splits collect_result.splits write_result.splits watcher_pc.splits)
next
  case CloseCheck
  then show ?thesis using assms
    by (auto simp: step_def Close_check_def aux_defs inv_sclose_def Let_def sclosed_append closed_idx_append closed_idx_update_same closed_idx_update_in wrap_def split: if_splits main_pc.splits option.splits sup_pc.splits collect_result.splits write_result.splits watcher_pc.splits)
next
  case CloseCancel
  then show ?thesis using assms
    by (auto simp: step_def Close_cancel_def aux_defs inv_sclose_def Let_def sclosed_append closed_idx_append closed_idx_update_same closed_idx_update_in wrap_def split: if_splits main_pc.splits option.splits sup_pc.splits collect_result.splits write_result.splits watcher_pc.splits)
next
  case CloseWait
  then show ?thesis using assms
    by (auto simp: step_def Close_wait_def aux_defs inv_sclose_def Let_def sclosed_append closed_idx_append closed_idx_update_same closed_idx_update_in wrap_def split: if_splits main_pc.splits option.splits sup_pc.splits collect_result.splits write_result.splits watcher_pc.splits)
next
  case (SupInit i)
  then show ?thesis using assms
    by (auto simp: step_def Sup_init_def aux_defs inv_sclose_def Let_def sclosed_append closed_idx_append closed_idx_update_same closed_idx_update_in wrap_def split: if_splits main_pc.splits option.splits sup_pc.splits collect_result.splits write_result.splits watcher_pc.splits)
next
  case (SupCtxDone i)
  then show ?thesis using assms
    by (auto simp: step_def Sup_ctx_done_def aux_defs inv_sclose_def Let_def sclosed_append closed_idx_append closed_idx_update_same closed_idx_update_in wrap_def split: if_splits main_pc.splits option.splits sup_pc.splits collect_result.splits write_result.splits watcher_pc.splits)
next
  case (SupCollect i)
  then show ?thesis using assms
    by (auto simp: step_def Sup_collect_def aux_defs inv_sclose_def Let_def sclosed_append closed_idx_append closed_idx_update_same closed_idx_update_in wrap_def split: if_splits main_pc.splits option.splits sup_pc.splits collect_result.splits write_result.splits watcher_pc.splits)
next
  case (SupWrite i r)
  then show ?thesis using assms
    by (auto simp: step_def Sup_write_def aux_defs inv_sclose_def Let_def sclosed_append closed_idx_append closed_idx_update_same closed_idx_update_in wrap_def split: if_splits main_pc.splits option.splits sup_pc.splits collect_result.splits write_result.splits watcher_pc.splits)
next
  case (SupRecover i)
  then show ?thesis using assms
    by (auto simp: step_def Sup_recover_def aux_defs inv_sclose_def Let_def sclosed_append closed_idx_append closed_idx_update_same closed_idx_update_in wrap_def split: if_splits main_pc.splits option.splits sup_pc.splits collect_result.splits write_result.splits watcher_pc.splits)
next
  case (SupClose i err)
  then show ?thesis using assms
    by (auto simp: step_def Sup_close_def aux_defs inv_sclose_def Let_def sclosed_append closed_idx_append closed_idx_update_same closed_idx_update_in wrap_def split: if_splits main_pc.splits option.splits sup_pc.splits collect_result.splits write_result.splits watcher_pc.splits)
next
  case (SupFinish i)
  then show ?thesis using assms
    by (auto simp: step_def Sup_finish_def aux_defs inv_sclose_def Let_def sclosed_append closed_idx_append closed_idx_update_same closed_idx_update_in wrap_def split: if_splits main_pc.splits option.splits sup_pc.splits collect_result.splits write_result.splits watcher_pc.splits)
next
  case WatchOuter
  then show ?thesis using assms
    by (auto simp: step_def Watch_outer_def aux_defs inv_sclose_def Let_def sclosed_append closed_idx_append closed_idx_update_same closed_idx_update_in wrap_def split: if_splits main_pc.splits option.splits sup_pc.splits collect_result.splits write_result.splits watcher_pc.splits)
next
  case WatchStreaming
  then show ?thesis using assms
    by (auto simp: step_def Watch_streaming_def aux_defs inv_sclose_def Let_def sclosed_append closed_idx_append closed_idx_update_same closed_idx_update_in wrap_def split: if_splits main_pc.splits option.splits sup_pc.splits collect_result.splits write_result.splits watcher_pc.splits)
next
  case WatchCancel
  then show ?thesis using assms
    by (auto simp: step_def Watch_cancel_def aux_defs inv_sclose_def Let_def sclosed_append closed_idx_append closed_idx_update_same closed_idx_update_in wrap_def split: if_splits main_pc.splits option.splits sup_pc.splits collect_result.splits write_result.splits watcher_pc.splits)
next
  case WatchWait
  then show ?thesis using assms
    by (auto simp: step_def Watch_wait_def aux_defs inv_sclose_def Let_def sclosed_append closed_idx_append closed_idx_update_same closed_idx_update_in wrap_def split: if_splits main_pc.splits option.splits sup_pc.splits collect_result.splits write_result.splits watcher_pc.splits)
next
  case WatchLock
  then show ?thesis using assms
    by (auto simp: step_def Watch_lock_def aux_defs inv_sclose_def Let_def sclosed_append closed_idx_append closed_idx_update_same closed_idx_update_in wrap_def split: if_splits main_pc.splits option.splits sup_pc.splits collect_result.splits write_result.splits watcher_pc.splits)
next
  case (WatchSession err)
  then show ?thesis using assms
    by (auto simp: step_def Watch_session_def aux_defs inv_sclose_def Let_def sclosed_append closed_idx_append closed_idx_update_same closed_idx_update_in wrap_def split: if_splits main_pc.splits option.splits sup_pc.splits collect_result.splits write_result.splits watcher_pc.splits)
next
  case (WatchClient err)
  then show ?thesis using assms
    by (auto simp: step_def Watch_client_def aux_defs inv_sclose_def Let_def sclosed_append closed_idx_append closed_idx_update_same closed_idx_update_in wrap_def split: if_splits main_pc.splits option.splits sup_pc.splits collect_result.splits write_result.splits watcher_pc.splits)
next
  case WatchMark
  then show ?thesis using assms
    by (auto simp: step_def Watch_mark_def aux_defs inv_sclose_def Let_def sclosed_append closed_idx_append closed_idx_update_same closed_idx_update_in wrap_def split: if_splits main_pc.splits option.splits sup_pc.splits collect_result.splits write_result.splits watcher_pc.splits)
next
  case WatchLog
  then show ?thesis using assms
    by (auto simp: step_def Watch_log_def aux_defs inv_sclose_def Let_def sclosed_append closed_idx_append closed_idx_update_same closed_idx_update_in wrap_def split: if_splits main_pc.splits option.splits sup_pc.splits collect_result.splits write_result.splits watcher_pc.splits)
next
  case WatchFinish
  then show ?thesis using assms
    by (auto simp: step_def Watch_finish_def aux_defs inv_sclose_def Let_def sclosed_append closed_idx_append closed_idx_update_same closed_idx_update_in wrap_def split: if_splits main_pc.splits option.splits sup_pc.splits collect_result.splits write_result.splits watcher_pc.splits)
qed

subsection \<open>Returns, logs and panics\<close>

lemma live_pos: "i < length ps \<Longrightarrow> pc (ps ! i) \<noteq> SExit \<Longrightarrow> 0 < live ps"
  using live_exit_nth by fastforce

lemma wrank_zero: "wrank w = 0 \<longleftrightarrow> w = WNone"
  by (cases w) auto

lemma wrank_done: "wrank w = 10 \<longleftrightarrow> (\<exists>b. w = WDone b)"
  by (cases w) auto

lemma has_ret_simps:
  "has_ret [] = False"
  "has_ret (e # es) \<longleftrightarrow> is_ret e \<or> has_ret es"
  "has_ret (es @ es') \<longleftrightarrow> has_ret es \<or> has_ret es'"
  by (auto simp: has_ret_def)

lemma has_ret_rev: "has_ret (rev es) = has_ret es"
  by (simp add: has_ret_def)

lemma inv_crash_step:
  assumes "inv_crash s" "inv_launched s" "inv_swg s" "inv_cwg s" "step a s = Some s'"
  shows "inv_crash s'"
proof (cases a)
  case (Advance d)
  then show ?thesis using assms(1,5)
    by (auto simp: step_def aux_defs inv_crash_def Let_def split: if_splits main_pc.splits option.splits sup_pc.splits collect_result.splits write_result.splits watcher_pc.splits)
next
  case CancelOuter
  then show ?thesis using assms(1,5)
    by (auto simp: step_def aux_defs inv_crash_def Let_def split: if_splits main_pc.splits option.splits sup_pc.splits collect_result.splits write_result.splits watcher_pc.splits)
next
  case (StartCreate rid err)
  then show ?thesis using assms(1,5)
    by (auto simp: step_def Start_create_def aux_defs inv_crash_def Let_def split: if_splits main_pc.splits option.splits sup_pc.splits collect_result.splits write_result.splits watcher_pc.splits)
next
  case (StartOpen err)
  then show ?thesis using assms(1,5)
    by (auto simp: step_def Start_open_def aux_defs inv_crash_def Let_def split: if_splits main_pc.splits option.splits sup_pc.splits collect_result.splits write_result.splits watcher_pc.splits)
next
  case StartWatch
  then show ?thesis using assms(1,5)
    by (auto simp: step_def Start_watch_def aux_defs inv_crash_def Let_def split: if_splits main_pc.splits option.splits sup_pc.splits collect_result.splits write_result.splits watcher_pc.splits)
next
  case CloseCheck
  then show ?thesis using assms(1,5)
    by (auto simp: step_def Close_check_def aux_defs inv_crash_def Let_def split: if_splits main_pc.splits option.splits sup_pc.splits collect_result.splits write_result.splits watcher_pc.splits)
next
  case CloseCancel
  then show ?thesis using assms(1,5)
    by (auto simp: step_def Close_cancel_def aux_defs inv_crash_def Let_def split: if_splits main_pc.splits option.splits sup_pc.splits collect_result.splits write_result.splits watcher_pc.splits)
next
  case CloseWait
  then show ?thesis using assms(1,5)
    by (auto simp: step_def Close_wait_def aux_defs inv_crash_def Let_def split: if_splits main_pc.splits option.splits sup_pc.splits collect_result.splits write_result.splits watcher_pc.splits)
next
  case (SupInit i)
  then show ?thesis using assms(1,5)
    by (auto simp: step_def Sup_init_def aux_defs inv_crash_def Let_def split: if_splits main_pc.splits option.splits sup_pc.splits collect_result.splits write_result.splits watcher_pc.splits)
next
  case (SupCtxDone i)
  then show ?thesis using assms(1,5)
    by (auto simp: step_def Sup_ctx_done_def aux_defs inv_crash_def Let_def split: if_splits main_pc.splits option.splits sup_pc.splits collect_result.splits write_result.splits watcher_pc.splits)
next
  case (SupCollect i)
  then show ?thesis using assms(1,5)
    by (auto simp: step_def Sup_collect_def aux_defs inv_crash_def Let_def split: if_splits main_pc.splits option.splits sup_pc.splits collect_result.splits write_result.splits watcher_pc.splits)
next
  case (SupWrite i r)
  then show ?thesis using assms(1,5)
    by (auto simp: step_def Sup_write_def aux_defs inv_crash_def Let_def split: if_splits main_pc.splits option.splits sup_pc.splits collect_result.splits write_result.splits watcher_pc.splits)
next
  case (SupRecover i)
  then show ?thesis using assms(1,5)
    by (auto simp: step_def Sup_recover_def aux_defs inv_crash_def Let_def split: if_splits main_pc.splits option.splits sup_pc.splits collect_result.splits write_result.splits watcher_pc.splits)
next
  case (SupClose i err)
  then show ?thesis using assms(1,5)
    by (auto simp: step_def Sup_close_def aux_defs inv_crash_def Let_def split: if_splits main_pc.splits option.splits sup_pc.splits collect_result.splits write_result.splits watcher_pc.splits)
next
  case (SupFinish i)
  then show ?thesis using assms
    by (auto simp: step_def Sup_finish_def aux_defs inv_crash_def inv_swg_def Let_def split: if_splits main_pc.splits option.splits sup_pc.splits collect_result.splits write_result.splits watcher_pc.splits dest: live_pos)
next
  case WatchOuter
  then show ?thesis using assms(1,5)
    by (auto simp: step_def Watch_outer_def aux_defs inv_crash_def Let_def split: if_splits main_pc.splits option.splits sup_pc.splits collect_result.splits write_result.splits watcher_pc.splits)
next
  case WatchStreaming
  then show ?thesis using assms(1,5)
    by (auto simp: step_def Watch_streaming_def aux_defs inv_crash_def Let_def split: if_splits main_pc.splits option.splits sup_pc.splits collect_result.splits write_result.splits watcher_pc.splits)
next
  case WatchCancel
  then show ?thesis using assms
    by (auto simp: step_def Watch_cancel_def aux_defs inv_crash_def inv_launched_def Let_def split: if_splits main_pc.splits option.splits sup_pc.splits collect_result.splits write_result.splits watcher_pc.splits)
next
  case WatchWait
  then show ?thesis using assms(1,5)
    by (auto simp: step_def Watch_wait_def aux_defs inv_crash_def Let_def split: if_splits main_pc.splits option.splits sup_pc.splits collect_result.splits write_result.splits watcher_pc.splits)
next
  case WatchLock
  then show ?thesis using assms(1,5)
    by (auto simp: step_def Watch_lock_def aux_defs inv_crash_def Let_def split: if_splits main_pc.splits option.splits sup_pc.splits collect_result.splits write_result.splits watcher_pc.splits)
next
  case (WatchSession err)
  then show ?thesis using assms(1,5)
    by (auto simp: step_def Watch_session_def aux_defs inv_crash_def Let_def split: if_splits main_pc.splits option.splits sup_pc.splits collect_result.splits write_result.splits watcher_pc.splits)
next
  case (WatchClient err)
  then show ?thesis using assms(1,5)
    by (auto simp: step_def Watch_client_def aux_defs inv_crash_def Let_def split: if_splits main_pc.splits option.splits sup_pc.splits collect_result.splits write_result.splits watcher_pc.splits)
next
  case WatchMark
  then show ?thesis using assms(1,5)
    by (auto simp: step_def Watch_mark_def aux_defs inv_crash_def Let_def split: if_splits main_pc.splits option.splits sup_pc.splits collect_result.splits write_result.splits watcher_pc.splits)
next
  case WatchLog
  then show ?thesis using assms(1,5)
    by (auto simp: step_def Watch_log_def aux_defs inv_crash_def Let_def split: if_splits main_pc.splits option.splits sup_pc.splits collect_result.splits write_result.splits watcher_pc.splits)
next
  case WatchFinish
  then show ?thesis using assms
    by (auto simp: step_def Watch_finish_def aux_defs inv_crash_def inv_cwg_def Let_def split: if_splits main_pc.splits option.splits sup_pc.splits collect_result.splits write_result.splits watcher_pc.splits)
qed

lemma inv_ret_step:
  assumes "inv_ret s" "inv_fresh s" "inv_closed s" "inv_cwait s" "inv_cwg s" "step a s = Some s'"
  shows "inv_ret s'"
proof (cases a)
  case (Advance d)
  then show ?thesis using assms(1,6)
    by (auto simp: step_def aux_defs inv_ret_def has_ret_simps Let_def wrap_def split: if_splits main_pc.splits option.splits sup_pc.splits collect_result.splits write_result.splits watcher_pc.splits)
next
  case CancelOuter
  then show ?thesis using assms(1,6)
    by (auto simp: step_def aux_defs inv_ret_def has_ret_simps Let_def wrap_def split: if_splits main_pc.splits option.splits sup_pc.splits collect_result.splits write_result.splits watcher_pc.splits)
next
  case (StartCreate rid err)
  then show ?thesis using assms
    by (auto simp: step_def Start_create_def aux_defs inv_ret_def has_ret_simps inv_fresh_def inv_closed_def Let_def split: if_splits main_pc.splits option.splits sup_pc.splits collect_result.splits write_result.splits watcher_pc.splits)
next
  case (StartOpen err)
  then show ?thesis using assms(1,6)
    by (auto simp: step_def Start_open_def aux_defs inv_ret_def has_ret_simps Let_def wrap_def split: if_splits main_pc.splits option.splits sup_pc.splits collect_result.splits write_result.splits watcher_pc.splits)
next
  case StartWatch
  then show ?thesis using assms(1,6)
    by (auto simp: step_def Start_watch_def aux_defs inv_ret_def has_ret_simps Let_def wrap_def split: if_splits main_pc.splits option.splits sup_pc.splits collect_result.splits write_result.splits watcher_pc.splits)
next
  case CloseCheck
  then show ?thesis using assms(1,6)
    by (auto simp: step_def Close_check_def aux_defs inv_ret_def has_ret_simps Let_def wrap_def split: if_splits main_pc.splits option.splits sup_pc.splits collect_result.splits write_result.splits watcher_pc.splits)
next
  case CloseCancel
  then show ?thesis using assms(1,6)
    by (auto simp: step_def Close_cancel_def aux_defs inv_ret_def has_ret_simps Let_def wrap_def split: if_splits main_pc.splits option.splits sup_pc.splits collect_result.splits write_result.splits watcher_pc.splits)
next
  case CloseWait
  then show ?thesis using assms
    by (auto simp: step_def Close_wait_def aux_defs inv_ret_def has_ret_simps inv_cwait_def inv_cwg_def inv_closed_def Let_def wrank_zero split: if_splits main_pc.splits option.splits sup_pc.splits collect_result.splits write_result.splits watcher_pc.splits)
next
  case (SupInit i)
  then show ?thesis using assms(1,6)
    by (auto simp: step_def Sup_init_def aux_defs inv_ret_def has_ret_simps Let_def wrap_def split: if_splits main_pc.splits option.splits sup_pc.splits collect_result.splits write_result.splits watcher_pc.splits)
next
  case (SupCtxDone i)
  then show ?thesis using assms(1,6)
    by (auto simp: step_def Sup_ctx_done_def aux_defs inv_ret_def has_ret_simps Let_def wrap_def split: if_splits main_pc.splits option.splits sup_pc.splits collect_result.splits write_result.splits watcher_pc.splits)
next
  case (SupCollect i)
  then show ?thesis using assms(1,6)
    by (auto simp: step_def Sup_collect_def aux_defs inv_ret_def has_ret_simps Let_def wrap_def split: if_splits main_pc.splits option.splits sup_pc.splits collect_result.splits write_result.splits watcher_pc.splits)
next
  case (SupWrite i r)
  then show ?thesis using assms(1,6)
    by (auto simp: step_def Sup_write_def aux_defs inv_ret_def has_ret_simps Let_def wrap_def split: if_splits main_pc.splits option.splits sup_pc.splits collect_result.splits write_result.splits watcher_pc.splits)
next
  case (SupRecover i)
  then show ?thesis using assms(1,6)
    by (auto simp: step_def Sup_recover_def aux_defs inv_ret_def has_ret_simps Let_def wrap_def split: if_splits main_pc.splits option.splits sup_pc.splits collect_result.splits write_result.splits watcher_pc.splits)
next
  case (SupClose i err)
  then show ?thesis using assms(1,6)
    by (auto simp: step_def Sup_close_def aux_defs inv_ret_def has_ret_simps Let_def wrap_def split: if_splits main_pc.splits option.splits sup_pc.splits collect_result.splits write_result.splits watcher_pc.splits)
next
  case (SupFinish i)
  then show ?thesis using assms(1,6)
    by (auto simp: step_def Sup_finish_def aux_defs inv_ret_def has_ret_simps Let_def wrap_def split: if_splits main_pc.splits option.splits sup_pc.splits collect_result.splits write_result.splits watcher_pc.splits)
next
  case WatchOuter
  then show ?thesis using assms(1,6)
    by (auto simp: step_def Watch_outer_def aux_defs inv_ret_def has_ret_simps Let_def wrap_def split: if_splits main_pc.splits option.splits sup_pc.splits collect_result.splits write_result.splits watcher_pc.splits)
next
  case WatchStreaming
  then show ?thesis using assms(1,6)
    by (auto simp: step_def Watch_streaming_def aux_defs inv_ret_def has_ret_simps Let_def wrap_def split: if_splits main_pc.splits option.splits sup_pc.splits collect_result.splits write_result.splits watcher_pc.splits)
next
  case WatchCancel
  then show ?thesis using assms(1,6)
    by (auto simp: step_def Watch_cancel_def aux_defs inv_ret_def has_ret_simps Let_def wrap_def split: if_splits main_pc.splits option.splits sup_pc.splits collect_result.splits write_result.splits watcher_pc.splits)
next
  case WatchWait
  then show ?thesis using assms(1,6)
    by (auto simp: step_def Watch_wait_def aux_defs inv_ret_def has_ret_simps Let_def wrap_def split: if_splits main_pc.splits option.splits sup_pc.splits collect_result.splits write_result.splits watcher_pc.splits)
next
  case WatchLock
  then show ?thesis using assms(1,6)
    by (auto simp: step_def Watch_lock_def aux_defs inv_ret_def has_ret_simps Let_def wrap_def split: if_splits main_pc.splits option.splits sup_pc.splits collect_result.splits write_result.splits watcher_pc.splits)
next
  case (WatchSession err)
  then show ?thesis using assms(1,6)
    by (auto simp: step_def Watch_session_def aux_defs inv_ret_def has_ret_simps Let_def wrap_def split: if_splits main_pc.splits option.splits sup_pc.splits collect_result.splits write_result.splits watcher_pc.splits)
next
  case (WatchClient err)
  then show ?thesis using assms(1,6)
    by (auto simp: step_def Watch_client_def aux_defs inv_ret_def has_ret_simps Let_def wrap_def split: if_splits main_pc.splits option.splits sup_pc.splits collect_result.splits write_result.splits watcher_pc.splits)
next
  case WatchMark
  then show ?thesis using assms(1,6)
    by (auto simp: step_def Watch_mark_def aux_defs inv_ret_def has_ret_simps Let_def wrap_def split: if_splits main_pc.splits option.splits sup_pc.splits collect_result.splits write_result.splits watcher_pc.splits)
next
  case WatchLog
  then show ?thesis using assms(1,6)
    by (auto simp: step_def Watch_log_def aux_defs inv_ret_def has_ret_simps Let_def wrap_def split: if_splits main_pc.splits option.splits sup_pc.splits collect_result.splits write_result.splits watcher_pc.splits)
next
  case WatchFinish
  then show ?thesis using assms(1,6)
    by (auto simp: step_def Watch_finish_def aux_defs inv_ret_def has_ret_simps Let_def wrap_def split: if_splits main_pc.splits option.splits sup_pc.splits collect_result.splits write_result.splits watcher_pc.splits)
qed

lemma inv_retok_step:
  assumes "inv_retok s" "inv_ret s" "step a s = Some s'"
  shows "inv_retok s'"
proof (cases a)
  case (Advance d)
  then show ?thesis using assms(1,3)
    by (auto simp: step_def aux_defs inv_retok_def has_ret_rev already_closed_def Let_def wrap_def split: if_splits main_pc.splits option.splits sup_pc.splits collect_result.splits write_result.splits watcher_pc.splits)
next
  case CancelOuter
  then show ?thesis using assms(1,3)
    by (auto simp: step_def aux_defs inv_retok_def has_ret_rev already_closed_def Let_def wrap_def split: if_splits main_pc.splits option.splits sup_pc.splits collect_result.splits write_result.splits watcher_pc.splits)
next
  case (StartCreate rid err)
  then show ?thesis using assms(1,3)
    by (auto simp: step_def Start_create_def aux_defs inv_retok_def has_ret_rev already_closed_def Let_def wrap_def split: if_splits main_pc.splits option.splits sup_pc.splits collect_result.splits write_result.splits watcher_pc.splits)
next
  case (StartOpen err)
  then show ?thesis using assms(1,3)
    by (auto simp: step_def Start_open_def aux_defs inv_retok_def has_ret_rev already_closed_def Let_def wrap_def split: if_splits main_pc.splits option.splits sup_pc.splits collect_result.splits write_result.splits watcher_pc.splits)
next
  case StartWatch
  then show ?thesis using assms(1,3)
    by (auto simp: step_def Start_watch_def aux_defs inv_retok_def has_ret_rev already_closed_def Let_def wrap_def split: if_splits main_pc.splits option.splits sup_pc.splits collect_result.splits write_result.splits watcher_pc.splits)
next
  case CloseCheck
  then show ?thesis using assms(1,3)
    by (auto simp: step_def Close_check_def aux_defs inv_retok_def has_ret_rev already_closed_def Let_def wrap_def split: if_splits main_pc.splits option.splits sup_pc.splits collect_result.splits write_result.splits watcher_pc.splits)
next
  case CloseCancel
  then show ?thesis using assms(1,3)
    by (auto simp: step_def Close_cancel_def aux_defs inv_retok_def has_ret_rev already_closed_def Let_def wrap_def split: if_splits main_pc.splits option.splits sup_pc.splits collect_result.splits write_result.splits watcher_pc.splits)
next
  case CloseWait
  then show ?thesis using assms
    by (auto simp: step_def Close_wait_def aux_defs inv_retok_def inv_ret_def has_ret_rev Let_def split: if_splits main_pc.splits option.splits sup_pc.splits collect_result.splits write_result.splits watcher_pc.splits)
next
  case (SupInit i)
  then show ?thesis using assms(1,3)
    by (auto simp: step_def Sup_init_def aux_defs inv_retok_def has_ret_rev already_closed_def Let_def wrap_def split: if_splits main_pc.splits option.splits sup_pc.splits collect_result.splits write_result.splits watcher_pc.splits)
next
  case (SupCtxDone i)
  then show ?thesis using assms(1,3)
    by (auto simp: step_def Sup_ctx_done_def aux_defs inv_retok_def has_ret_rev already_closed_def Let_def wrap_def split: if_splits main_pc.splits option.splits sup_pc.splits collect_result.splits write_result.splits watcher_pc.splits)
next
  case (SupCollect i)
  then show ?thesis using assms(1,3)
    by (auto simp: step_def Sup_collect_def aux_defs inv_retok_def has_ret_rev already_closed_def Let_def wrap_def split: if_splits main_pc.splits option.splits sup_pc.splits collect_result.splits write_result.splits watcher_pc.splits)
next
  case (SupWrite i r)
  then show ?thesis using assms(1,3)
    by (auto simp: step_def Sup_write_def aux_defs inv_retok_def has_ret_rev already_closed_def Let_def wrap_def split: if_splits main_pc.splits option.splits sup_pc.splits collect_result.splits write_result.splits watcher_pc.splits)
next
  case (SupRecover i)
  then show ?thesis using assms(1,3)
    by (auto simp: step_def Sup_recover_def aux_defs inv_retok_def has_ret_rev already_closed_def Let_def wrap_def split: if_splits main_pc.splits option.splits sup_pc.splits collect_result.splits write_result.splits watcher_pc.splits)
next
  case (SupClose i err)
  then show ?thesis using assms(1,3)
    by (auto simp: step_def Sup_close_def aux_defs inv_retok_def has_ret_rev already_closed_def Let_def wrap_def split: if_splits main_pc.splits option.splits sup_pc.splits collect_result.splits write_result.splits watcher_pc.splits)
next
  case (SupFinish i)
  then show ?thesis using assms(1,3)
    by (auto simp: step_def Sup_finish_def aux_defs inv_retok_def has_ret_rev already_closed_def Let_def wrap_def split: if_splits main_pc.splits option.splits sup_pc.splits collect_result.splits write_result.splits watcher_pc.splits)
next
  case WatchOuter
  then show ?thesis using assms(1,3)
    by (auto simp: step_def Watch_outer_def aux_defs inv_retok_def has_ret_rev already_closed_def Let_def wrap_def split: if_splits main_pc.splits option.splits sup_pc.splits collect_result.splits write_result.splits watcher_pc.splits)
next
  case WatchStreaming
  then show ?thesis using assms(1,3)
    by (auto simp: step_def Watch_streaming_def aux_defs inv_retok_def has_ret_rev already_closed_def Let_def wrap_def split: if_splits main_pc.splits option.splits sup_pc.splits collect_result.splits write_result.splits watcher_pc.splits)
next
  case WatchCancel
  then show ?thesis using assms(1,3)
    by (auto simp: step_def Watch_cancel_def aux_defs inv_retok_def has_ret_rev already_closed_def Let_def wrap_def split: if_splits main_pc.splits option.splits sup_pc.splits collect_result.splits write_result.splits watcher_pc.splits)
next
  case WatchWait
  then show ?thesis using assms(1,3)
    by (auto simp: step_def Watch_wait_def aux_defs inv_retok_def has_ret_rev already_closed_def Let_def wrap_def split: if_splits main_pc.splits option.splits sup_pc.splits collect_result.splits write_result.splits watcher_pc.splits)
next
  case WatchLock
  then show ?thesis using assms(1,3)
    by (auto simp: step_def Watch_lock_def aux_defs inv_retok_def has_ret_rev already_closed_def Let_def wrap_def split: if_splits main_pc.splits option.splits sup_pc.splits collect_result.splits write_result.splits watcher_pc.splits)
next
  case (WatchSession err)
  then show ?thesis using assms(1,3)
    by (auto simp: step_def Watch_session_def aux_defs inv_retok_def has_ret_rev already_closed_def Let_def wrap_def split: if_splits main_pc.splits option.splits sup_pc.splits collect_result.splits write_result.splits watcher_pc.splits)
next
  case (WatchClient err)
  then show ?thesis using assms(1,3)
    by (auto simp: step_def Watch_client_def aux_defs inv_retok_def has_ret_rev already_closed_def Let_def wrap_def split: if_splits main_pc.splits option.splits sup_pc.splits collect_result.splits write_result.splits watcher_pc.splits)
next
  case WatchMark
  then show ?thesis using assms(1,3)
    by (auto simp: step_def Watch_mark_def aux_defs inv_retok_def has_ret_rev already_closed_def Let_def wrap_def split: if_splits main_pc.splits option.splits sup_pc.splits collect_result.splits write_result.splits watcher_pc.splits)
next
  case WatchLog
  then show ?thesis using assms(1,3)
    by (auto simp: step_def Watch_log_def aux_defs inv_retok_def has_ret_rev already_closed_def Let_def wrap_def split: if_splits main_pc.splits option.splits sup_pc.splits collect_result.splits write_result.splits watcher_pc.splits)
next
  case WatchFinish
  then show ?thesis using assms(1,3)
    by (auto simp: step_def Watch_finish_def aux_defs inv_retok_def has_ret_rev already_closed_def Let_def wrap_def split: if_splits main_pc.splits option.splits sup_pc.splits collect_result.splits write_result.splits watcher_pc.splits)
qed

lemma inv_outer_step:
  assumes "inv_outer s" "step a s = Some s'"
  shows "inv_outer s'"
proof (cases a)
  case (Advance d)
  then show ?thesis using assms
    by (auto simp: step_def aux_defs inv_outer_def Let_def split: if_splits main_pc.splits option.splits sup_pc.splits collect_result.splits write_result.splits watcher_pc.splits)
next
  case CancelOuter
  then show ?thesis using assms
    by (auto simp: step_def aux_defs inv_outer_def Let_def split: if_splits main_pc.splits option.splits sup_pc.splits collect_result.splits write_result.splits watcher_pc.splits)
next
  case (StartCreate rid err)
  then show ?thesis using assms
    by (auto simp: step_def Start_create_def aux_defs inv_outer_def Let_def split: if_splits main_pc.splits option.splits sup_pc.splits collect_result.splits write_result.splits watcher_pc.splits)
next
  case (StartOpen err)
  then show ?thesis using assms
    by (auto simp: step_def Start_open_def aux_defs inv_outer_def Let_def split: if_splits main_pc.splits option.splits sup_pc.splits collect_result.splits write_result.splits watcher_pc.splits)
next
  case StartWatch
  then show ?thesis using assms
    by (auto simp: step_def Start_watch_def aux_defs inv_outer_def Let_def split: if_splits main_pc.splits option.splits sup_pc.splits collect_result.splits write_result.splits watcher_pc.splits)
next
  case CloseCheck
  then show ?thesis using assms
    by (auto simp: step_def Close_check_def aux_defs inv_outer_def Let_def split: if_splits main_pc.splits option.splits sup_pc.splits collect_result.splits write_result.splits watcher_pc.splits)
next
  case CloseCancel
  then show ?thesis using assms
    by (auto simp: step_def Close_cancel_def aux_defs inv_outer_def Let_def split: if_splits main_pc.splits option.splits sup_pc.splits collect_result.splits write_result.splits watcher_pc.splits)
next
  case CloseWait
  then show ?thesis using assms
    by (auto simp: step_def Close_wait_def aux_defs inv_outer_def Let_def split: if_splits main_pc.splits option.splits sup_pc.splits collect_result.splits write_result.splits watcher_pc.splits)
next
  case (SupInit i)
  then show ?thesis using assms
    by (auto simp: step_def Sup_init_def aux_defs inv_outer_def Let_def split: if_splits main_pc.splits option.splits sup_pc.splits collect_result.splits write_result.splits watcher_pc.splits)
next
  case (SupCtxDone i)
  then show ?thesis using assms
    by (auto simp: step_def Sup_ctx_done_def aux_defs inv_outer_def Let_def split: if_splits main_pc.splits option.splits sup_pc.splits collect_result.splits write_result.splits watcher_pc.splits)
next
  case (SupCollect i)
  then show ?thesis using assms
    by (auto simp: step_def Sup_collect_def aux_defs inv_outer_def Let_def split: if_splits main_pc.splits option.splits sup_pc.splits collect_result.splits write_result.splits watcher_pc.splits)
next
  case (SupWrite i r)
  then show ?thesis using assms
    by (auto simp: step_def Sup_write_def aux_defs inv_outer_def Let_def split: if_splits main_pc.splits option.splits sup_pc.splits collect_result.splits write_result.splits watcher_pc.splits)
next
  case (SupRecover i)
  then show ?thesis using assms
    by (auto simp: step_def Sup_recover_def aux_defs inv_outer_def Let_def split: if_splits main_pc.splits option.splits sup_pc.splits collect_result.splits write_result.splits watcher_pc.splits)
next
  case (SupClose i err)
  then show ?thesis using assms
    by (auto simp: step_def Sup_close_def aux_defs inv_outer_def Let_def split: if_splits main_pc.splits option.splits sup_pc.splits collect_result.splits write_result.splits watcher_pc.splits)
next
  case (SupFinish i)
  then show ?thesis using assms
    by (auto simp: step_def Sup_finish_def aux_defs inv_outer_def Let_def split: if_splits main_pc.splits option.splits sup_pc.splits collect_result.splits write_result.splits watcher_pc.splits)
next
  case WatchOuter
  then show ?thesis using assms
    by (auto simp: step_def Watch_outer_def aux_defs inv_outer_def Let_def split: if_splits main_pc.splits option.splits sup_pc.splits collect_result.splits write_result.splits watcher_pc.splits)
next
  case WatchStreaming
  then show ?thesis using assms
    by (auto simp: step_def Watch_streaming_def aux_defs inv_outer_def Let_def split: if_splits main_pc.splits option.splits sup_pc.splits collect_result.splits write_result.splits watcher_pc.splits)
next
  case WatchCancel
  then show ?thesis using assms
    by (auto simp: step_def Watch_cancel_def aux_defs inv_outer_def Let_def split: if_splits main_pc.splits option.splits sup_pc.splits collect_result.splits write_result.splits watcher_pc.splits)
next
  case WatchWait
  then show ?thesis using assms
    by (auto simp: step_def Watch_wait_def aux_defs inv_outer_def Let_def split: if_splits main_pc.splits option.splits sup_pc.splits collect_result.splits write_result.splits watcher_pc.splits)
next
  case WatchLock
  then show ?thesis using assms
    by (auto simp: step_def Watch_lock_def aux_defs inv_outer_def Let_def split: if_splits main_pc.splits option.splits sup_pc.splits collect_result.splits write_result.splits watcher_pc.splits)
next
  case (WatchSession err)
  then show ?thesis using assms
    by (auto simp: step_def Watch_session_def aux_defs inv_outer_def Let_def split: if_splits main_pc.splits option.splits sup_pc.splits collect_result.splits write_result.splits watcher_pc.splits)
next
  case (WatchClient err)
  then show ?thesis using assms
    by (auto simp: step_def Watch_client_def aux_defs inv_outer_def Let_def split: if_splits main_pc.splits option.splits sup_pc.splits collect_result.splits write_result.splits watcher_pc.splits)
next
  case WatchMark
  then show ?thesis using assms
    by (auto simp: step_def Watch_mark_def aux_defs inv_outer_def Let_def split: if_splits main_pc.splits option.splits sup_pc.splits collect_result.splits write_result.splits watcher_pc.splits)
next
  case WatchLog
  then show ?thesis using assms
    by (auto simp: step_def Watch_log_def aux_defs inv_outer_def Let_def split: if_splits main_pc.splits option.splits sup_pc.splits collect_result.splits write_result.splits watcher_pc.splits)
next
  case WatchFinish
  then show ?thesis using assms
    by (auto simp: step_def Watch_finish_def aux_defs inv_outer_def Let_def split: if_splits main_pc.splits option.splits sup_pc.splits collect_result.splits write_result.splits watcher_pc.splits)
qed

lemma inv_log_step:
  assumes "inv_log s" "inv_exit s" "inv_idx s" "step a s = Some s'"
  shows "inv_log s'"
proof (cases a)
  case (Advance d)
  then show ?thesis using assms(1,4)
    by (auto simp: step_def aux_defs inv_log_def Let_def wrap_def Add_def split: if_splits main_pc.splits option.splits sup_pc.splits collect_result.splits write_result.splits watcher_pc.splits)
next
  case CancelOuter
  then show ?thesis using assms(1,4)
    by (auto simp: step_def aux_defs inv_log_def Let_def wrap_def Add_def split: if_splits main_pc.splits option.splits sup_pc.splits collect_result.splits write_result.splits watcher_pc.splits)
next
  case (StartCreate rid err)
  then show ?thesis using assms(1,4)
    by (auto simp: step_def Start_create_def aux_defs inv_log_def Let_def wrap_def Add_def split: if_splits main_pc.splits option.splits sup_pc.splits collect_result.splits write_result.splits watcher_pc.splits)
next
  case (StartOpen err)
  then show ?thesis using assms(1,4)
    by (auto simp: step_def Start_open_def aux_defs inv_log_def Let_def wrap_def Add_def split: if_splits main_pc.splits option.splits sup_pc.splits collect_result.splits write_result.splits watcher_pc.splits)
next
  case StartWatch
  then show ?thesis using assms
    by (auto simp: step_def Start_watch_def aux_defs inv_log_def inv_idx_def Let_def split: if_splits main_pc.splits option.splits sup_pc.splits collect_result.splits write_result.splits watcher_pc.splits)
next
  case CloseCheck
  then show ?thesis using assms(1,4)
    by (auto simp: step_def Close_check_def aux_defs inv_log_def Let_def wrap_def Add_def split: if_splits main_pc.splits option.splits sup_pc.splits collect_result.splits write_result.splits watcher_pc.splits)
next
  case CloseCancel
  then show ?thesis using assms(1,4)
    by (auto simp: step_def Close_cancel_def aux_defs inv_log_def Let_def wrap_def Add_def split: if_splits main_pc.splits option.splits sup_pc.splits collect_result.splits write_result.splits watcher_pc.splits)
next
  case CloseWait
  then show ?thesis using assms(1,4)
    by (auto simp: step_def Close_wait_def aux_defs inv_log_def Let_def wrap_def Add_def split: if_splits main_pc.splits option.splits sup_pc.splits collect_result.splits write_result.splits watcher_pc.splits)
next
  case (SupInit i)
  then show ?thesis using assms(1,4)
    by (auto simp: step_def Sup_init_def aux_defs inv_log_def Let_def wrap_def Add_def split: if_splits main_pc.splits option.splits sup_pc.splits collect_result.splits write_result.splits watcher_pc.splits)
next
  case (SupCtxDone i)
  then show ?thesis using assms(1,4)
    by (auto simp: step_def Sup_ctx_done_def aux_defs inv_log_def Let_def wrap_def Add_def split: if_splits main_pc.splits option.splits sup_pc.splits collect_result.splits write_result.splits watcher_pc.splits)
next
  case (SupCollect i)
  then show ?thesis using assms
    by (auto simp: step_def Sup_collect_def aux_defs inv_log_def inv_exit_def Let_def wrap_def Add_def split: if_splits main_pc.splits option.splits sup_pc.splits collect_result.splits write_result.splits watcher_pc.splits dest: live_exit_nth)
next
  case (SupWrite i r)
  then show ?thesis using assms
    by (auto simp: step_def Sup_write_def aux_defs inv_log_def inv_exit_def Let_def wrap_def Add_def split: if_splits main_pc.splits option.splits sup_pc.splits collect_result.splits write_result.splits watcher_pc.splits dest: live_exit_nth)
next
  case (SupRecover i)
  then show ?thesis using assms
    by (auto simp: step_def Sup_recover_def aux_defs inv_log_def inv_exit_def Let_def wrap_def Add_def split: if_splits main_pc.splits option.splits sup_pc.splits collect_result.splits write_result.splits watcher_pc.splits dest: live_exit_nth)
next
  case (SupClose i err)
  then show ?thesis using assms
    by (auto simp: step_def Sup_close_def aux_defs inv_log_def inv_exit_def Let_def wrap_def Add_def split: if_splits main_pc.splits option.splits sup_pc.splits collect_result.splits write_result.splits watcher_pc.splits dest: live_exit_nth)
next
  case (SupFinish i)
  then show ?thesis using assms(1,4)
    by (auto simp: step_def Sup_finish_def aux_defs inv_log_def Let_def wrap_def Add_def split: if_splits main_pc.splits option.splits sup_pc.splits collect_result.splits write_result.splits watcher_pc.splits)
next
  case WatchOuter
  then show ?thesis using assms(1,4)
    by (auto simp: step_def Watch_outer_def aux_defs inv_log_def Let_def wrap_def Add_def split: if_splits main_pc.splits option.splits sup_pc.splits collect_result.splits write_result.splits watcher_pc.splits)
next
  case WatchStreaming
  then show ?thesis using assms(1,4)
    by (auto simp: step_def Watch_streaming_def aux_defs inv_log_def Let_def wrap_def Add_def split: if_splits main_pc.splits option.splits sup_pc.splits collect_result.splits write_result.splits watcher_pc.splits)
next
  case WatchCancel
  then show ?thesis using assms(1,4)
    by (auto simp: step_def Watch_cancel_def aux_defs inv_log_def Let_def wrap_def Add_def split: if_splits main_pc.splits option.splits sup_pc.splits collect_result.splits write_result.splits watcher_pc.splits)
next
  case WatchWait
  then show ?thesis using assms(1,4)
    by (auto simp: step_def Watch_wait_def aux_defs inv_log_def Let_def wrap_def Add_def split: if_splits main_pc.splits option.splits sup_pc.splits collect_result.splits write_result.splits watcher_pc.splits)
next
  case WatchLock
  then show ?thesis using assms(1,4)
    by (auto simp: step_def Watch_lock_def aux_defs inv_log_def Let_def wrap_def Add_def split: if_splits main_pc.splits option.splits sup_pc.splits collect_result.splits write_result.splits watcher_pc.splits)
next
  case (WatchSession err)
  then show ?thesis using assms(1,4)
    by (auto simp: step_def Watch_session_def aux_defs inv_log_def Let_def wrap_def Add_def split: if_splits main_pc.splits option.splits sup_pc.splits collect_result.splits write_result.splits watcher_pc.splits)
next
  case (WatchClient err)
  then show ?thesis using assms(1,4)
    by (auto simp: step_def Watch_client_def aux_defs inv_log_def Let_def wrap_def Add_def split: if_splits main_pc.splits option.splits sup_pc.splits collect_result.splits write_result.splits watcher_pc.splits)
next
  case WatchMark
  then show ?thesis using assms(1,4)
    by (auto simp: step_def Watch_mark_def aux_defs inv_log_def Let_def wrap_def Add_def split: if_splits main_pc.splits option.splits sup_pc.splits collect_result.splits write_result.splits watcher_pc.splits)
next
  case WatchLog
  then show ?thesis using assms(1,4)
    by (auto simp: step_def Watch_log_def aux_defs inv_log_def Let_def wrap_def Add_def split: if_splits main_pc.splits option.splits sup_pc.splits collect_result.splits write_result.splits watcher_pc.splits)
next
  case WatchFinish
  then show ?thesis using assms(1,4)
    by (auto simp: step_def Watch_finish_def aux_defs inv_log_def Let_def wrap_def Add_def split: if_splits main_pc.splits option.splits sup_pc.splits collect_result.splits write_result.splits watcher_pc.splits)
qed

subsection \<open>The order of events\<close>

lemma sclosed_rev: "sclosed (rev es) = sclosed es"
  by (auto simp: sclosed_mem)

lemma no_session_simps:
  "no_session [] = True"
  "no_session (e # es) \<longleftrightarrow> \<not> is_session e \<and> no_session es"
  "no_session (es @ es') \<longleftrightarrow> no_session es \<and> no_session es'"
  "no_session (rev es) = no_session es"
  by (auto simp: no_session_def)


lemma early_no_session:
  assumes "inv_sess s" "wrank (watcher s) < 6"
  shows "no_session (events s)"
  using assms by (auto simp: inv_sess_def no_session_def filter_empty_conv)

lemma sup_no_session:
  assumes "inv_sess s" "inv_exit s" "i < length (sups s)" "pc (sups s ! i) \<noteq> SExit"
  shows "no_session (events s)"
proof -
  have "0 < live (sups s)" using assms(3,4) by (rule live_pos)
  then have "wrank (watcher s) < 6" using assms(2) by (auto simp: inv_exit_def)
  then show ?thesis using assms(1) by (rule early_no_session[rotated])
qed

lemma start_no_session:
  assumes "inv_sess s" "inv_idx s" "main s = MStart k"
  shows "no_session (events s)"
proof -
  have "wrank (watcher s) < 6" using assms(2,3) by (auto simp: inv_idx_def)
  then show ?thesis using assms(1) by (rule early_no_session[rotated])
qed

lemma live0_closed_idx: "live ps = 0 \<Longrightarrow> closed_idx ps = {..<length ps}"
  by (auto simp: closed_idx_def dest: live_exit_nth)

lemma session_all_closed:
  assumes "inv_exit s" "inv_launched s" "inv_sclose s" "4 \<le> wrank (watcher s)"
  shows "{..<length (collectors s)} \<subseteq> sclosed (events s)"
proof -
  have "live (sups s) = 0" using assms(1,4) by (simp add: inv_exit_def)
  moreover have "length (sups s) = length (collectors s)"
    using assms(2,4) by (auto simp: inv_launched_def)
  ultimately show ?thesis using assms(3) by (simp add: inv_sclose_def live0_closed_idx)
qed

lemma inv_ord_step:
  assumes "inv_ord s" "inv_sess s" "inv_exit s" "inv_idx s" "inv_launched s" "inv_sclose s"
    "step a s = Some s'"
  shows "inv_ord s'"
proof (cases a)
  case (Advance d)
  then show ?thesis using assms(1,7)
    by (auto simp: step_def aux_defs inv_ord_def Let_def wrap_def no_session_simps sclosed_rev split: if_splits main_pc.splits option.splits sup_pc.splits collect_result.splits write_result.splits watcher_pc.splits)
next
  case CancelOuter
  then show ?thesis using assms(1,7)
    by (auto simp: step_def aux_defs inv_ord_def Let_def wrap_def no_session_simps sclosed_rev split: if_splits main_pc.splits option.splits sup_pc.splits collect_result.splits write_result.splits watcher_pc.splits)
next
  case (StartCreate rid err)
  then show ?thesis using assms(1,7)
    by (auto simp: step_def Start_create_def aux_defs inv_ord_def Let_def wrap_def no_session_simps sclosed_rev split: if_splits main_pc.splits option.splits sup_pc.splits collect_result.splits write_result.splits watcher_pc.splits)
next
  case (StartOpen err)
  then show ?thesis using assms(1,7) start_no_session[OF assms(2,4)]
    by (auto simp: step_def Start_open_def aux_defs inv_ord_def Let_def wrap_def no_session_simps sclosed_rev split: if_splits main_pc.splits option.splits sup_pc.splits collect_result.splits write_result.splits watcher_pc.splits)
next
  case StartWatch
  then show ?thesis using assms(1,7)
    by (auto simp: step_def Start_watch_def aux_defs inv_ord_def Let_def wrap_def no_session_simps sclosed_rev split: if_splits main_pc.splits option.splits sup_pc.splits collect_result.splits write_result.splits watcher_pc.splits)
next
  case CloseCheck
  then show ?thesis using assms(1,7)
    by (auto simp: step_def Close_check_def aux_defs inv_ord_def Let_def wrap_def no_session_simps sclosed_rev split: if_splits main_pc.splits option.splits sup_pc.splits collect_result.splits write_result.splits watcher_pc.splits)
next
  case CloseCancel
  then show ?thesis using assms(1,7)
    by (auto simp: step_def Close_cancel_def aux_defs inv_ord_def Let_def wrap_def no_session_simps sclosed_rev split: if_splits main_pc.splits option.splits sup_pc.splits collect_result.splits write_result.splits watcher_pc.splits)
next
  case CloseWait
  then show ?thesis using assms(1,7)
    by (auto simp: step_def Close_wait_def aux_defs inv_ord_def Let_def wrap_def no_session_simps sclosed_rev split: if_splits main_pc.splits option.splits sup_pc.splits collect_result.splits write_result.splits watcher_pc.splits)
next
  case (SupInit i)
  then show ?thesis using assms(1,7)
    by (auto simp: step_def Sup_init_def aux_defs inv_ord_def Let_def wrap_def no_session_simps sclosed_rev split: if_splits main_pc.splits option.splits sup_pc.splits collect_result.splits write_result.splits watcher_pc.splits)
next
  case (SupCtxDone i)
  then show ?thesis using assms(1,7)
    by (auto simp: step_def Sup_ctx_done_def aux_defs inv_ord_def Let_def wrap_def no_session_simps sclosed_rev split: if_splits main_pc.splits option.splits sup_pc.splits collect_result.splits write_result.splits watcher_pc.splits)
next
  case (SupCollect i)
  then show ?thesis using assms(1,7) sup_no_session[OF assms(2,3), of i]
    by (auto simp: step_def Sup_collect_def aux_defs inv_ord_def Let_def wrap_def no_session_simps sclosed_rev split: if_splits main_pc.splits option.splits sup_pc.splits collect_result.splits write_result.splits watcher_pc.splits)
next
  case (SupWrite i r)
  then show ?thesis using assms(1,7) sup_no_session[OF assms(2,3), of i]
    by (auto simp: step_def Sup_write_def aux_defs inv_ord_def Let_def wrap_def no_session_simps sclosed_rev split: if_splits main_pc.splits option.splits sup_pc.splits collect_result.splits write_result.splits watcher_pc.splits)
next
  case (SupRecover i)
  then show ?thesis using assms(1,7)
    by (auto simp: step_def Sup_recover_def aux_defs inv_ord_def Let_def wrap_def no_session_simps sclosed_rev split: if_splits main_pc.splits option.splits sup_pc.splits collect_result.splits write_result.splits watcher_pc.splits)
next
  case (SupClose i err)
  then show ?thesis using assms(1,7) sup_no_session[OF assms(2,3), of i]
    by (auto simp: step_def Sup_close_def aux_defs inv_ord_def Let_def wrap_def no_session_simps sclosed_rev split: if_splits main_pc.splits option.splits sup_pc.splits collect_result.splits write_result.splits watcher_pc.splits)
next
  case (SupFinish i)
  then show ?thesis using assms(1,7)
    by (auto simp: step_def Sup_finish_def aux_defs inv_ord_def Let_def wrap_def no_session_simps sclosed_rev split: if_splits main_pc.splits option.splits sup_pc.splits collect_result.splits write_result.splits watcher_pc.splits)
next
  case WatchOuter
  then show ?thesis using assms(1,7)
    by (auto simp: step_def Watch_outer_def aux_defs inv_ord_def Let_def wrap_def no_session_simps sclosed_rev split: if_splits main_pc.splits option.splits sup_pc.splits collect_result.splits write_result.splits watcher_pc.splits)
next
  case WatchStreaming
  then show ?thesis using assms(1,7)
    by (auto simp: step_def Watch_streaming_def aux_defs inv_ord_def Let_def wrap_def no_session_simps sclosed_rev split: if_splits main_pc.splits option.splits sup_pc.splits collect_result.splits write_result.splits watcher_pc.splits)
next
  case WatchCancel
  then show ?thesis using assms(1,7)
    by (auto simp: step_def Watch_cancel_def aux_defs inv_ord_def Let_def wrap_def no_session_simps sclosed_rev split: if_splits main_pc.splits option.splits sup_pc.splits collect_result.splits write_result.splits watcher_pc.splits)
next
  case WatchWait
  then show ?thesis using assms(1,7)
    by (auto simp: step_def Watch_wait_def aux_defs inv_ord_def Let_def wrap_def no_session_simps sclosed_rev split: if_splits main_pc.splits option.splits sup_pc.splits collect_result.splits write_result.splits watcher_pc.splits)
next
  case WatchLock
  then show ?thesis using assms(1,7)
    by (auto simp: step_def Watch_lock_def aux_defs inv_ord_def Let_def wrap_def no_session_simps sclosed_rev split: if_splits main_pc.splits option.splits sup_pc.splits collect_result.splits write_result.splits watcher_pc.splits)
next
  case (WatchSession err)
  then show ?thesis using assms(1,7) session_all_closed[OF assms(3,5,6)]
    by (auto simp: step_def Watch_session_def aux_defs inv_ord_def Let_def wrap_def no_session_simps sclosed_rev split: if_splits main_pc.splits option.splits sup_pc.splits collect_result.splits write_result.splits watcher_pc.splits)
next
  case (WatchClient err)
  then show ?thesis using assms(1,7)
    by (auto simp: step_def Watch_client_def aux_defs inv_ord_def Let_def wrap_def no_session_simps sclosed_rev split: if_splits main_pc.splits option.splits sup_pc.splits collect_result.splits write_result.splits watcher_pc.splits)
next
  case WatchMark
  then show ?thesis using assms(1,7)
    by (auto simp: step_def Watch_mark_def aux_defs inv_ord_def Let_def wrap_def no_session_simps sclosed_rev split: if_splits main_pc.splits option.splits sup_pc.splits collect_result.splits write_result.splits watcher_pc.splits)
next
  case WatchLog
  then show ?thesis using assms(1,7)
    by (auto simp: step_def Watch_log_def aux_defs inv_ord_def Let_def wrap_def no_session_simps sclosed_rev split: if_splits main_pc.splits option.splits sup_pc.splits collect_result.splits write_result.splits watcher_pc.splits)
next
  case WatchFinish
  then show ?thesis using assms(1,7)
    by (auto simp: step_def Watch_finish_def aux_defs inv_ord_def Let_def wrap_def no_session_simps sclosed_rev split: if_splits main_pc.splits option.splits sup_pc.splits collect_result.splits write_result.splits watcher_pc.splits)
qed

lemma inv_flag_step:
  assumes "inv_flag s" "inv_catch s" "step a s = Some s'"
  shows "inv_flag s'"
proof (cases a)
  case (Advance d)
  then show ?thesis using assms(1,3)
    by (auto simp: step_def aux_defs inv_flag_def Let_def wrap_def split: if_splits main_pc.splits option.splits sup_pc.splits collect_result.splits write_result.splits watcher_pc.splits)
next
  case CancelOuter
  then show ?thesis using assms(1,3)
    by (auto simp: step_def aux_defs inv_flag_def Let_def wrap_def split: if_splits main_pc.splits option.splits sup_pc.splits collect_result.splits write_result.splits watcher_pc.splits)
next
  case (StartCreate rid err)
  then show ?thesis using assms(1,3)
    by (auto simp: step_def Start_create_def aux_defs inv_flag_def Let_def wrap_def split: if_splits main_pc.splits option.splits sup_pc.splits collect_result.splits write_result.splits watcher_pc.splits)
next
  case (StartOpen err)
  then show ?thesis using assms(1,3)
    by (auto simp: step_def Start_open_def aux_defs inv_flag_def Let_def wrap_def split: if_splits main_pc.splits option.splits sup_pc.splits collect_result.splits write_result.splits watcher_pc.splits)
next
  case StartWatch
  then show ?thesis using assms(1,3)
    by (auto simp: step_def Start_watch_def aux_defs inv_flag_def Let_def wrap_def split: if_splits main_pc.splits option.splits sup_pc.splits collect_result.splits write_result.splits watcher_pc.splits)
next
  case CloseCheck
  then show ?thesis using assms(1,3)
    by (auto simp: step_def Close_check_def aux_defs inv_flag_def Let_def wrap_def split: if_splits main_pc.splits option.splits sup_pc.splits collect_result.splits write_result.splits watcher_pc.splits)
next
  case CloseCancel
  then show ?thesis using assms(1,3)
    by (auto simp: step_def Close_cancel_def aux_defs inv_flag_def Let_def wrap_def split: if_splits main_pc.splits option.splits sup_pc.splits collect_result.splits write_result.splits watcher_pc.splits)
next
  case CloseWait
  then show ?thesis using assms(1,3)
    by (auto simp: step_def Close_wait_def aux_defs inv_flag_def Let_def wrap_def split: if_splits main_pc.splits option.splits sup_pc.splits collect_result.splits write_result.splits watcher_pc.splits)
next
  case (SupInit i)
  then show ?thesis using assms(1,3)
    by (auto simp: step_def Sup_init_def aux_defs inv_flag_def Let_def wrap_def split: if_splits main_pc.splits option.splits sup_pc.splits collect_result.splits write_result.splits watcher_pc.splits)
next
  case (SupCtxDone i)
  then show ?thesis using assms(1,3)
    by (auto simp: step_def Sup_ctx_done_def aux_defs inv_flag_def Let_def wrap_def split: if_splits main_pc.splits option.splits sup_pc.splits collect_result.splits write_result.splits watcher_pc.splits)
next
  case (SupCollect i)
  then show ?thesis using assms(1,3)
    by (auto simp: step_def Sup_collect_def aux_defs inv_flag_def Let_def wrap_def split: if_splits main_pc.splits option.splits sup_pc.splits collect_result.splits write_result.splits watcher_pc.splits)
next
  case (SupWrite i r)
  then show ?thesis using assms(1,3)
    by (auto simp: step_def Sup_write_def aux_defs inv_flag_def Let_def wrap_def split: if_splits main_pc.splits option.splits sup_pc.splits collect_result.splits write_result.splits watcher_pc.splits)
next
  case (SupRecover i)
  then show ?thesis using assms(1,3)
    by (auto simp: step_def Sup_recover_def aux_defs inv_flag_def Let_def wrap_def split: if_splits main_pc.splits option.splits sup_pc.splits collect_result.splits write_result.splits watcher_pc.splits)
next
  case (SupClose i err)
  then show ?thesis using assms(1,3)
    by (auto simp: step_def Sup_close_def aux_defs inv_flag_def Let_def wrap_def split: if_splits main_pc.splits option.splits sup_pc.splits collect_result.splits write_result.splits watcher_pc.splits)
next
  case (SupFinish i)
  then show ?thesis using assms(1,3)
    by (auto simp: step_def Sup_finish_def aux_defs inv_flag_def Let_def wrap_def split: if_splits main_pc.splits option.splits sup_pc.splits collect_result.splits write_result.splits watcher_pc.splits)
next
  case WatchOuter
  then show ?thesis using assms(1,3)
    by (auto simp: step_def Watch_outer_def aux_defs inv_flag_def Let_def wrap_def split: if_splits main_pc.splits option.splits sup_pc.splits collect_result.splits write_result.splits watcher_pc.splits)
next
  case WatchStreaming
  then show ?thesis using assms(1,3)
    by (auto simp: step_def Watch_streaming_def aux_defs inv_flag_def Let_def wrap_def split: if_splits main_pc.splits option.splits sup_pc.splits collect_result.splits write_result.splits watcher_pc.splits)
next
  case WatchCancel
  then show ?thesis using assms(1,3)
    by (auto simp: step_def Watch_cancel_def aux_defs inv_flag_def Let_def wrap_def split: if_splits main_pc.splits option.splits sup_pc.splits collect_result.splits write_result.splits watcher_pc.splits)
next
  case WatchWait
  then show ?thesis using assms(1,3)
    by (auto simp: step_def Watch_wait_def aux_defs inv_flag_def Let_def wrap_def split: if_splits main_pc.splits option.splits sup_pc.splits collect_result.splits write_result.splits watcher_pc.splits)
next
  case WatchLock
  then show ?thesis using assms(1,3)
    by (auto simp: step_def Watch_lock_def aux_defs inv_flag_def Let_def wrap_def split: if_splits main_pc.splits option.splits sup_pc.splits collect_result.splits write_result.splits watcher_pc.splits)
next
  case (WatchSession err)
  then show ?thesis using assms
    by (auto simp: step_def Watch_session_def aux_defs inv_flag_def inv_catch_def HasErrors_def errs_of_nonempty Let_def wrap_def split: if_splits main_pc.splits option.splits sup_pc.splits collect_result.splits write_result.splits watcher_pc.splits)
next
  case (WatchClient err)
  then show ?thesis using assms(1,3)
    by (auto simp: step_def Watch_client_def aux_defs inv_flag_def Let_def wrap_def split: if_splits main_pc.splits option.splits sup_pc.splits collect_result.splits write_result.splits watcher_pc.splits)
next
  case WatchMark
  then show ?thesis using assms(1,3)
    by (auto simp: step_def Watch_mark_def aux_defs inv_flag_def Let_def wrap_def split: if_splits main_pc.splits option.splits sup_pc.splits collect_result.splits write_result.splits watcher_pc.splits)
next
  case WatchLog
  then show ?thesis using assms(1,3)
    by (auto simp: step_def Watch_log_def aux_defs inv_flag_def Let_def wrap_def split: if_splits main_pc.splits option.splits sup_pc.splits collect_result.splits write_result.splits watcher_pc.splits)
next
  case WatchFinish
  then show ?thesis using assms(1,3)
    by (auto simp: step_def Watch_finish_def aux_defs inv_flag_def Let_def wrap_def split: if_splits main_pc.splits option.splits sup_pc.splits collect_result.splits write_result.splits watcher_pc.splits)
qed

lemma sids_append: "sids (xs @ ys) = sids xs @ sids ys"
  by (induction xs rule: sids.induct) auto

lemma sids_mem: "x \<in> set (sids es) \<longleftrightarrow> (\<exists>f. EvCloseSession x f \<in> set es)"
  by (induction es rule: sids.induct) auto

lemma no_session_sids: "no_session es \<Longrightarrow> sids es = []"
  by (induction es rule: sids.induct) (auto simp: no_session_def)

lemma inv_sid_step:
  assumes "inv_sid s" "inv_sess s" "inv_fresh s" "step a s = Some s'"
  shows "inv_sid s'"
proof (cases a)
  case (Advance d)
  then show ?thesis using assms(1,4)
    by (auto simp: step_def aux_defs inv_sid_def Let_def wrap_def sids_append split: if_splits main_pc.splits option.splits sup_pc.splits collect_result.splits write_result.splits watcher_pc.splits)
next
  case CancelOuter
  then show ?thesis using assms(1,4)
    by (auto simp: step_def aux_defs inv_sid_def Let_def wrap_def sids_append split: if_splits main_pc.splits option.splits sup_pc.splits collect_result.splits write_result.splits watcher_pc.splits)
next
  case (StartCreate rid err)
  then show ?thesis using assms(1,3,4) early_no_session[OF assms(2)]
    by (auto simp: step_def Start_create_def aux_defs inv_sid_def inv_fresh_def Let_def wrap_def sids_append no_session_sids split: if_splits main_pc.splits option.splits sup_pc.splits collect_result.splits write_result.splits watcher_pc.splits)
next
  case (StartOpen err)
  then show ?thesis using assms(1,4)
    by (auto simp: step_def Start_open_def aux_defs inv_sid_def Let_def wrap_def sids_append split: if_splits main_pc.splits option.splits sup_pc.splits collect_result.splits write_result.splits watcher_pc.splits)
next
  case StartWatch
  then show ?thesis using assms(1,4)
    by (auto simp: step_def Start_watch_def aux_defs inv_sid_def Let_def wrap_def sids_append split: if_splits main_pc.splits option.splits sup_pc.splits collect_result.splits write_result.splits watcher_pc.splits)
next
  case CloseCheck
  then show ?thesis using assms(1,4)
    by (auto simp: step_def Close_check_def aux_defs inv_sid_def Let_def wrap_def sids_append split: if_splits main_pc.splits option.splits sup_pc.splits collect_result.splits write_result.splits watcher_pc.splits)
next
  case CloseCancel
  then show ?thesis using assms(1,4)
    by (auto simp: step_def Close_cancel_def aux_defs inv_sid_def Let_def wrap_def sids_append split: if_splits main_pc.splits option.splits sup_pc.splits collect_result.splits write_result.splits watcher_pc.splits)
next
  case CloseWait
  then show ?thesis using assms(1,4)
    by (auto simp: step_def Close_wait_def aux_defs inv_sid_def Let_def wrap_def sids_append split: if_splits main_pc.splits option.splits sup_pc.splits collect_result.splits write_result.splits watcher_pc.splits)
next
  case (SupInit i)
  then show ?thesis using assms(1,4)
    by (auto simp: step_def Sup_init_def aux_defs inv_sid_def Let_def wrap_def sids_append split: if_splits main_pc.splits option.splits sup_pc.splits collect_result.splits write_result.splits watcher_pc.splits)
next
  case (SupCtxDone i)
  then show ?thesis using assms(1,4)
    by (auto simp: step_def Sup_ctx_done_def aux_defs inv_sid_def Let_def wrap_def sids_append split: if_splits main_pc.splits option.splits sup_pc.splits collect_result.splits write_result.splits watcher_pc.splits)
next
  case (SupCollect i)
  then show ?thesis using assms(1,4)
    by (auto simp: step_def Sup_collect_def aux_defs inv_sid_def Let_def wrap_def sids_append split: if_splits main_pc.splits option.splits sup_pc.splits collect_result.splits write_result.splits watcher_pc.splits)
next
  case (SupWrite i r)
  then show ?thesis using assms(1,4)
    by (auto simp: step_def Sup_write_def aux_defs inv_sid_def Let_def wrap_def sids_append split: if_splits main_pc.splits option.splits sup_pc.splits collect_result.splits write_result.splits watcher_pc.splits)
next
  case (SupRecover i)
  then show ?thesis using assms(1,4)
    by (auto simp: step_def Sup_recover_def aux_defs inv_sid_def Let_def wrap_def sids_append split: if_splits main_pc.splits option.splits sup_pc.splits collect_result.splits write_result.splits watcher_pc.splits)
next
  case (SupClose i err)
  then show ?thesis using assms(1,4)
    by (auto simp: step_def Sup_close_def aux_defs inv_sid_def Let_def wrap_def sids_append split: if_splits main_pc.splits option.splits sup_pc.splits collect_result.splits write_result.splits watcher_pc.splits)
next
  case (SupFinish i)
  then show ?thesis using assms(1,4)
    by (auto simp: step_def Sup_finish_def aux_defs inv_sid_def Let_def wrap_def sids_append split: if_splits main_pc.splits option.splits sup_pc.splits collect_result.splits write_result.splits watcher_pc.splits)
next
  case WatchOuter
  then show ?thesis using assms(1,4)
    by (auto simp: step_def Watch_outer_def aux_defs inv_sid_def Let_def wrap_def sids_append split: if_splits main_pc.splits option.splits sup_pc.splits collect_result.splits write_result.splits watcher_pc.splits)
next
  case WatchStreaming
  then show ?thesis using assms(1,4)
    by (auto simp: step_def Watch_streaming_def aux_defs inv_sid_def Let_def wrap_def sids_append split: if_splits main_pc.splits option.splits sup_pc.splits collect_result.splits write_result.splits watcher_pc.splits)
next
  case WatchCancel
  then show ?thesis using assms(1,4)
    by (auto simp: step_def Watch_cancel_def aux_defs inv_sid_def Let_def wrap_def sids_append split: if_splits main_pc.splits option.splits sup_pc.splits collect_result.splits write_result.splits watcher_pc.splits)
next
  case WatchWait
  then show ?thesis using assms(1,4)
    by (auto simp: step_def Watch_wait_def aux_defs inv_sid_def Let_def wrap_def sids_append split: if_splits main_pc.splits option.splits sup_pc.splits collect_result.splits write_result.splits watcher_pc.splits)
next
  case WatchLock
  then show ?thesis using assms(1,4)
    by (auto simp: step_def Watch_lock_def aux_defs inv_sid_def Let_def wrap_def sids_append split: if_splits main_pc.splits option.splits sup_pc.splits collect_result.splits write_result.splits watcher_pc.splits)
next
  case (WatchSession err)
  then show ?thesis using assms(1,4)
    by (auto simp: step_def Watch_session_def aux_defs inv_sid_def Let_def wrap_def sids_append split: if_splits main_pc.splits option.splits sup_pc.splits collect_result.splits write_result.splits watcher_pc.splits)
next
  case (WatchClient err)
  then show ?thesis using assms(1,4)
    by (auto simp: step_def Watch_client_def aux_defs inv_sid_def Let_def wrap_def sids_append split: if_splits main_pc.splits option.splits sup_pc.splits collect_result.splits write_result.splits watcher_pc.splits)
next
  case WatchMark
  then show ?thesis using assms(1,4)
    by (auto simp: step_def Watch_mark_def aux_defs inv_sid_def Let_def wrap_def sids_append split: if_splits main_pc.splits option.splits sup_pc.splits collect_result.splits write_result.splits watcher_pc.splits)
next
  case WatchLog
  then show ?thesis using assms(1,4)
    by (auto simp: step_def Watch_log_def aux_defs inv_sid_def Let_def wrap_def sids_append split: if_splits main_pc.splits option.splits sup_pc.splits collect_result.splits write_result.splits watcher_pc.splits)
next
  case WatchFinish
  then show ?thesis using assms(1,4)
    by (auto simp: step_def Watch_finish_def aux_defs inv_sid_def Let_def wrap_def sids_append split: if_splits main_pc.splits option.splits sup_pc.splits collect_result.splits write_result.splits watcher_pc.splits)
qed

subsection \<open>Collections in time, payloads in order\<close>

lemma writes_append: "writes i (xs @ ys) = writes i xs @ writes i ys"
  by (induction xs rule: writes.induct) auto

lemma inv_time_step:
  assumes "inv_time s" "step a s = Some s'"
  shows "inv_time s'"
proof (cases a)
  case (Advance d)
  then show ?thesis using assms
    by (fastforce simp: step_def aux_defs inv_time_def Let_def wrap_def nth_list_update split: if_splits main_pc.splits option.splits sup_pc.splits collect_result.splits write_result.splits watcher_pc.splits)
next
  case CancelOuter
  then show ?thesis using assms
    by (auto simp: step_def aux_defs inv_time_def Let_def wrap_def nth_list_update split: if_splits main_pc.splits option.splits sup_pc.splits collect_result.splits write_result.splits watcher_pc.splits)
next
  case (StartCreate rid err)
  then show ?thesis using assms
    by (auto simp: step_def Start_create_def aux_defs inv_time_def Let_def wrap_def nth_list_update split: if_splits main_pc.splits option.splits sup_pc.splits collect_result.splits write_result.splits watcher_pc.splits)
next
  case (StartOpen err)
  then show ?thesis using assms
    by (auto simp: step_def Start_open_def aux_defs inv_time_def Let_def wrap_def nth_append less_Suc_eq split: if_splits main_pc.splits option.splits sup_pc.splits collect_result.splits write_result.splits watcher_pc.splits)
next
  case StartWatch
  then show ?thesis using assms
    by (auto simp: step_def Start_watch_def aux_defs inv_time_def Let_def wrap_def nth_list_update split: if_splits main_pc.splits option.splits sup_pc.splits collect_result.splits write_result.splits watcher_pc.splits)
next
  case CloseCheck
  then show ?thesis using assms
    by (auto simp: step_def Close_check_def aux_defs inv_time_def Let_def wrap_def nth_list_update split: if_splits main_pc.splits option.splits sup_pc.splits collect_result.splits write_result.splits watcher_pc.splits)
next
  case CloseCancel
  then show ?thesis using assms
    by (auto simp: step_def Close_cancel_def aux_defs inv_time_def Let_def wrap_def nth_list_update split: if_splits main_pc.splits option.splits sup_pc.splits collect_result.splits write_result.splits watcher_pc.splits)
next
  case CloseWait
  then show ?thesis using assms
    by (auto simp: step_def Close_wait_def aux_defs inv_time_def Let_def wrap_def nth_list_update split: if_splits main_pc.splits option.splits sup_pc.splits collect_result.splits write_result.splits watcher_pc.splits)
next
  case (SupInit i)
  then show ?thesis using assms
    by (auto simp: step_def Sup_init_def aux_defs inv_time_def Let_def wrap_def nth_list_update split: if_splits main_pc.splits option.splits sup_pc.splits collect_result.splits write_result.splits watcher_pc.splits)
next
  case (SupCtxDone i)
  then show ?thesis using assms
    by (auto simp: step_def Sup_ctx_done_def aux_defs inv_time_def Let_def wrap_def nth_list_update split: if_splits main_pc.splits option.splits sup_pc.splits collect_result.splits write_result.splits watcher_pc.splits)
next
  case (SupCollect i)
  then show ?thesis using assms
    by (auto simp: step_def Sup_collect_def aux_defs inv_time_def Let_def wrap_def nth_list_update split: if_splits main_pc.splits option.splits sup_pc.splits collect_result.splits write_result.splits watcher_pc.splits)
next
  case (SupWrite i r)
  then show ?thesis using assms
    by (auto simp: step_def Sup_write_def aux_defs inv_time_def Let_def wrap_def nth_list_update split: if_splits main_pc.splits option.splits sup_pc.splits collect_result.splits write_result.splits watcher_pc.splits)
next
  case (SupRecover i)
  then show ?thesis using assms
    by (auto simp: step_def Sup_recover_def aux_defs inv_time_def Let_def wrap_def nth_list_update split: if_splits main_pc.splits option.splits sup_pc.splits collect_result.splits write_result.splits watcher_pc.splits)
next
  case (SupClose i err)
  then show ?thesis using assms
    by (auto simp: step_def Sup_close_def aux_defs inv_time_def Let_def wrap_def nth_list_update split: if_splits main_pc.splits option.splits sup_pc.splits collect_result.splits write_result.splits watcher_pc.splits)
next
  case (SupFinish i)
  then show ?thesis using assms
    by (auto simp: step_def Sup_finish_def aux_defs inv_time_def Let_def wrap_def nth_list_update split: if_splits main_pc.splits option.splits sup_pc.splits collect_result.splits write_result.splits watcher_pc.splits)
next
  case WatchOuter
  then show ?thesis using assms
    by (auto simp: step_def Watch_outer_def aux_defs inv_time_def Let_def wrap_def nth_list_update split: if_splits main_pc.splits option.splits sup_pc.splits collect_result.splits write_result.splits watcher_pc.splits)
next
  case WatchStreaming
  then show ?thesis using assms
    by (auto simp: step_def Watch_streaming_def aux_defs inv_time_def Let_def wrap_def nth_list_update split: if_splits main_pc.splits option.splits sup_pc.splits collect_result.splits write_result.splits watcher_pc.splits)
next
  case WatchCancel
  then show ?thesis using assms
    by (auto simp: step_def Watch_cancel_def aux_defs inv_time_def Let_def wrap_def nth_list_update split: if_splits main_pc.splits option.splits sup_pc.splits collect_result.splits write_result.splits watcher_pc.splits)
next
  case WatchWait
  then show ?thesis using assms
    by (auto simp: step_def Watch_wait_def aux_defs inv_time_def Let_def wrap_def nth_list_update split: if_splits main_pc.splits option.splits sup_pc.splits collect_result.splits write_result.splits watcher_pc.splits)
next
  case WatchLock
  then show ?thesis using assms
    by (auto simp: step_def Watch_lock_def aux_defs inv_time_def Let_def wrap_def nth_list_update split: if_splits main_pc.splits option.splits sup_pc.splits collect_result.splits write_result.splits watcher_pc.splits)
next
  case (WatchSession err)
  then show ?thesis using assms
    by (auto simp: step_def Watch_session_def aux_defs inv_time_def Let_def wrap_def nth_list_update split: if_splits main_pc.splits option.splits sup_pc.splits collect_result.splits write_result.splits watcher_pc.splits)
next
  case (WatchClient err)
  then show ?thesis using assms
    by (auto simp: step_def Watch_client_def aux_defs inv_time_def Let_def wrap_def nth_list_update split: if_splits main_pc.splits option.splits sup_pc.splits collect_result.splits write_result.splits watcher_pc.splits)
next
  case WatchMark
  then show ?thesis using assms
    by (auto simp: step_def Watch_mark_def aux_defs inv_time_def Let_def wrap_def nth_list_update split: if_splits main_pc.splits option.splits sup_pc.splits collect_result.splits write_result.splits watcher_pc.splits)
next
  case WatchLog
  then show ?thesis using assms
    by (auto simp: step_def Watch_log_def aux_defs inv_time_def Let_def wrap_def nth_list_update split: if_splits main_pc.splits option.splits sup_pc.splits collect_result.splits write_result.splits watcher_pc.splits)
next
  case WatchFinish
  then show ?thesis using assms
    by (auto simp: step_def Watch_finish_def aux_defs inv_time_def Let_def wrap_def nth_list_update split: if_splits main_pc.splits option.splits sup_pc.splits collect_result.splits write_result.splits watcher_pc.splits)
qed

lemma inv_spaced_step:
  assumes "inv_spaced s" "inv_time s" "step a s = Some s'"
  shows "inv_spaced s'"
proof (cases a)
  case (Advance d)
  then show ?thesis using assms(1,3)
    by (auto simp: step_def aux_defs inv_spaced_def Let_def wrap_def split: if_splits main_pc.splits option.splits sup_pc.splits collect_result.splits write_result.splits watcher_pc.splits)
next
  case CancelOuter
  then show ?thesis using assms(1,3)
    by (auto simp: step_def aux_defs inv_spaced_def Let_def wrap_def split: if_splits main_pc.splits option.splits sup_pc.splits collect_result.splits write_result.splits watcher_pc.splits)
next
  case (StartCreate rid err)
  then show ?thesis using assms(1,3)
    by (auto simp: step_def Start_create_def aux_defs inv_spaced_def Let_def wrap_def split: if_splits main_pc.splits option.splits sup_pc.splits collect_result.splits write_result.splits watcher_pc.splits)
next
  case (StartOpen err)
  then show ?thesis using assms(1,3)
    by (auto simp: step_def Start_open_def aux_defs inv_spaced_def Let_def wrap_def split: if_splits main_pc.splits option.splits sup_pc.splits collect_result.splits write_result.splits watcher_pc.splits)
next
  case StartWatch
  then show ?thesis using assms(1,3)
    by (auto simp: step_def Start_watch_def aux_defs inv_spaced_def Let_def wrap_def split: if_splits main_pc.splits option.splits sup_pc.splits collect_result.splits write_result.splits watcher_pc.splits)
next
  case CloseCheck
  then show ?thesis using assms(1,3)
    by (auto simp: step_def Close_check_def aux_defs inv_spaced_def Let_def wrap_def split: if_splits main_pc.splits option.splits sup_pc.splits collect_result.splits write_result.splits watcher_pc.splits)
next
  case CloseCancel
  then show ?thesis using assms(1,3)
    by (auto simp: step_def Close_cancel_def aux_defs inv_spaced_def Let_def wrap_def split: if_splits main_pc.splits option.splits sup_pc.splits collect_result.splits write_result.splits watcher_pc.splits)
next
  case CloseWait
  then show ?thesis using assms(1,3)
    by (auto simp: step_def Close_wait_def aux_defs inv_spaced_def Let_def wrap_def split: if_splits main_pc.splits option.splits sup_pc.splits collect_result.splits write_result.splits watcher_pc.splits)
next
  case (SupInit i)
  then show ?thesis using assms(1,3)
    by (auto simp: step_def Sup_init_def aux_defs inv_spaced_def Let_def wrap_def split: if_splits main_pc.splits option.splits sup_pc.splits collect_result.splits write_result.splits watcher_pc.splits)
next
  case (SupCtxDone i)
  then show ?thesis using assms(1,3)
    by (auto simp: step_def Sup_ctx_done_def aux_defs inv_spaced_def Let_def wrap_def split: if_splits main_pc.splits option.splits sup_pc.splits collect_result.splits write_result.splits watcher_pc.splits)
next
  case (SupCollect i)
  then show ?thesis using assms
    by (fastforce simp: step_def Sup_collect_def aux_defs inv_spaced_def inv_time_def Let_def wrap_def split: if_splits main_pc.splits option.splits sup_pc.splits collect_result.splits write_result.splits watcher_pc.splits)
next
  case (SupWrite i r)
  then show ?thesis using assms(1,3)
    by (auto simp: step_def Sup_write_def aux_defs inv_spaced_def Let_def wrap_def split: if_splits main_pc.splits option.splits sup_pc.splits collect_result.splits write_result.splits watcher_pc.splits)
next
  case (SupRecover i)
  then show ?thesis using assms(1,3)
    by (auto simp: step_def Sup_recover_def aux_defs inv_spaced_def Let_def wrap_def split: if_splits main_pc.splits option.splits sup_pc.splits collect_result.splits write_result.splits watcher_pc.splits)
next
  case (SupClose i err)
  then show ?thesis using assms(1,3)
    by (auto simp: step_def Sup_close_def aux_defs inv_spaced_def Let_def wrap_def split: if_splits main_pc.splits option.splits sup_pc.splits collect_result.splits write_result.splits watcher_pc.splits)
next
  case (SupFinish i)
  then show ?thesis using assms(1,3)
    by (auto simp: step_def Sup_finish_def aux_defs inv_spaced_def Let_def wrap_def split: if_splits main_pc.splits option.splits sup_pc.splits collect_result.splits write_result.splits watcher_pc.splits)
next
  case WatchOuter
  then show ?thesis using assms(1,3)
    by (auto simp: step_def Watch_outer_def aux_defs inv_spaced_def Let_def wrap_def split: if_splits main_pc.splits option.splits sup_pc.splits collect_result.splits write_result.splits watcher_pc.splits)
next
  case WatchStreaming
  then show ?thesis using assms(1,3)
    by (auto simp: step_def Watch_streaming_def aux_defs inv_spaced_def Let_def wrap_def split: if_splits main_pc.splits option.splits sup_pc.splits collect_result.splits write_result.splits watcher_pc.splits)
next
  case WatchCancel
  then show ?thesis using assms(1,3)
    by (auto simp: step_def Watch_cancel_def aux_defs inv_spaced_def Let_def wrap_def split: if_splits main_pc.splits option.splits sup_pc.splits collect_result.splits write_result.splits watcher_pc.splits)
next
  case WatchWait
  then show ?thesis using assms(1,3)
    by (auto simp: step_def Watch_wait_def aux_defs inv_spaced_def Let_def wrap_def split: if_splits main_pc.splits option.splits sup_pc.splits collect_result.splits write_result.splits watcher_pc.splits)
next
  case WatchLock
  then show ?thesis using assms(1,3)
    by (auto simp: step_def Watch_lock_def aux_defs inv_spaced_def Let_def wrap_def split: if_splits main_pc.splits option.splits sup_pc.splits collect_result.splits write_result.splits watcher_pc.splits)
next
  case (WatchSession err)
  then show ?thesis using assms(1,3)
    by (auto simp: step_def Watch_session_def aux_defs inv_spaced_def Let_def wrap_def split: if_splits main_pc.splits option.splits sup_pc.splits collect_result.splits write_result.splits watcher_pc.splits)
next
  case (WatchClient err)
  then show ?thesis using assms(1,3)
    by (auto simp: step_def Watch_client_def aux_defs inv_spaced_def Let_def wrap_def split: if_splits main_pc.splits option.splits sup_pc.splits collect_result.splits write_result.splits watcher_pc.splits)
next
  case WatchMark
  then show ?thesis using assms(1,3)
    by (auto simp: step_def Watch_mark_def aux_defs inv_spaced_def Let_def wrap_def split: if_splits main_pc.splits option.splits sup_pc.splits collect_result.splits write_result.splits watcher_pc.splits)
next
  case WatchLog
  then show ?thesis using assms(1,3)
    by (auto simp: step_def Watch_log_def aux_defs inv_spaced_def Let_def wrap_def split: if_splits main_pc.splits option.splits sup_pc.splits collect_result.splits write_result.splits watcher_pc.splits)
next
  case WatchFinish
  then show ?thesis using assms(1,3)
    by (auto simp: step_def Watch_finish_def aux_defs inv_spaced_def Let_def wrap_def split: if_splits main_pc.splits option.splits sup_pc.splits collect_result.splits write_result.splits watcher_pc.splits)
qed

lemma inv_writes_step:
  assumes "inv_writes s" "inv_idx s" "step a s = Some s'"
  shows "inv_writes s'"
proof (cases a)
  case (Advance d)
  then show ?thesis using assms(1,3)
    by (auto simp: step_def aux_defs inv_writes_def wr_ok_def Let_def wrap_def writes_append nth_list_update split: if_splits main_pc.splits option.splits sup_pc.splits collect_result.splits write_result.splits watcher_pc.splits)
next
  case CancelOuter
  then show ?thesis using assms(1,3)
    by (auto simp: step_def aux_defs inv_writes_def wr_ok_def Let_def wrap_def writes_append nth_list_update split: if_splits main_pc.splits option.splits sup_pc.splits collect_result.splits write_result.splits watcher_pc.splits)
next
  case (StartCreate rid err)
  then show ?thesis using assms(1,3)
    by (auto simp: step_def Start_create_def aux_defs inv_writes_def wr_ok_def Let_def wrap_def writes_append nth_list_update split: if_splits main_pc.splits option.splits sup_pc.splits collect_result.splits write_result.splits watcher_pc.splits)
next
  case (StartOpen err)
  then show ?thesis using assms(1,3)
    by (auto simp: step_def Start_open_def aux_defs inv_writes_def wr_ok_def Let_def wrap_def writes_append nth_append less_Suc_eq split: if_splits main_pc.splits option.splits sup_pc.splits collect_result.splits write_result.splits watcher_pc.splits)
next
  case StartWatch
  then show ?thesis using assms(1,3)
    by (auto simp: step_def Start_watch_def aux_defs inv_writes_def wr_ok_def Let_def wrap_def writes_append nth_list_update split: if_splits main_pc.splits option.splits sup_pc.splits collect_result.splits write_result.splits watcher_pc.splits)
next
  case CloseCheck
  then show ?thesis using assms(1,3)
    by (auto simp: step_def Close_check_def aux_defs inv_writes_def wr_ok_def Let_def wrap_def writes_append nth_list_update split: if_splits main_pc.splits option.splits sup_pc.splits collect_result.splits write_result.splits watcher_pc.splits)
next
  case CloseCancel
  then show ?thesis using assms(1,3)
    by (auto simp: step_def Close_cancel_def aux_defs inv_writes_def wr_ok_def Let_def wrap_def writes_append nth_list_update split: if_splits main_pc.splits option.splits sup_pc.splits collect_result.splits write_result.splits watcher_pc.splits)
next
  case CloseWait
  then show ?thesis using assms(1,3)
    by (auto simp: step_def Close_wait_def aux_defs inv_writes_def wr_ok_def Let_def wrap_def writes_append nth_list_update split: if_splits main_pc.splits option.splits sup_pc.splits collect_result.splits write_result.splits watcher_pc.splits)
next
  case (SupInit i)
  then show ?thesis using assms(1,3)
    by (auto simp: step_def Sup_init_def aux_defs inv_writes_def wr_ok_def Let_def wrap_def writes_append nth_list_update split: if_splits main_pc.splits option.splits sup_pc.splits collect_result.splits write_result.splits watcher_pc.splits)
next
  case (SupCtxDone i)
  then show ?thesis using assms(1,3)
    by (auto simp: step_def Sup_ctx_done_def aux_defs inv_writes_def wr_ok_def Let_def wrap_def writes_append nth_list_update split: if_splits main_pc.splits option.splits sup_pc.splits collect_result.splits write_result.splits watcher_pc.splits)
next
  case (SupCollect i)
  then show ?thesis using assms(1,3)
    by (auto simp: step_def Sup_collect_def aux_defs inv_writes_def wr_ok_def Let_def wrap_def writes_append nth_list_update split: if_splits main_pc.splits option.splits sup_pc.splits collect_result.splits write_result.splits watcher_pc.splits)
next
  case (SupWrite i r)
  then show ?thesis using assms(1,3)
    by (auto simp: step_def Sup_write_def aux_defs inv_writes_def wr_ok_def Let_def wrap_def writes_append nth_list_update split: if_splits main_pc.splits option.splits sup_pc.splits collect_result.splits write_result.splits watcher_pc.splits)
next
  case (SupRecover i)
  then show ?thesis using assms(1,3)
    by (auto simp: step_def Sup_recover_def aux_defs inv_writes_def wr_ok_def Let_def wrap_def writes_append nth_list_update split: if_splits main_pc.splits option.splits sup_pc.splits collect_result.splits write_result.splits watcher_pc.splits)
next
  case (SupClose i err)
  then show ?thesis using assms(1,3)
    by (auto simp: step_def Sup_close_def aux_defs inv_writes_def wr_ok_def Let_def wrap_def writes_append nth_list_update split: if_splits main_pc.splits option.splits sup_pc.splits collect_result.splits write_result.splits watcher_pc.splits)
next
  case (SupFinish i)
  then show ?thesis using assms(1,3)
    by (auto simp: step_def Sup_finish_def aux_defs inv_writes_def wr_ok_def Let_def wrap_def writes_append nth_list_update split: if_splits main_pc.splits option.splits sup_pc.splits collect_result.splits write_result.splits watcher_pc.splits)
next
  case WatchOuter
  then show ?thesis using assms(1,3)
    by (auto simp: step_def Watch_outer_def aux_defs inv_writes_def wr_ok_def Let_def wrap_def writes_append nth_list_update split: if_splits main_pc.splits option.splits sup_pc.splits collect_result.splits write_result.splits watcher_pc.splits)
next
  case WatchStreaming
  then show ?thesis using assms(1,3)
    by (auto simp: step_def Watch_streaming_def aux_defs inv_writes_def wr_ok_def Let_def wrap_def writes_append nth_list_update split: if_splits main_pc.splits option.splits sup_pc.splits collect_result.splits write_result.splits watcher_pc.splits)
next
  case WatchCancel
  then show ?thesis using assms(1,3)
    by (auto simp: step_def Watch_cancel_def aux_defs inv_writes_def wr_ok_def Let_def wrap_def writes_append nth_list_update split: if_splits main_pc.splits option.splits sup_pc.splits collect_result.splits write_result.splits watcher_pc.splits)
next
  case WatchWait
  then show ?thesis using assms(1,3)
    by (auto simp: step_def Watch_wait_def aux_defs inv_writes_def wr_ok_def Let_def wrap_def writes_append nth_list_update split: if_splits main_pc.splits option.splits sup_pc.splits collect_result.splits write_result.splits watcher_pc.splits)
next
  case WatchLock
  then show ?thesis using assms(1,3)
    by (auto simp: step_def Watch_lock_def aux_defs inv_writes_def wr_ok_def Let_def wrap_def writes_append nth_list_update split: if_splits main_pc.splits option.splits sup_pc.splits collect_result.splits write_result.splits watcher_pc.splits)
next
  case (WatchSession err)
  then show ?thesis using assms(1,3)
    by (auto simp: step_def Watch_session_def aux_defs inv_writes_def wr_ok_def Let_def wrap_def writes_append nth_list_update split: if_splits main_pc.splits option.splits sup_pc.splits collect_result.splits write_result.splits watcher_pc.splits)
next
  case (WatchClient err)
  then show ?thesis using assms(1,3)
    by (auto simp: step_def Watch_client_def aux_defs inv_writes_def wr_ok_def Let_def wrap_def writes_append nth_list_update split: if_splits main_pc.splits option.splits sup_pc.splits collect_result.splits write_result.splits watcher_pc.splits)
next
  case WatchMark
  then show ?thesis using assms(1,3)
    by (auto simp: step_def Watch_mark_def aux_defs inv_writes_def wr_ok_def Let_def wrap_def writes_append nth_list_update split: if_splits main_pc.splits option.splits sup_pc.splits collect_result.splits write_result.splits watcher_pc.splits)
next
  case WatchLog
  then show ?thesis using assms(1,3)
    by (auto simp: step_def Watch_log_def aux_defs inv_writes_def wr_ok_def Let_def wrap_def writes_append nth_list_update split: if_splits main_pc.splits option.splits sup_pc.splits collect_result.splits write_result.splits watcher_pc.splits)
next
  case WatchFinish
  then show ?thesis using assms(1,3)
    by (auto simp: step_def Watch_finish_def aux_defs inv_writes_def wr_ok_def Let_def wrap_def writes_append nth_list_update split: if_splits main_pc.splits option.splits sup_pc.splits collect_result.splits write_result.splits watcher_pc.splits)
qed


subsection \<open>Every reachable state satisfies the invariants\<close>

lemma invD:
  assumes "inv s"
  shows "inv_fresh s"
    and "inv_idx s"
    and "inv_client s"
    and "inv_len s"
    and "inv_launched s"
    and "inv_cancel s"
    and "inv_mu s"
    and "inv_closed s"
    and "inv_ctx s"
    and "inv_cwait s"
    and "inv_cwg s"
    and "inv_swg s"
    and "inv_mc s"
    and "inv_exit s"
    and "inv_sess s"
    and "inv_cli s"
    and "inv_catch s"
    and "inv_sclose s"
    and "inv_crash s"
    and "inv_ret s"
    and "inv_retok s"
    and "inv_outer s"
    and "inv_log s"
    and "inv_ord s"
    and "inv_flag s"
    and "inv_sid s"
    and "inv_time s"
    and "inv_spaced s"
    and "inv_writes s"
  using assms by (simp_all add: inv_def)

lemma inv_step:
  assumes "inv s" "step a s = Some s'"
  shows "inv s'"
proof -
  note i = invD[OF assms(1)] and st = assms(2)
  have "inv_fresh s'" by (rule inv_fresh_step[OF i(1) st])
  moreover
  have "inv_idx s'" by (rule inv_idx_step[OF i(2) i(1) st])
  moreover
  have "inv_client s'" by (rule inv_client_step[OF i(3) st])
  moreover
  have "inv_len s'" by (rule inv_len_step[OF i(4) i(2) st])
  moreover
  have "inv_launched s'" by (rule inv_launched_step[OF i(5) i(2) i(4) st])
  moreover
  have "inv_cancel s'" by (rule inv_cancel_step[OF i(6) st])
  moreover
  have "inv_mu s'" by (rule inv_mu_step[OF i(7) i(2) st])
  moreover
  have "inv_closed s'" by (rule inv_closed_step[OF i(8) i(2) st])
  moreover
  have "inv_ctx s'" by (rule inv_ctx_step[OF i(9) st])
  moreover
  have "inv_cwait s'" by (rule inv_cwait_step[OF i(10) i(6) st])
  moreover
  have "inv_cwg s'" by (rule inv_cwg_step[OF i(11) i(2) st])
  moreover
  have "inv_swg s'" by (rule inv_swg_step[OF i(12) st])
  moreover
  have "inv_mc s'" by (rule inv_mc_step[OF i(13) i(2) st])
  moreover
  have "inv_exit s'" by (rule inv_exit_step[OF i(14) i(12) i(2) st])
  moreover
  have "inv_sess s'" by (rule inv_sess_step[OF i(15) i(1) i(3) i(2) st])
  moreover
  have "inv_cli s'" by (rule inv_cli_step[OF i(16) i(3) i(2) st])
  moreover
  have "inv_catch s'" by (rule inv_catch_step[OF i(17) st])
  moreover
  have "inv_sclose s'" by (rule inv_sclose_step[OF i(18) st])
  moreover
  have "inv_crash s'" by (rule inv_crash_step[OF i(19) i(5) i(12) i(11) st])
  moreover
  have "inv_ret s'" by (rule inv_ret_step[OF i(20) i(1) i(8) i(10) i(11) st])
  moreover
  have "inv_retok s'" by (rule inv_retok_step[OF i(21) i(20) st])
  moreover
  have "inv_outer s'" by (rule inv_outer_step[OF i(22) st])
  moreover
  have "inv_log s'" by (rule inv_log_step[OF i(23) i(14) i(2) st])
  moreover
  have "inv_ord s'" by (rule inv_ord_step[OF i(24) i(15) i(14) i(2) i(5) i(18) st])
  moreover
  have "inv_flag s'" by (rule inv_flag_step[OF i(25) i(17) st])
  moreover
  have "inv_sid s'" by (rule inv_sid_step[OF i(26) i(15) i(1) st])
  moreover
  have "inv_time s'" by (rule inv_time_step[OF i(27) st])
  moreover
  have "inv_spaced s'" by (rule inv_spaced_step[OF i(28) i(27) st])
  moreover
  have "inv_writes s'" by (rule inv_writes_step[OF i(29) i(2) st])
  ultimately show ?thesis by (simp add: inv_def)
qed


text \<open>A collector fresh from its constructor.\<close>

lemma new_state:
  assumes "newSystemMetricsCollector new_client opts = (Inr s0, evs)"
  shows "streamingCancel s0 = False \<and> client s0 \<and> catcher s0 = [] \<and> id_s s0 = [] \<and> \<not> closed s0
    \<and> \<not> mu s0 \<and> stream_wg s0 = 0 \<and> close_wg s0 = 0 \<and> \<not> outer_done s0
    \<and> \<not> streaming_cancelled s0 \<and> main s0 = MIdle \<and> \<not> start_called s0 \<and> sups s0 = []
    \<and> watcher s0 = WNone \<and> events s0 = [] \<and> \<not> crashed s0
    \<and> collectors s0 = Collectors opts
    \<and> interval s0 = (if Interval opts = 0 then Minute else Interval opts)"
  using assms
  by (auto simp: newSystemMetricsCollector_def options_validate_def Let_def
      split: if_splits option.splits prod.splits)

lemma inv_new:
  assumes "newSystemMetricsCollector new_client opts = (Inr s0, evs)"
  shows "inv s0"
  using new_state[OF assms]
  by (simp add: inv_def inv_fresh_def inv_idx_def inv_client_def inv_len_def inv_launched_def inv_cancel_def inv_mu_def inv_closed_def inv_ctx_def inv_cwait_def inv_cwg_def inv_swg_def inv_mc_def inv_exit_def inv_sess_def inv_cli_def inv_catch_def inv_sclose_def inv_crash_def inv_ret_def inv_retok_def inv_outer_def inv_log_def inv_ord_def inv_flag_def inv_sid_def inv_time_def inv_spaced_def inv_writes_def live_def closed_idx_def has_ret_def Resolve_def)

lemma run_append:
  "run (as @ bs) s = (case run as s of None \<Rightarrow> None | Some s' \<Rightarrow> run bs s')"
  by (induction as arbitrary: s) (auto split: option.splits)

section \<open>Concrete runs\<close>

lemmas act_defs = Start_create_def Start_open_def Start_watch_def Close_check_def Close_cancel_def
  Close_wait_def Sup_init_def Sup_ctx_done_def Sup_collect_def Sup_write_def Sup_recover_def
  Sup_close_def Sup_finish_def Watch_outer_def Watch_streaming_def Watch_cancel_def Watch_wait_def
  Watch_lock_def Watch_session_def Watch_client_def Watch_mark_def Watch_log_def Watch_finish_def

lemmas eval_defs = events_after_def catcher_after_def crashed_after_def watcher_after_def
  events_from_new_def crashed_from_new_def catcher_from_new_def watcher_from_new_def
  newSystemMetricsCollector_def options_validate_def getSystemMetricsInfo_def
  step_def act_defs aux_defs Let_def streamingCtx_done_def stream_msg_def wrap_def Add_def
  Resolve_def HasErrors_def HandlePanicWithError_def Minute_def
  ex_opts_def ex_opts2_def ex_opts_format7_def ex_task_def ex_uptime_def ex_disk_def
  dataFormatText_def dataFormatJSON_def ex_state1_def ex_state2_def
  ex_run_close_def ex_run_cancel_def ex_run_cancel_streaming_def


text \<open>
  C7.  The claim: a collector whose format is none of the five known values is rejected
  by validation and never reaches the opening of a stream.  The code: \<open>dataFormat.validate\<close>
  knows the five values and rejects the value 7, but the validation of the options never
  calls it; options whose only collector has format 7 pass, the constructor returns a
  collector, and \<open>Start\<close> opens the stream with format 7.
\<close>

theorem unknown_format_reaches_stream:
  "dataFormat_validate 7 = Some (New ''invalid schema type specified'')
   \<and> fst (options_validate ex_opts_format7) = None
   \<and> events_from_new None ex_opts_format7 [StartCreate ''id1'' None, StartOpen None]
       = [EvCreateRecord (getSystemMetricsInfo ex_task), EvOpenStream ''id1'' ''uptime'' 7]"
  by (simp add: eval_defs dataFormat_validate_def dataFormatFTDC_def dataFormatBSON_def
      dataFormatCSV_def)


text \<open>
  C1.  The claim: when a stream fails to open, \<open>Start\<close> cancels the streaming context and
  returns the error, and \<open>Close\<close> can still be called to release the session and the
  client.  The code, with two collectors of which the second stream fails to open:
  \<open>Start\<close> cancels and returns the wrapped error, and the supervisor already launched
  closes its stream and finishes; but \<open>Start\<close> has set \<open>streamingCancel\<close> to nil and never
  launched the watcher, so \<open>Close\<close> finds the collector not closed, calls the nil function
  and panics.  The session and the client are never closed.
\<close>

theorem close_after_failed_stream_open_panics:
  "events_from_new None ex_opts2
     [StartCreate ''id1'' None, StartOpen None, StartOpen (Some (New ''unavailable'')),
      SupInit 0, SupCtxDone 0, SupRecover 0, SupClose 0 None, SupFinish 0,
      CloseCheck, CloseCancel]
     = [EvCreateRecord (getSystemMetricsInfo ex_task),
        EvOpenStream ''id1'' ''uptime'' 0,
        EvOpenStream ''id1'' ''disk'' 3,
        EvStartReturn (Some (Wrap (New ''unavailable'')
          ''problem creating system metrics stream for id id1 and metricType disk'')),
        EvStreamClose 0,
        EvPanic ''invalid memory address or nil pointer dereference'']
   \<and> crashed_from_new None ex_opts2
     [StartCreate ''id1'' None, StartOpen None, StartOpen (Some (New ''unavailable'')),
      SupInit 0, SupCtxDone 0, SupRecover 0, SupClose 0 None, SupFinish 0,
      CloseCheck, CloseCancel]"
  by (simp add: eval_defs)


subsection \<open>Who cancelled, and what a successful \<open>Start\<close> leaves\<close>

lemma quiet_simps:
  "quiet [] = True"
  "quiet (e # es) \<longleftrightarrow> \<not> is_stream_ev e \<and> \<not> is_session e \<and> e \<noteq> EvCloseClient \<and> quiet es"
  "quiet (es @ es') \<longleftrightarrow> quiet es \<and> quiet es'"
  by (auto simp: quiet_def)

lemma inv_sc_step:
  assumes "inv_sc s" "inv_outer s" "inv_fresh s" "step a s = Some s'"
  shows "inv_sc s'"
proof (cases a)
  case (Advance d)
  then show ?thesis using assms(1,4)
    by (auto simp: step_def aux_defs inv_sc_def has_ret_simps Let_def wrap_def split: if_splits main_pc.splits option.splits sup_pc.splits collect_result.splits write_result.splits watcher_pc.splits)
next
  case CancelOuter
  then show ?thesis using assms(1,4)
    by (auto simp: step_def aux_defs inv_sc_def has_ret_simps Let_def wrap_def split: if_splits main_pc.splits option.splits sup_pc.splits collect_result.splits write_result.splits watcher_pc.splits)
next
  case (StartCreate rid err)
  then show ?thesis using assms(1,3,4)
    by (auto simp: step_def Start_create_def aux_defs inv_sc_def inv_fresh_def has_ret_simps Let_def wrap_def split: if_splits main_pc.splits option.splits sup_pc.splits collect_result.splits write_result.splits watcher_pc.splits)
next
  case (StartOpen err)
  then show ?thesis using assms(1,4)
    by (auto simp: step_def Start_open_def aux_defs inv_sc_def has_ret_simps Let_def wrap_def split: if_splits main_pc.splits option.splits sup_pc.splits collect_result.splits write_result.splits watcher_pc.splits)
next
  case StartWatch
  then show ?thesis using assms(1,4)
    by (auto simp: step_def Start_watch_def aux_defs inv_sc_def has_ret_simps Let_def wrap_def split: if_splits main_pc.splits option.splits sup_pc.splits collect_result.splits write_result.splits watcher_pc.splits)
next
  case CloseCheck
  then show ?thesis using assms(1,4)
    by (auto simp: step_def Close_check_def aux_defs inv_sc_def has_ret_simps Let_def wrap_def split: if_splits main_pc.splits option.splits sup_pc.splits collect_result.splits write_result.splits watcher_pc.splits)
next
  case CloseCancel
  then show ?thesis using assms(1,4)
    by (auto simp: step_def Close_cancel_def aux_defs inv_sc_def has_ret_simps Let_def wrap_def split: if_splits main_pc.splits option.splits sup_pc.splits collect_result.splits write_result.splits watcher_pc.splits)
next
  case CloseWait
  then show ?thesis using assms(1,4)
    by (auto simp: step_def Close_wait_def aux_defs inv_sc_def has_ret_simps Let_def wrap_def split: if_splits main_pc.splits option.splits sup_pc.splits collect_result.splits write_result.splits watcher_pc.splits)
next
  case (SupInit i)
  then show ?thesis using assms(1,4)
    by (auto simp: step_def Sup_init_def aux_defs inv_sc_def has_ret_simps Let_def wrap_def split: if_splits main_pc.splits option.splits sup_pc.splits collect_result.splits write_result.splits watcher_pc.splits)
next
  case (SupCtxDone i)
  then show ?thesis using assms(1,4)
    by (auto simp: step_def Sup_ctx_done_def aux_defs inv_sc_def has_ret_simps Let_def wrap_def split: if_splits main_pc.splits option.splits sup_pc.splits collect_result.splits write_result.splits watcher_pc.splits)
next
  case (SupCollect i)
  then show ?thesis using assms(1,4)
    by (auto simp: step_def Sup_collect_def aux_defs inv_sc_def has_ret_simps Let_def wrap_def split: if_splits main_pc.splits option.splits sup_pc.splits collect_result.splits write_result.splits watcher_pc.splits)
next
  case (SupWrite i r)
  then show ?thesis using assms(1,4)
    by (auto simp: step_def Sup_write_def aux_defs inv_sc_def has_ret_simps Let_def wrap_def split: if_splits main_pc.splits option.splits sup_pc.splits collect_result.splits write_result.splits watcher_pc.splits)
next
  case (SupRecover i)
  then show ?thesis using assms(1,4)
    by (auto simp: step_def Sup_recover_def aux_defs inv_sc_def has_ret_simps Let_def wrap_def split: if_splits main_pc.splits option.splits sup_pc.splits collect_result.splits write_result.splits watcher_pc.splits)
next
  case (SupClose i err)
  then show ?thesis using assms(1,4)
    by (auto simp: step_def Sup_close_def aux_defs inv_sc_def has_ret_simps Let_def wrap_def split: if_splits main_pc.splits option.splits sup_pc.splits collect_result.splits write_result.splits watcher_pc.splits)
next
  case (SupFinish i)
  then show ?thesis using assms(1,4)
    by (auto simp: step_def Sup_finish_def aux_defs inv_sc_def has_ret_simps Let_def wrap_def split: if_splits main_pc.splits option.splits sup_pc.splits collect_result.splits write_result.splits watcher_pc.splits)
next
  case WatchOuter
  then show ?thesis using assms(1,4)
    by (auto simp: step_def Watch_outer_def aux_defs inv_sc_def has_ret_simps Let_def wrap_def split: if_splits main_pc.splits option.splits sup_pc.splits collect_result.splits write_result.splits watcher_pc.splits)
next
  case WatchStreaming
  then show ?thesis using assms(1,4)
    by (auto simp: step_def Watch_streaming_def aux_defs inv_sc_def has_ret_simps Let_def wrap_def split: if_splits main_pc.splits option.splits sup_pc.splits collect_result.splits write_result.splits watcher_pc.splits)
next
  case WatchCancel
  then show ?thesis using assms(1,2,4)
    by (auto simp: step_def Watch_cancel_def aux_defs inv_sc_def inv_outer_def has_ret_simps Let_def wrap_def split: if_splits main_pc.splits option.splits sup_pc.splits collect_result.splits write_result.splits watcher_pc.splits)
next
  case WatchWait
  then show ?thesis using assms(1,4)
    by (auto simp: step_def Watch_wait_def aux_defs inv_sc_def has_ret_simps Let_def wrap_def split: if_splits main_pc.splits option.splits sup_pc.splits collect_result.splits write_result.splits watcher_pc.splits)
next
  case WatchLock
  then show ?thesis using assms(1,4)
    by (auto simp: step_def Watch_lock_def aux_defs inv_sc_def has_ret_simps Let_def wrap_def split: if_splits main_pc.splits option.splits sup_pc.splits collect_result.splits write_result.splits watcher_pc.splits)
next
  case (WatchSession err)
  then show ?thesis using assms(1,4)
    by (auto simp: step_def Watch_session_def aux_defs inv_sc_def has_ret_simps Let_def wrap_def split: if_splits main_pc.splits option.splits sup_pc.splits collect_result.splits write_result.splits watcher_pc.splits)
next
  case (WatchClient err)
  then show ?thesis using assms(1,4)
    by (auto simp: step_def Watch_client_def aux_defs inv_sc_def has_ret_simps Let_def wrap_def split: if_splits main_pc.splits option.splits sup_pc.splits collect_result.splits write_result.splits watcher_pc.splits)
next
  case WatchMark
  then show ?thesis using assms(1,4)
    by (auto simp: step_def Watch_mark_def aux_defs inv_sc_def has_ret_simps Let_def wrap_def split: if_splits main_pc.splits option.splits sup_pc.splits collect_result.splits write_result.splits watcher_pc.splits)
next
  case WatchLog
  then show ?thesis using assms(1,4)
    by (auto simp: step_def Watch_log_def aux_defs inv_sc_def has_ret_simps Let_def wrap_def split: if_splits main_pc.splits option.splits sup_pc.splits collect_result.splits write_result.splits watcher_pc.splits)
next
  case WatchFinish
  then show ?thesis using assms(1,4)
    by (auto simp: step_def Watch_finish_def aux_defs inv_sc_def has_ret_simps Let_def wrap_def split: if_splits main_pc.splits option.splits sup_pc.splits collect_result.splits write_result.splits watcher_pc.splits)
qed

lemma inv_started_step:
  assumes "inv_started s" "inv_idx s" "step a s = Some s'"
  shows "inv_started s'"
proof (cases a)
  case (Advance d)
  then show ?thesis using assms(1,3)
    by (auto simp: step_def aux_defs inv_started_def Let_def wrap_def split: if_splits main_pc.splits option.splits sup_pc.splits collect_result.splits write_result.splits watcher_pc.splits)
next
  case CancelOuter
  then show ?thesis using assms(1,3)
    by (auto simp: step_def aux_defs inv_started_def Let_def wrap_def split: if_splits main_pc.splits option.splits sup_pc.splits collect_result.splits write_result.splits watcher_pc.splits)
next
  case (StartCreate rid err)
  then show ?thesis using assms(1,3)
    by (auto simp: step_def Start_create_def aux_defs inv_started_def Let_def wrap_def split: if_splits main_pc.splits option.splits sup_pc.splits collect_result.splits write_result.splits watcher_pc.splits)
next
  case (StartOpen err)
  then show ?thesis using assms
    by (auto simp: step_def Start_open_def aux_defs inv_started_def inv_idx_def Let_def wrap_def split: if_splits main_pc.splits option.splits sup_pc.splits collect_result.splits write_result.splits watcher_pc.splits)
next
  case StartWatch
  then show ?thesis using assms
    by (auto simp: step_def Start_watch_def aux_defs inv_started_def inv_idx_def Let_def wrap_def split: if_splits main_pc.splits option.splits sup_pc.splits collect_result.splits write_result.splits watcher_pc.splits)
next
  case CloseCheck
  then show ?thesis using assms(1,3)
    by (auto simp: step_def Close_check_def aux_defs inv_started_def Let_def wrap_def split: if_splits main_pc.splits option.splits sup_pc.splits collect_result.splits write_result.splits watcher_pc.splits)
next
  case CloseCancel
  then show ?thesis using assms(1,3)
    by (auto simp: step_def Close_cancel_def aux_defs inv_started_def Let_def wrap_def split: if_splits main_pc.splits option.splits sup_pc.splits collect_result.splits write_result.splits watcher_pc.splits)
next
  case CloseWait
  then show ?thesis using assms(1,3)
    by (auto simp: step_def Close_wait_def aux_defs inv_started_def Let_def wrap_def split: if_splits main_pc.splits option.splits sup_pc.splits collect_result.splits write_result.splits watcher_pc.splits)
next
  case (SupInit i)
  then show ?thesis using assms(1,3)
    by (auto simp: step_def Sup_init_def aux_defs inv_started_def Let_def wrap_def split: if_splits main_pc.splits option.splits sup_pc.splits collect_result.splits write_result.splits watcher_pc.splits)
next
  case (SupCtxDone i)
  then show ?thesis using assms(1,3)
    by (auto simp: step_def Sup_ctx_done_def aux_defs inv_started_def Let_def wrap_def split: if_splits main_pc.splits option.splits sup_pc.splits collect_result.splits write_result.splits watcher_pc.splits)
next
  case (SupCollect i)
  then show ?thesis using assms(1,3)
    by (auto simp: step_def Sup_collect_def aux_defs inv_started_def Let_def wrap_def split: if_splits main_pc.splits option.splits sup_pc.splits collect_result.splits write_result.splits watcher_pc.splits)
next
  case (SupWrite i r)
  then show ?thesis using assms(1,3)
    by (auto simp: step_def Sup_write_def aux_defs inv_started_def Let_def wrap_def split: if_splits main_pc.splits option.splits sup_pc.splits collect_result.splits write_result.splits watcher_pc.splits)
next
  case (SupRecover i)
  then show ?thesis using assms(1,3)
    by (auto simp: step_def Sup_recover_def aux_defs inv_started_def Let_def wrap_def split: if_splits main_pc.splits option.splits sup_pc.splits collect_result.splits write_result.splits watcher_pc.splits)
next
  case (SupClose i err)
  then show ?thesis using assms(1,3)
    by (auto simp: step_def Sup_close_def aux_defs inv_started_def Let_def wrap_def split: if_splits main_pc.splits option.splits sup_pc.splits collect_result.splits write_result.splits watcher_pc.splits)
next
  case (SupFinish i)
  then show ?thesis using assms(1,3)
    by (auto simp: step_def Sup_finish_def aux_defs inv_started_def Let_def wrap_def split: if_splits main_pc.splits option.splits sup_pc.splits collect_result.splits write_result.splits watcher_pc.splits)
next
  case WatchOuter
  then show ?thesis using assms(1,3)
    by (auto simp: step_def Watch_outer_def aux_defs inv_started_def Let_def wrap_def split: if_splits main_pc.splits option.splits sup_pc.splits collect_result.splits write_result.splits watcher_pc.splits)
next
  case WatchStreaming
  then show ?thesis using assms(1,3)
    by (auto simp: step_def Watch_streaming_def aux_defs inv_started_def Let_def wrap_def split: if_splits main_pc.splits option.splits sup_pc.splits collect_result.splits write_result.splits watcher_pc.splits)
next
  case WatchCancel
  then show ?thesis using assms(1,3)
    by (auto simp: step_def Watch_cancel_def aux_defs inv_started_def Let_def wrap_def split: if_splits main_pc.splits option.splits sup_pc.splits collect_result.splits write_result.splits watcher_pc.splits)
next
  case WatchWait
  then show ?thesis using assms(1,3)
    by (auto simp: step_def Watch_wait_def aux_defs inv_started_def Let_def wrap_def split: if_splits main_pc.splits option.splits sup_pc.splits collect_result.splits write_result.splits watcher_pc.splits)
next
  case WatchLock
  then show ?thesis using assms(1,3)
    by (auto simp: step_def Watch_lock_def aux_defs inv_started_def Let_def wrap_def split: if_splits main_pc.splits option.splits sup_pc.splits collect_result.splits write_result.splits watcher_pc.splits)
next
  case (WatchSession err)
  then show ?thesis using assms(1,3)
    by (auto simp: step_def Watch_session_def aux_defs inv_started_def Let_def wrap_def split: if_splits main_pc.splits option.splits sup_pc.splits collect_result.splits write_result.splits watcher_pc.splits)
next
  case (WatchClient err)
  then show ?thesis using assms(1,3)
    by (auto simp: step_def Watch_client_def aux_defs inv_started_def Let_def wrap_def split: if_splits main_pc.splits option.splits sup_pc.splits collect_result.splits write_result.splits watcher_pc.splits)
next
  case WatchMark
  then show ?thesis using assms(1,3)
    by (auto simp: step_def Watch_mark_def aux_defs inv_started_def Let_def wrap_def split: if_splits main_pc.splits option.splits sup_pc.splits collect_result.splits write_result.splits watcher_pc.splits)
next
  case WatchLog
  then show ?thesis using assms(1,3)
    by (auto simp: step_def Watch_log_def aux_defs inv_started_def Let_def wrap_def split: if_splits main_pc.splits option.splits sup_pc.splits collect_result.splits write_result.splits watcher_pc.splits)
next
  case WatchFinish
  then show ?thesis using assms(1,3)
    by (auto simp: step_def Watch_finish_def aux_defs inv_started_def Let_def wrap_def split: if_splits main_pc.splits option.splits sup_pc.splits collect_result.splits write_result.splits watcher_pc.splits)
qed

lemma inv_quiet_step:
  assumes "inv_quiet s" "inv_fresh s" "step a s = Some s'"
  shows "inv_quiet s'"
proof (cases a)
  case (Advance d)
  then show ?thesis using assms
    by (auto simp: step_def aux_defs inv_quiet_def inv_fresh_def quiet_simps Let_def wrap_def split: if_splits main_pc.splits option.splits sup_pc.splits collect_result.splits write_result.splits watcher_pc.splits)
next
  case CancelOuter
  then show ?thesis using assms
    by (auto simp: step_def aux_defs inv_quiet_def inv_fresh_def quiet_simps Let_def wrap_def split: if_splits main_pc.splits option.splits sup_pc.splits collect_result.splits write_result.splits watcher_pc.splits)
next
  case (StartCreate rid err)
  then show ?thesis using assms
    by (auto simp: step_def Start_create_def aux_defs inv_quiet_def inv_fresh_def quiet_simps Let_def wrap_def split: if_splits main_pc.splits option.splits sup_pc.splits collect_result.splits write_result.splits watcher_pc.splits)
next
  case (StartOpen err)
  then show ?thesis using assms
    by (auto simp: step_def Start_open_def aux_defs inv_quiet_def inv_fresh_def quiet_simps Let_def wrap_def split: if_splits main_pc.splits option.splits sup_pc.splits collect_result.splits write_result.splits watcher_pc.splits)
next
  case StartWatch
  then show ?thesis using assms
    by (auto simp: step_def Start_watch_def aux_defs inv_quiet_def inv_fresh_def quiet_simps Let_def wrap_def split: if_splits main_pc.splits option.splits sup_pc.splits collect_result.splits write_result.splits watcher_pc.splits)
next
  case CloseCheck
  then show ?thesis using assms
    by (auto simp: step_def Close_check_def aux_defs inv_quiet_def inv_fresh_def quiet_simps Let_def wrap_def split: if_splits main_pc.splits option.splits sup_pc.splits collect_result.splits write_result.splits watcher_pc.splits)
next
  case CloseCancel
  then show ?thesis using assms
    by (auto simp: step_def Close_cancel_def aux_defs inv_quiet_def inv_fresh_def quiet_simps Let_def wrap_def split: if_splits main_pc.splits option.splits sup_pc.splits collect_result.splits write_result.splits watcher_pc.splits)
next
  case CloseWait
  then show ?thesis using assms
    by (auto simp: step_def Close_wait_def aux_defs inv_quiet_def inv_fresh_def quiet_simps Let_def wrap_def split: if_splits main_pc.splits option.splits sup_pc.splits collect_result.splits write_result.splits watcher_pc.splits)
next
  case (SupInit i)
  then show ?thesis using assms
    by (auto simp: step_def Sup_init_def aux_defs inv_quiet_def inv_fresh_def quiet_simps Let_def wrap_def split: if_splits main_pc.splits option.splits sup_pc.splits collect_result.splits write_result.splits watcher_pc.splits)
next
  case (SupCtxDone i)
  then show ?thesis using assms
    by (auto simp: step_def Sup_ctx_done_def aux_defs inv_quiet_def inv_fresh_def quiet_simps Let_def wrap_def split: if_splits main_pc.splits option.splits sup_pc.splits collect_result.splits write_result.splits watcher_pc.splits)
next
  case (SupCollect i)
  then show ?thesis using assms
    by (auto simp: step_def Sup_collect_def aux_defs inv_quiet_def inv_fresh_def quiet_simps Let_def wrap_def split: if_splits main_pc.splits option.splits sup_pc.splits collect_result.splits write_result.splits watcher_pc.splits)
next
  case (SupWrite i r)
  then show ?thesis using assms
    by (auto simp: step_def Sup_write_def aux_defs inv_quiet_def inv_fresh_def quiet_simps Let_def wrap_def split: if_splits main_pc.splits option.splits sup_pc.splits collect_result.splits write_result.splits watcher_pc.splits)
next
  case (SupRecover i)
  then show ?thesis using assms
    by (auto simp: step_def Sup_recover_def aux_defs inv_quiet_def inv_fresh_def quiet_simps Let_def wrap_def split: if_splits main_pc.splits option.splits sup_pc.splits collect_result.splits write_result.splits watcher_pc.splits)
next
  case (SupClose i err)
  then show ?thesis using assms
    by (auto simp: step_def Sup_close_def aux_defs inv_quiet_def inv_fresh_def quiet_simps Let_def wrap_def split: if_splits main_pc.splits option.splits sup_pc.splits collect_result.splits write_result.splits watcher_pc.splits)
next
  case (SupFinish i)
  then show ?thesis using assms
    by (auto simp: step_def Sup_finish_def aux_defs inv_quiet_def inv_fresh_def quiet_simps Let_def wrap_def split: if_splits main_pc.splits option.splits sup_pc.splits collect_result.splits write_result.splits watcher_pc.splits)
next
  case WatchOuter
  then show ?thesis using assms
    by (auto simp: step_def Watch_outer_def aux_defs inv_quiet_def inv_fresh_def quiet_simps Let_def wrap_def split: if_splits main_pc.splits option.splits sup_pc.splits collect_result.splits write_result.splits watcher_pc.splits)
next
  case WatchStreaming
  then show ?thesis using assms
    by (auto simp: step_def Watch_streaming_def aux_defs inv_quiet_def inv_fresh_def quiet_simps Let_def wrap_def split: if_splits main_pc.splits option.splits sup_pc.splits collect_result.splits write_result.splits watcher_pc.splits)
next
  case WatchCancel
  then show ?thesis using assms
    by (auto simp: step_def Watch_cancel_def aux_defs inv_quiet_def inv_fresh_def quiet_simps Let_def wrap_def split: if_splits main_pc.splits option.splits sup_pc.splits collect_result.splits write_result.splits watcher_pc.splits)
next
  case WatchWait
  then show ?thesis using assms
    by (auto simp: step_def Watch_wait_def aux_defs inv_quiet_def inv_fresh_def quiet_simps Let_def wrap_def split: if_splits main_pc.splits option.splits sup_pc.splits collect_result.splits write_result.splits watcher_pc.splits)
next
  case WatchLock
  then show ?thesis using assms
    by (auto simp: step_def Watch_lock_def aux_defs inv_quiet_def inv_fresh_def quiet_simps Let_def wrap_def split: if_splits main_pc.splits option.splits sup_pc.splits collect_result.splits write_result.splits watcher_pc.splits)
next
  case (WatchSession err)
  then show ?thesis using assms
    by (auto simp: step_def Watch_session_def aux_defs inv_quiet_def inv_fresh_def quiet_simps Let_def wrap_def split: if_splits main_pc.splits option.splits sup_pc.splits collect_result.splits write_result.splits watcher_pc.splits)
next
  case (WatchClient err)
  then show ?thesis using assms
    by (auto simp: step_def Watch_client_def aux_defs inv_quiet_def inv_fresh_def quiet_simps Let_def wrap_def split: if_splits main_pc.splits option.splits sup_pc.splits collect_result.splits write_result.splits watcher_pc.splits)
next
  case WatchMark
  then show ?thesis using assms
    by (auto simp: step_def Watch_mark_def aux_defs inv_quiet_def inv_fresh_def quiet_simps Let_def wrap_def split: if_splits main_pc.splits option.splits sup_pc.splits collect_result.splits write_result.splits watcher_pc.splits)
next
  case WatchLog
  then show ?thesis using assms
    by (auto simp: step_def Watch_log_def aux_defs inv_quiet_def inv_fresh_def quiet_simps Let_def wrap_def split: if_splits main_pc.splits option.splits sup_pc.splits collect_result.splits write_result.splits watcher_pc.splits)
next
  case WatchFinish
  then show ?thesis using assms
    by (auto simp: step_def Watch_finish_def aux_defs inv_quiet_def inv_fresh_def quiet_simps Let_def wrap_def split: if_splits main_pc.splits option.splits sup_pc.splits collect_result.splits write_result.splits watcher_pc.splits)
qed

lemma inv2_step:
  assumes "inv2 s" "step a s = Some s'"
  shows "inv2 s'"
proof -
  have i: "inv s" and a: "inv_sc s" and b: "inv_started s" and c: "inv_quiet s"
    using assms(1) by (simp_all add: inv2_def)
  note d = invD[OF i]
  have "inv s'" using i assms(2) by (rule inv_step)
  moreover have "inv_sc s'" using a d(22) d(1) assms(2) by (rule inv_sc_step)
  moreover have "inv_started s'" using b d(2) assms(2) by (rule inv_started_step)
  moreover have "inv_quiet s'" using c d(1) assms(2) by (rule inv_quiet_step)
  ultimately show ?thesis by (simp add: inv2_def)
qed

lemma inv2_run: "inv2 s \<Longrightarrow> run as s = Some s' \<Longrightarrow> inv2 s'"
proof (induction as arbitrary: s)
  case Nil
  then show ?case by simp
next
  case (Cons a as)
  then show ?case by (auto split: option.splits dest: inv2_step)
qed

lemma inv2_new:
  assumes "newSystemMetricsCollector new_client opts = (Inr s0, evs)"
  shows "inv2 s0"
  using new_state[OF assms] inv_new[OF assms]
  by (simp add: inv2_def inv_sc_def inv_started_def inv_quiet_def quiet_def)

lemma inv2_reach:
  assumes "newSystemMetricsCollector new_client opts = (Inr s0, evs)" "run as s0 = Some s"
  shows "inv2 s"
  using inv2_new[OF assms(1)] assms(2) by (rule inv2_run)


lemma ex_state1_new:
  "newSystemMetricsCollector None ex_opts
     = (Inr ex_state1, [EvNewClientWithExistingConnection (Some (ClientConn 1))])"
  by (simp add: newSystemMetricsCollector_def options_validate_def ex_opts_def ex_state1_def Let_def)

lemma ex_state2_new:
  "newSystemMetricsCollector None ex_opts2
     = (Inr ex_state2, [EvNewClientWithExistingConnection (Some (ClientConn 1))])"
  by (simp add: newSystemMetricsCollector_def options_validate_def ex_opts_def ex_opts2_def
      ex_state1_def ex_state2_def Let_def)


section \<open>Start\<close>




section \<open>Cleanup\<close>






section \<open>Close\<close>

lemma run_Cons_Some:
  "run (a # as) s = Some s' \<longleftrightarrow> (\<exists>t. step a s = Some t \<and> run as t = Some s')"
  by (auto split: option.splits)

lemma closed_start_called:
  assumes "inv s" "closed s"
  shows "start_called s"
proof -
  note d = invD[OF assms(1)]
  have "8 \<le> wrank (watcher s)" using d(8) assms(2) by (simp add: inv_closed_def)
  then have "watcher s \<noteq> WNone" by auto
  then show ?thesis using d(1) by (auto simp: inv_fresh_def)
qed

lemma closed_idle_step:
  assumes "start_called s" "closed s" "main s = MIdle" "step a s = Some s'"
  shows "closed s' \<and> main s' = MIdle
    \<and> (\<exists>new. events s' = events s @ new
          \<and> (\<forall>r. EvCloseReturn r \<in> set new \<longrightarrow> r = Some already_closed))"
proof (cases a)
  case (Advance d)
  then show ?thesis using assms
    by (auto simp: step_def aux_defs Let_def wrap_def already_closed_def split: if_splits main_pc.splits option.splits sup_pc.splits collect_result.splits write_result.splits watcher_pc.splits)
next
  case CancelOuter
  then show ?thesis using assms
    by (auto simp: step_def aux_defs Let_def wrap_def already_closed_def split: if_splits main_pc.splits option.splits sup_pc.splits collect_result.splits write_result.splits watcher_pc.splits)
next
  case (StartCreate rid err)
  then show ?thesis using assms
    by (auto simp: step_def Start_create_def aux_defs Let_def wrap_def already_closed_def split: if_splits main_pc.splits option.splits sup_pc.splits collect_result.splits write_result.splits watcher_pc.splits)
next
  case (StartOpen err)
  then show ?thesis using assms
    by (auto simp: step_def Start_open_def aux_defs Let_def wrap_def already_closed_def split: if_splits main_pc.splits option.splits sup_pc.splits collect_result.splits write_result.splits watcher_pc.splits)
next
  case StartWatch
  then show ?thesis using assms
    by (auto simp: step_def Start_watch_def aux_defs Let_def wrap_def already_closed_def split: if_splits main_pc.splits option.splits sup_pc.splits collect_result.splits write_result.splits watcher_pc.splits)
next
  case CloseCheck
  then show ?thesis using assms
    by (auto simp: step_def Close_check_def aux_defs Let_def wrap_def already_closed_def split: if_splits main_pc.splits option.splits sup_pc.splits collect_result.splits write_result.splits watcher_pc.splits)
next
  case CloseCancel
  then show ?thesis using assms
    by (auto simp: step_def Close_cancel_def aux_defs Let_def wrap_def already_closed_def split: if_splits main_pc.splits option.splits sup_pc.splits collect_result.splits write_result.splits watcher_pc.splits)
next
  case CloseWait
  then show ?thesis using assms
    by (auto simp: step_def Close_wait_def aux_defs Let_def wrap_def already_closed_def split: if_splits main_pc.splits option.splits sup_pc.splits collect_result.splits write_result.splits watcher_pc.splits)
next
  case (SupInit i)
  then show ?thesis using assms
    by (auto simp: step_def Sup_init_def aux_defs Let_def wrap_def already_closed_def split: if_splits main_pc.splits option.splits sup_pc.splits collect_result.splits write_result.splits watcher_pc.splits)
next
  case (SupCtxDone i)
  then show ?thesis using assms
    by (auto simp: step_def Sup_ctx_done_def aux_defs Let_def wrap_def already_closed_def split: if_splits main_pc.splits option.splits sup_pc.splits collect_result.splits write_result.splits watcher_pc.splits)
next
  case (SupCollect i)
  then show ?thesis using assms
    by (auto simp: step_def Sup_collect_def aux_defs Let_def wrap_def already_closed_def split: if_splits main_pc.splits option.splits sup_pc.splits collect_result.splits write_result.splits watcher_pc.splits)
next
  case (SupWrite i r)
  then show ?thesis using assms
    by (auto simp: step_def Sup_write_def aux_defs Let_def wrap_def already_closed_def split: if_splits main_pc.splits option.splits sup_pc.splits collect_result.splits write_result.splits watcher_pc.splits)
next
  case (SupRecover i)
  then show ?thesis using assms
    by (auto simp: step_def Sup_recover_def aux_defs Let_def wrap_def already_closed_def split: if_splits main_pc.splits option.splits sup_pc.splits collect_result.splits write_result.splits watcher_pc.splits)
next
  case (SupClose i err)
  then show ?thesis using assms
    by (auto simp: step_def Sup_close_def aux_defs Let_def wrap_def already_closed_def split: if_splits main_pc.splits option.splits sup_pc.splits collect_result.splits write_result.splits watcher_pc.splits)
next
  case (SupFinish i)
  then show ?thesis using assms
    by (auto simp: step_def Sup_finish_def aux_defs Let_def wrap_def already_closed_def split: if_splits main_pc.splits option.splits sup_pc.splits collect_result.splits write_result.splits watcher_pc.splits)
next
  case WatchOuter
  then show ?thesis using assms
    by (auto simp: step_def Watch_outer_def aux_defs Let_def wrap_def already_closed_def split: if_splits main_pc.splits option.splits sup_pc.splits collect_result.splits write_result.splits watcher_pc.splits)
next
  case WatchStreaming
  then show ?thesis using assms
    by (auto simp: step_def Watch_streaming_def aux_defs Let_def wrap_def already_closed_def split: if_splits main_pc.splits option.splits sup_pc.splits collect_result.splits write_result.splits watcher_pc.splits)
next
  case WatchCancel
  then show ?thesis using assms
    by (auto simp: step_def Watch_cancel_def aux_defs Let_def wrap_def already_closed_def split: if_splits main_pc.splits option.splits sup_pc.splits collect_result.splits write_result.splits watcher_pc.splits)
next
  case WatchWait
  then show ?thesis using assms
    by (auto simp: step_def Watch_wait_def aux_defs Let_def wrap_def already_closed_def split: if_splits main_pc.splits option.splits sup_pc.splits collect_result.splits write_result.splits watcher_pc.splits)
next
  case WatchLock
  then show ?thesis using assms
    by (auto simp: step_def Watch_lock_def aux_defs Let_def wrap_def already_closed_def split: if_splits main_pc.splits option.splits sup_pc.splits collect_result.splits write_result.splits watcher_pc.splits)
next
  case (WatchSession err)
  then show ?thesis using assms
    by (auto simp: step_def Watch_session_def aux_defs Let_def wrap_def already_closed_def split: if_splits main_pc.splits option.splits sup_pc.splits collect_result.splits write_result.splits watcher_pc.splits)
next
  case (WatchClient err)
  then show ?thesis using assms
    by (auto simp: step_def Watch_client_def aux_defs Let_def wrap_def already_closed_def split: if_splits main_pc.splits option.splits sup_pc.splits collect_result.splits write_result.splits watcher_pc.splits)
next
  case WatchMark
  then show ?thesis using assms
    by (auto simp: step_def Watch_mark_def aux_defs Let_def wrap_def already_closed_def split: if_splits main_pc.splits option.splits sup_pc.splits collect_result.splits write_result.splits watcher_pc.splits)
next
  case WatchLog
  then show ?thesis using assms
    by (auto simp: step_def Watch_log_def aux_defs Let_def wrap_def already_closed_def split: if_splits main_pc.splits option.splits sup_pc.splits collect_result.splits write_result.splits watcher_pc.splits)
next
  case WatchFinish
  then show ?thesis using assms
    by (auto simp: step_def Watch_finish_def aux_defs Let_def wrap_def already_closed_def split: if_splits main_pc.splits option.splits sup_pc.splits collect_result.splits write_result.splits watcher_pc.splits)
qed

lemma closed_idle_run:
  assumes "inv s" "closed s" "main s = MIdle" "run bs s = Some s'"
  shows "closed s' \<and> main s' = MIdle
    \<and> (\<exists>new. events s' = events s @ new
          \<and> (\<forall>r. EvCloseReturn r \<in> set new \<longrightarrow> r = Some already_closed))"
  using assms
proof (induction bs arbitrary: s)
  case Nil
  then show ?case by simp
next
  case (Cons a bs)
  from Cons.prems(4) obtain t where st: "step a s = Some t" and rt: "run bs t = Some s'"
    by (auto split: option.splits)
  have sc: "start_called s" using Cons.prems(1,2) by (rule closed_start_called)
  from closed_idle_step[OF sc Cons.prems(2,3) st] obtain n1 where
    t: "closed t" "main t = MIdle" "events t = events s @ n1"
       "\<forall>r. EvCloseReturn r \<in> set n1 \<longrightarrow> r = Some already_closed"
    by blast
  have it: "inv t" using Cons.prems(1) st by (rule inv_step)
  from Cons.IH[OF it t(1,2) rt] obtain n2 where
    s': "closed s'" "main s' = MIdle" "events s' = events t @ n2"
       "\<forall>r. EvCloseReturn r \<in> set n2 \<longrightarrow> r = Some already_closed"
    by blast
  have "events s' = events s @ (n1 @ n2)" using t(3) s'(3) by simp
  moreover have "\<forall>r. EvCloseReturn r \<in> set (n1 @ n2) \<longrightarrow> r = Some already_closed"
    using t(4) s'(4) by auto
  ultimately show ?case using s'(1,2) by blast
qed

text \<open>
  C10.  Once cleanup has completed (the watcher is past \<open>s.closed = true\<close>) the collector
  is marked closed.  When no \<open>Close\<close> has returned before, it was the cancellation of the
  caller's context that made the watcher run.  A call of \<open>Close\<close> by a caller that is not
  inside a call returns the already-closed error and changes nothing else; and from then
  on every \<open>Close\<close> returns that error: the errors in the catcher are never returned.
\<close>

theorem close_after_external_cancel:
  assumes "newSystemMetricsCollector new_client opts = (Inr s0, evs)"
    and "run as s0 = Some s"
    and "8 \<le> wrank (watcher s)"
    and "main s = MIdle"
  shows "closed s
    \<and> (\<not> has_ret (events s) \<longrightarrow> outer_done s)
    \<and> step CloseCheck s = Some (emit (EvCloseReturn (Some already_closed)) s)
    \<and> (\<forall>bs s'. run bs s = Some s' \<longrightarrow>
          closed s' \<and> main s' = MIdle
          \<and> (\<exists>new. events s' = events s @ new
                \<and> (\<forall>r. EvCloseReturn r \<in> set new \<longrightarrow> r = Some already_closed)))"
proof -
  have i2: "inv2 s" using assms(1,2) by (rule inv2_reach)
  then have i: "inv s" and sc: "inv_sc s" by (simp_all add: inv2_def)
  note d = invD[OF i]
  have c: "closed s" using d(8) assms(3) by (simp add: inv_closed_def)
  have nm: "\<not> mu s" using d(7) assms(3) by (simp add: inv_mu_def)
  have nc: "\<not> crashed s" using d(19) assms(4) by (auto simp: inv_crash_def)
  have w: "watcher s \<noteq> WNone" using assms(3) by auto
  have "streamingCtx_done s" using d(9) assms(3) by (simp add: inv_ctx_def)
  moreover have "streamingCancel s" using d(5) w by (simp add: inv_launched_def)
  ultimately have o: "\<not> has_ret (events s) \<longrightarrow> outer_done s"
    using sc assms(4) by (auto simp: inv_sc_def streamingCtx_done_def)
  have k: "step CloseCheck s = Some (emit (EvCloseReturn (Some already_closed)) s)"
    using c nm nc assms(4) by (simp add: step_def Close_check_def already_closed_def)
  have r: "\<forall>bs s'. run bs s = Some s' \<longrightarrow>
          closed s' \<and> main s' = MIdle
          \<and> (\<exists>new. events s' = events s @ new
                \<and> (\<forall>r. EvCloseReturn r \<in> set new \<longrightarrow> r = Some already_closed))"
    using closed_idle_run[OF i c assms(4)] by blast
  from c o k r show ?thesis by blast
qed

theorem close_after_external_cancel_witness:
  "events_after (ex_run_cancel @ [CloseCheck]) ex_state1
     = events_after ex_run_cancel ex_state1 @ [EvCloseReturn (Some already_closed)]
   \<and> catcher_after ex_run_cancel ex_state1
     = [Wrap (New ''broken pipe'')
          ''problem closing system metrics stream for id id1 and metricType uptime'']
   \<and> watcher_after ex_run_cancel ex_state1 = WDone True"
proof -
  have r: "run ex_run_cancel ex_state1 = Some (the (run ex_run_cancel ex_state1))"
    by (simp add: eval_defs)
  have w: "8 \<le> wrank (watcher (the (run ex_run_cancel ex_state1)))"
    by (simp add: eval_defs)
  have m: "main (the (run ex_run_cancel ex_state1)) = MIdle"
    by (simp add: eval_defs)
  from close_after_external_cancel[OF ex_state1_new r w m] show ?thesis
    by (simp add: eval_defs already_closed_def)
qed


end
